(* ===== verification/Prelude.thy ===== *)
theory Prelude
  imports
    Main
    "HOL-Library.Word"
    "HOL-Library.AList"
    "HOL-Library.Char_ord"
    "HOL-Library.List_Lexorder"
    "HOL-Library.Sublist"
    "HOL-Library.Multiset"
begin

text \<open>
  The vocabulary every component shares: Go's machine integers, Go maps as association lists
  with distinct keys, results of fallible calls, and the collections of rewrite rules the
  component theories feed and use.

  \<^item> \<open>int64\<close> is Go's \<^verbatim>\<open>int64\<close> (and \<^verbatim>\<open>int\<close> on the 64-bit platforms the releases target),
    a 64-bit word read by \<^const>\<open>sint\<close>.
  \<^item> \<open>('k, 'v) gomap\<close> is a Go map. The list order is one enumeration of the entries; Go leaves
    the order of \<^verbatim>\<open>range\<close> unspecified. A callback that ranges over a map takes the order of each
    of its loops as an argument (\<open>go_range\<close>), and what it emits is stated for every order.
  \<^item> a Go call that returns \<^verbatim>\<open>(value, error)\<close> returns \<open>error + value\<close>.
\<close>

section \<open>Shared types\<close>

type_synonym int64 = "64 word"

type_synonym ('k, 'v) gomap = "('k \<times> 'v) list"

named_theorems go_simps \<open>evaluation rules of the Go standard library functions\<close>
named_theorems map_simps \<open>laws of Go maps\<close>
named_theorems inv_intros \<open>preservation of the components' invariants\<close>

section \<open>Go maps\<close>

abbreviation map_get :: "('k, 'v) gomap \<Rightarrow> 'k \<Rightarrow> 'v option" where
  "map_get m k \<equiv> map_of m k"

definition map_put :: "'k \<Rightarrow> 'v \<Rightarrow> ('k, 'v) gomap \<Rightarrow> ('k, 'v) gomap" where
  "map_put k v m = AList.update k v m"

abbreviation map_keys :: "('k, 'v) gomap \<Rightarrow> 'k list" where
  "map_keys m \<equiv> map fst m"

definition map_ok :: "('k, 'v) gomap \<Rightarrow> bool" where
  "map_ok m \<longleftrightarrow> distinct (map fst m)"

text \<open>Applying a function to the value a key holds: \<^verbatim>\<open>m[k].field = v\<close> through a pointer.\<close>

definition map_adjust :: "'k \<Rightarrow> ('v \<Rightarrow> 'v) \<Rightarrow> ('k, 'v) gomap \<Rightarrow> ('k, 'v) gomap" where
  "map_adjust k f m = (case map_of m k of None \<Rightarrow> m | Some v \<Rightarrow> map_put k (f v) m)"

lemma map_ok_Nil [simp, intro]: "map_ok []"
  by (simp add: map_ok_def)

lemma map_get_put [simp, map_simps]: "map_of (map_put k v m) = (map_of m)(k \<mapsto> v)"
  by (simp add: map_put_def update_conv')

lemma map_ok_put [simp, inv_intros]: "map_ok m \<Longrightarrow> map_ok (map_put k v m)"
  by (simp add: map_ok_def map_put_def distinct_update)

lemma keys_put [map_simps]: "set (map_keys (map_put k v m)) = insert k (set (map_keys m))"
  by (auto simp: map_put_def update_keys)

lemma put_fresh [simp]: "k \<notin> set (map_keys m) \<Longrightarrow> map_put k v m = m @ [(k, v)]"
  unfolding map_put_def by (induction m) auto

lemma put_Nil [simp]: "map_put k v [] = [(k, v)]"
  by (simp add: map_put_def)

lemma put_Cons [simp]:
  "map_put k v (p # m) = (if fst p = k then (k, v) # m else p # map_put k v m)"
  by (simp add: map_put_def)

lemma put_put [simp, map_simps]: "map_put k v (map_put k w m) = map_put k v m"
  by (simp add: map_put_def)

lemma put_append_last [simp]:
  "k \<notin> set (map_keys m) \<Longrightarrow> map_put k v (m @ [(k, w)]) = m @ [(k, v)]"
  unfolding map_put_def by (induction m) auto

lemma set_put: "set (map_put k v m) \<subseteq> insert (k, v) (set m)"
  unfolding map_put_def by (induction m) auto

lemma map_get_adjust [simp, map_simps]:
  "map_of (map_adjust k f m) = (map_of m)(k := map_option f (map_of m k))"
  by (auto simp: map_adjust_def fun_eq_iff split: option.splits)

lemma map_ok_adjust [simp, inv_intros]: "map_ok m \<Longrightarrow> map_ok (map_adjust k f m)"
  by (auto simp: map_adjust_def split: option.splits)

lemma map_get_iff: "map_ok m \<Longrightarrow> map_of m k = Some v \<longleftrightarrow> (k, v) \<in> set m"
  by (simp add: map_ok_def)

lemma adjust_append_last [simp]:
  "k \<notin> set (map_keys m) \<Longrightarrow> map_adjust k f (m @ [(k, v)]) = m @ [(k, f v)]"
proof -
  assume k: "k \<notin> set (map_keys m)"
  then have "map_of m k = None"
    by (simp add: map_of_eq_None_iff)
  then have "map_of (m @ [(k, v)]) k = Some v"
    by (simp add: map_add_def)
  with k show ?thesis
    by (simp add: map_adjust_def)
qed

text \<open>A loop that stores one entry after the other: the last store of a key wins.\<close>

definition put_all :: "('k \<times> 'v) list \<Rightarrow> ('k, 'v) gomap \<Rightarrow> ('k, 'v) gomap" where
  "put_all kvs m = foldl (\<lambda>m (k, v). map_put k v m) m kvs"

lemma put_all_Nil [simp]: "put_all [] m = m"
  by (simp add: put_all_def)

lemma put_all_Cons [simp]: "put_all ((k, v) # kvs) m = put_all kvs (map_put k v m)"
  by (simp add: put_all_def)

lemma put_all_append: "put_all (xs @ ys) m = put_all ys (put_all xs m)"
  by (simp add: put_all_def)

lemma map_get_put_all [map_simps]: "map_of (put_all kvs m) = map_of m ++ map_of (rev kvs)"
proof (induction kvs arbitrary: m)
  case (Cons p kvs)
  obtain k v where p: "p = (k, v)" by force
  have put: "map_of (map_put k v m) = map_of m ++ map_of [(k, v)]"
    by (rule ext) (simp add: map_add_def)
  show ?case
    unfolding p put_all_Cons Cons.IH put by (simp only: rev.simps map_of_append map_add_assoc)
qed simp

lemma map_ok_put_all [simp, inv_intros]: "map_ok m \<Longrightarrow> map_ok (put_all kvs m)"
proof (induction kvs arbitrary: m)
  case (Cons p kvs)
  then show ?case
    by (cases p) (simp only: put_all_Cons map_ok_put)
qed simp

lemma put_all_fresh:
  "distinct (map fst kvs) \<Longrightarrow> fst ` set kvs \<inter> fst ` set m = {} \<Longrightarrow> put_all kvs m = m @ kvs"
proof (induction kvs arbitrary: m)
  case (Cons p kvs)
  obtain k v where p: "p = (k, v)" by force
  with Cons.prems have "put_all (p # kvs) m = put_all kvs (m @ [(k, v)])"
    by simp
  also have "\<dots> = (m @ [(k, v)]) @ kvs"
    using Cons.prems p by (intro Cons.IH) auto
  finally show ?case using p by simp
qed simp

lemma put_all_distinct [simp]: "distinct (map fst kvs) \<Longrightarrow> put_all kvs [] = kvs"
  by (simp add: put_all_fresh)

lemma map_filter_Nil_iff: "List.map_filter f xs = [] \<longleftrightarrow> (\<forall>x \<in> set xs. f x = None)"
  by (induction xs) (auto simp: List.map_filter_simps split: option.splits)

lemma map_filter_append [simp]:
  "List.map_filter f (xs @ ys) = List.map_filter f xs @ List.map_filter f ys"
  by (simp add: List.map_filter_def)

lemma map_filter_map_Some: "(\<And>x. x \<in> set xs \<Longrightarrow> f (g x) = Some (h x)) \<Longrightarrow>
    List.map_filter f (map g xs) = map h xs"
  by (induction xs) (auto simp: List.map_filter_simps)

lemma put_all_keys: "(k, v) \<in> set (put_all kvs m) \<Longrightarrow> (k, v) \<in> set kvs \<or> (k, v) \<in> set m"
proof (induction kvs arbitrary: m)
  case (Cons p kvs)
  obtain a b where p: "p = (a, b)" by force
  with Cons have "(k, v) \<in> set kvs \<or> (k, v) \<in> set (map_put a b m)"
    by simp
  then show ?case
    using set_put [of a b m] p by auto
qed simp

lemma set_map_filter: "y \<in> set (List.map_filter f xs) \<longleftrightarrow> (\<exists>x \<in> set xs. f x = Some y)"
  by (induction xs) (auto simp: List.map_filter_simps split: option.splits)

lemma drop_two: "drop (length a + length b) (a @ b @ c) = c"
  by simp

lemma list_all_put: "list_all P m \<Longrightarrow> P (k, v) \<Longrightarrow> list_all P (map_put k v m)"
  using set_put [of k v m] by (auto simp: list_all_iff)

lemma list_all_adjust:
  assumes "list_all P m" and "\<And>v. P (k, v) \<Longrightarrow> P (k, f v)"
  shows "list_all P (map_adjust k f m)"
proof (cases "map_of m k")
  case (Some v)
  then have "(k, v) \<in> set m"
    by (rule map_of_SomeD)
  with assms have "P (k, f v)"
    by (auto simp: list_all_iff)
  with assms(1) Some show ?thesis
    by (simp add: map_adjust_def list_all_put)
qed (use assms in \<open>simp add: map_adjust_def\<close>)

lemma foldl_invariant:
  assumes "\<And>s x. P s \<Longrightarrow> P (f s x)" and "P s"
  shows "P (foldl f s xs)"
  using assms(2) by (induction xs arbitrary: s) (auto simp: assms(1))

lemma take_run: "k \<le> length (takeWhile p s) \<Longrightarrow> list_all p (take k s)"
  by (induction s arbitrary: k) (auto simp: take_Cons' split: if_splits)

section \<open>The order of a range over a map\<close>

text \<open>
  Each execution of a \<^verbatim>\<open>range\<close> over a map visits its entries in an order of its own. A \<open>range_order\<close> gives, for
  a loop (a path that identifies it) over \<open>n\<close> entries, the positions in the order they are visited; what
  is not a permutation counts as the identity, so every \<open>range_order\<close> stands for orders Go may choose, and
  every order is that of some \<open>range_order\<close>.
\<close>

type_synonym range_order = "string list \<Rightarrow> nat \<Rightarrow> nat list"

definition go_range :: "range_order \<Rightarrow> string list \<Rightarrow> 'a list \<Rightarrow> 'a list" where
  "go_range ord loop m =
     (let p = ord loop (length m)
      in if mset p = mset [0..<length m] then map ((!) m) p else m)"

lemma mset_go_range [simp]: "mset (go_range ord loop m) = mset m"
proof -
  have "mset (map ((!) m) p) = mset m" if "mset p = mset [0..<length m]" for p
    using that by (metis map_nth mset_map)
  then show ?thesis
    by (simp add: go_range_def Let_def)
qed

lemma set_go_range [simp]: "set (go_range ord loop m) = set m"
  by (rule mset_eq_setD) simp

lemma go_range_Nil [simp]: "go_range ord loop [] = []"
  by (simp add: go_range_def Let_def)

lemma mset_concat_map: "mset (concat (map f xs)) = sum_mset (image_mset (\<lambda>x. mset (f x)) (mset xs))"
  by (induction xs) simp_all

lemma mset_concat_cong: "mset xs = mset ys \<Longrightarrow> mset (concat (map f xs)) = mset (concat (map f ys))"
  by (simp add: mset_concat_map)

lemma mset_concat_parts: "(\<And>x. x \<in> set xs \<Longrightarrow> mset (f x) = mset (g x)) \<Longrightarrow> mset (concat (map f xs)) = mset (concat (map g xs))"
  by (induction xs) simp_all

lemma distinct_mset_cong: "mset xs = mset ys \<Longrightarrow> distinct (map f xs) \<longleftrightarrow> distinct (map f ys)"
  by (metis mset_eq_imp_distinct_iff mset_map)

lemma distinct_go_range [simp]: "distinct (map f (go_range ord loop m)) \<longleftrightarrow> distinct (map f m)"
  by (rule distinct_mset_cong) simp

lemma map_ok_go_range [simp]: "map_ok (go_range ord loop m) \<longleftrightarrow> map_ok m"
  by (simp add: map_ok_def)

text \<open>Every order is that of some \<open>range_order\<close>.\<close>

lemma enumeration_positions: "mset xs = mset m \<Longrightarrow> \<exists>p. mset p = mset [0..<length m] \<and> map ((!) m) p = xs"
proof (induction m arbitrary: xs)
  case (Cons y m)
  then have "y \<in> set xs"
    using mset_eq_setD [OF Cons.prems] by simp
  then obtain a b where xs: "xs = a @ y # b"
    by (auto simp: in_set_conv_decomp)
  with Cons.prems have "mset (a @ b) = mset m"
    by simp
  then obtain p where p: "mset p = mset [0..<length m]" "map ((!) m) p = a @ b"
    using Cons.IH by blast
  then obtain pa pb where ab: "p = pa @ pb" "map ((!) m) pa = a" "map ((!) m) pb = b"
    by (auto simp: map_eq_append_conv)
  let ?p = "map Suc pa @ 0 # map Suc pb"
  have "mset ?p = add_mset 0 (image_mset Suc (mset [0..<length m]))"
    unfolding p(1) [symmetric] by (simp add: ab(1))
  also have "\<dots> = mset (0 # map Suc [0..<length m])"
    by (simp only: mset.simps mset_map)
  also have "0 # map Suc [0..<length m] = [0..<length (y # m)]"
    by (simp add: map_Suc_upt upt_conv_Cons del: upt_Suc)
  finally have "mset ?p = mset [0..<length (y # m)]" .
  moreover have "map ((!) (y # m)) ?p = xs"
    using ab(2,3) by (simp add: xs comp_def)
  ultimately show ?case by blast
qed simp

lemma go_range_every: "mset xs = mset m \<Longrightarrow> \<exists>ord. go_range ord loop m = xs"
  using enumeration_positions [of xs m] by (auto simp: go_range_def Let_def intro: exI [of _ "\<lambda>_ _. _"])

end
