(* ===== verification/GoStrings.thy ===== *)
theory GoStrings
  imports Prelude
begin

text \<open>
  The part of Go's packages \<^verbatim>\<open>strings\<close>, \<^verbatim>\<open>bytes\<close>, \<^verbatim>\<open>unicode\<close> and \<^verbatim>\<open>unicode/utf8\<close> the
  exporter calls. A Go string is a byte sequence: a \<^typ>\<open>string\<close>, whose characters are bytes.
  The white-space functions work on runes, so \<open>runes\<close> decodes UTF-8 the way
  \<^verbatim>\<open>utf8.DecodeRune\<close> does (an invalid byte is a rune of width one).
\<close>

section \<open>Runes\<close>

definition ascii :: "char \<Rightarrow> bool" where
  "ascii c \<longleftrightarrow> \<not> digit7 c"

fun byte_in :: "char \<Rightarrow> char \<Rightarrow> string \<Rightarrow> bool" where
  "byte_in lo hi [] = False"
| "byte_in lo hi (c # cs) = (lo \<le> c \<and> c \<le> hi)"

abbreviation cont_byte :: "string \<Rightarrow> bool" where
  "cont_byte s \<equiv> byte_in (CHR 0x80) (CHR 0xBF) s"

text \<open>The number of bytes of the first rune, by the accept ranges of \<^verbatim>\<open>unicode/utf8\<close>.\<close>

fun rune_len :: "string \<Rightarrow> nat" where
  "rune_len [] = 0"
| "rune_len (c # cs) =
     (if ascii c then 1
      else if CHR 0xC2 \<le> c \<and> c \<le> CHR 0xDF \<and> cont_byte cs then 2
      else if CHR 0xE0 \<le> c \<and> c \<le> CHR 0xEF
        \<and> byte_in (if c = CHR 0xE0 then CHR 0xA0 else CHR 0x80)
            (if c = CHR 0xED then CHR 0x9F else CHR 0xBF) cs
        \<and> cont_byte (tl cs) then 3
      else if CHR 0xF0 \<le> c \<and> c \<le> CHR 0xF4
        \<and> byte_in (if c = CHR 0xF0 then CHR 0x90 else CHR 0x80)
            (if c = CHR 0xF4 then CHR 0x8F else CHR 0xBF) cs
        \<and> cont_byte (tl cs) \<and> cont_byte (tl (tl cs)) then 4
      else 1)"

declare rune_len.simps [simp del]

lemma rune_len_Nil [simp]: "rune_len [] = 0"
  by (simp add: rune_len.simps)

lemma rune_len_ascii [simp, go_simps]: "ascii c \<Longrightarrow> rune_len (c # cs) = 1"
  by (simp add: rune_len.simps)

lemma rune_len_pos: "0 < rune_len (c # cs)"
  by (simp add: rune_len.simps)

lemma byte_in_nonempty: "byte_in lo hi s \<Longrightarrow> s \<noteq> []"
  by (cases s) auto

lemma rune_len_le: "rune_len s \<le> length s"
proof (cases s)
  case (Cons c cs)
  have "2 \<le> length s" if "cs \<noteq> []"
    using that Cons by (cases cs) auto
  moreover have "3 \<le> length s" if "tl cs \<noteq> []"
    using that Cons by (cases cs; cases "tl cs") auto
  moreover have "4 \<le> length s" if "tl (tl cs) \<noteq> []"
    using that Cons by (cases cs; cases "tl cs"; cases "tl (tl cs)") auto
  ultimately show ?thesis
    using Cons by (auto simp: rune_len.simps dest!: byte_in_nonempty)
qed simp

function runes :: "string \<Rightarrow> string list" where
  "runes s = (if s = [] then [] else take (rune_len s) s # runes (drop (rune_len s) s))"
  by pat_completeness auto
termination
proof (relation "measure length")
  fix s :: string
  assume "s \<noteq> []"
  then have "0 < rune_len s"
    by (cases s) (auto simp: rune_len_pos)
  with \<open>s \<noteq> []\<close> show "(drop (rune_len s) s, s) \<in> measure length"
    by simp
qed simp

declare runes.simps [simp del]

lemma runes_Nil [simp, go_simps]: "runes [] = []"
  by (simp add: runes.simps)

lemma runes_ascii_Cons [simp, go_simps]: "ascii c \<Longrightarrow> runes (c # s) = [c] # runes s"
  by (subst runes.simps) simp

lemma runes_nonempty_iff [simp]: "runes s = [] \<longleftrightarrow> s = []"
  by (subst runes.simps) simp

lemma concat_runes: "concat (runes s) = s"
proof (induction s rule: runes.induct)
  case (1 s)
  then show ?case
    by (subst runes.simps) auto
qed

lemma Nil_notin_runes: "[] \<notin> set (runes s)"
proof (induction s rule: runes.induct)
  case (1 s)
  show ?case
  proof (cases s)
    case (Cons c cs)
    with 1 rune_len_pos [of c cs] show ?thesis
      by (subst runes.simps) auto
  qed simp
qed

text \<open>An ASCII byte never belongs to a longer rune, so it splits a string into its runes.\<close>

lemma ascii_below_80: "ascii c \<Longrightarrow> c < CHR 0x80"
  by (cases c) (auto simp: ascii_def less_char_def)

lemma byte_in_ascii0: "ascii d \<Longrightarrow> CHR 0x80 \<le> lo \<Longrightarrow> \<not> byte_in lo hi (d # u)"
  using ascii_below_80 [of d] by auto

text \<open>Continuation bytes of a rune are found before the first ASCII byte or not at all.\<close>

lemma byte_in_append1:
  assumes "ascii d" and "CHR 0x80 \<le> l1"
  shows "byte_in l1 h1 (s @ d # u) = byte_in l1 h1 s"
  using byte_in_ascii0 [OF assms] by (cases s) (simp_all del: byte_in.simps(2), simp)

lemma byte_in_append2:
  assumes "ascii d" and "CHR 0x80 \<le> l1" and "CHR 0x80 \<le> l2"
  shows "byte_in l1 h1 (s @ d # u) \<and> byte_in l2 h2 (tl (s @ d # u))
    \<longleftrightarrow> byte_in l1 h1 s \<and> byte_in l2 h2 (tl s)"
proof (cases s)
  case Nil
  with byte_in_ascii0 [OF assms(1,2)] show ?thesis
    by (simp del: byte_in.simps(2))
next
  case (Cons c cs)
  with byte_in_append1 [OF assms(1,3)] show ?thesis
    by simp
qed

lemma byte_in_append3:
  assumes "ascii d" and "CHR 0x80 \<le> l1" and "CHR 0x80 \<le> l2" and "CHR 0x80 \<le> l3"
  shows "byte_in l1 h1 (s @ d # u) \<and> byte_in l2 h2 (tl (s @ d # u))
      \<and> byte_in l3 h3 (tl (tl (s @ d # u)))
    \<longleftrightarrow> byte_in l1 h1 s \<and> byte_in l2 h2 (tl s) \<and> byte_in l3 h3 (tl (tl s))"
proof (cases s)
  case Nil
  with byte_in_ascii0 [OF assms(1,2)] show ?thesis
    by (simp del: byte_in.simps(2))
next
  case (Cons c cs)
  with byte_in_append2 [OF assms(1,3,4)] show ?thesis
    by simp
qed

lemma rune_len_append:
  assumes d: "ascii d" and "s \<noteq> []"
  shows "rune_len (s @ d # u) = rune_len s"
proof -
  obtain c cs where s: "s = c # cs"
    using assms by (cases s) auto
  have lo: "CHR 0x80 \<le> (if P then CHR 0xA0 else CHR 0x80)"
    "CHR 0x80 \<le> (if P then CHR 0x90 else CHR 0x80)" for P
    by simp_all
  show ?thesis
    unfolding s append_Cons rune_len.simps
    by (simp only: byte_in_append1 [OF d order_refl]
        byte_in_append2 [OF d lo(1) order_refl]
        byte_in_append3 [OF d lo(2) order_refl order_refl])
qed

lemma runes_append_ascii:
  assumes "ascii c"
  shows "runes (s @ c # u) = runes s @ [c] # runes u"
  using assms
proof (induction s rule: runes.induct)
  case (1 s)
  show ?case
  proof (cases "s = []")
    case True
    with 1 show ?thesis by simp
  next
    case False
    have "runes (s @ c # u)
        = take (rune_len s) (s @ c # u) # runes (drop (rune_len s) (s @ c # u))"
      using False 1 by (subst runes.simps) (simp add: rune_len_append)
    also have "\<dots> = take (rune_len s) s # runes (drop (rune_len s) s @ c # u)"
      using rune_len_le [of s] by simp
    also have "\<dots> = (take (rune_len s) s # runes (drop (rune_len s) s)) @ [c] # runes u"
      using 1 False by simp
    also have "take (rune_len s) s # runes (drop (rune_len s) s) = runes s"
      using False by (subst (2) runes.simps) simp
    finally show ?thesis .
  qed
qed

lemma runes_snoc_ascii: "ascii c \<Longrightarrow> runes (s @ [c]) = runes s @ [[c]]"
  using runes_append_ascii [of c s "[]"] by simp

lemma runes_all_ascii: "list_all ascii s \<Longrightarrow> runes s = map (\<lambda>c. [c]) s"
  by (induction s) auto


section \<open>White space: \<^verbatim>\<open>unicode.IsSpace\<close>, \<^verbatim>\<open>strings.TrimSpace\<close>, \<^verbatim>\<open>strings.Fields\<close>\<close>

text \<open>The runes of the Unicode property White_Space, as UTF-8.\<close>

definition space_runes :: "string list" where
  "space_runes =
     [[CHR 0x09], [CHR 0x0A], [CHR 0x0B], [CHR 0x0C], [CHR 0x0D], [CHR 0x20],
      [CHR 0xC2, CHR 0x85], [CHR 0xC2, CHR 0xA0], [CHR 0xE1, CHR 0x9A, CHR 0x80],
      [CHR 0xE2, CHR 0x80, CHR 0x80], [CHR 0xE2, CHR 0x80, CHR 0x81],
      [CHR 0xE2, CHR 0x80, CHR 0x82], [CHR 0xE2, CHR 0x80, CHR 0x83],
      [CHR 0xE2, CHR 0x80, CHR 0x84], [CHR 0xE2, CHR 0x80, CHR 0x85],
      [CHR 0xE2, CHR 0x80, CHR 0x86], [CHR 0xE2, CHR 0x80, CHR 0x87],
      [CHR 0xE2, CHR 0x80, CHR 0x88], [CHR 0xE2, CHR 0x80, CHR 0x89],
      [CHR 0xE2, CHR 0x80, CHR 0x8A], [CHR 0xE2, CHR 0x80, CHR 0xA8],
      [CHR 0xE2, CHR 0x80, CHR 0xA9], [CHR 0xE2, CHR 0x80, CHR 0xAF],
      [CHR 0xE2, CHR 0x81, CHR 0x9F], [CHR 0xE3, CHR 0x80, CHR 0x80]]"

definition is_space :: "string \<Rightarrow> bool" where
  "is_space r \<longleftrightarrow> r \<in> set space_runes"

definition trim_space :: "string \<Rightarrow> string" where
  "trim_space s = concat (rev (dropWhile is_space (rev (dropWhile is_space (runes s)))))"

fun fields_aux :: "string list \<Rightarrow> string \<Rightarrow> string list" where
  "fields_aux [] acc = (if acc = [] then [] else [acc])"
| "fields_aux (r # rs) acc =
     (if is_space r then (if acc = [] then fields_aux rs [] else acc # fields_aux rs [])
      else fields_aux rs (acc @ r))"

definition str_fields :: "string \<Rightarrow> string list" where
  "str_fields s = fields_aux (runes s) []"

text \<open>A word: not empty and free of white space. These are what \<open>str_fields\<close> returns.\<close>

definition word_str :: "string \<Rightarrow> bool" where
  "word_str w \<longleftrightarrow> w \<noteq> [] \<and> list_all (\<lambda>r. \<not> is_space r) (runes w)"

abbreviation newline :: char where
  "newline \<equiv> CHR 0x0A"

abbreviation tab :: char where
  "tab \<equiv> CHR 0x09"

definition blank :: "char \<Rightarrow> bool" where
  "blank c \<longleftrightarrow> c \<in> set [CHR 0x09, CHR 0x0A, CHR 0x0B, CHR 0x0C, CHR 0x0D, CHR 0x20]"

lemma blank_ascii [simp, intro]: "blank c \<Longrightarrow> ascii c"
  by (auto simp: blank_def ascii_def)

lemma blank_is_space [simp]: "is_space [c] \<longleftrightarrow> blank c"
  by (auto simp: is_space_def space_runes_def blank_def)

lemma blank_simps [simp]: "blank (CHR 0x20)" "blank (CHR 0x0A)" "blank (CHR 0x09)"
  by (simp_all add: blank_def)

lemma fields_Nil [simp, go_simps]: "str_fields [] = []"
  by (simp add: str_fields_def)

lemma fields_aux_word:
  "list_all (\<lambda>r. \<not> is_space r) rs \<Longrightarrow> fields_aux (rs @ ts) acc = fields_aux ts (acc @ concat rs)"
  by (induction rs arbitrary: acc) auto

lemma fields_word [simp]: "word_str w \<Longrightarrow> str_fields w = [w]"
  using fields_aux_word [of "runes w" "[]" "[]"]
  by (auto simp: str_fields_def word_str_def concat_runes)

lemma fields_word_blank:
  assumes "word_str w" and "blank c"
  shows "str_fields (w @ c # s) = w # str_fields s"
  using assms fields_aux_word [of "runes w" "[c] # runes s" "[]"]
  by (simp add: str_fields_def word_str_def runes_append_ascii concat_runes)

lemma fields_blank [simp]: "blank c \<Longrightarrow> str_fields (c # s) = str_fields s"
  by (simp add: str_fields_def)

text \<open>ASCII text without white space, the shape of the names OVS prints.\<close>

definition plain :: "string \<Rightarrow> bool" where
  "plain w \<longleftrightarrow> w \<noteq> [] \<and> list_all (\<lambda>c. ascii c \<and> \<not> blank c) w"

lemma plain_word [simp, intro]: "plain w \<Longrightarrow> word_str w"
  by (auto simp: plain_def word_str_def list_all_iff runes_all_ascii)

lemma plain_ascii [simp, intro]: "plain w \<Longrightarrow> list_all ascii w"
  by (auto simp: plain_def list_all_iff)

lemma plain_no_blank: "plain w \<Longrightarrow> blank c \<Longrightarrow> c \<notin> set w"
  by (auto simp: plain_def list_all_iff)

lemma plain_nonempty [simp]: "\<not> plain []"
  by (simp add: plain_def)

lemma plain_append: "plain (v @ w) \<longleftrightarrow> v @ w \<noteq> [] \<and> (v = [] \<or> plain v) \<and> (w = [] \<or> plain w)"
  by (auto simp: plain_def)

lemma plain_Cons: "plain (c # w) \<longleftrightarrow> ascii c \<and> \<not> blank c \<and> (w = [] \<or> plain w)"
  by (auto simp: plain_def)

lemmas plain_simps = plain_append plain_Cons ascii_def blank_def

lemma fields_aux_words:
  assumes "list_all (\<lambda>r. \<not> is_space r) as" and "list_all (\<lambda>r. r \<noteq> []) rs"
    and "w \<in> set (fields_aux rs (concat as))"
  shows "\<exists>ws. w = concat ws \<and> w \<noteq> [] \<and> list_all (\<lambda>r. \<not> is_space r) ws"
  using assms
proof (induction rs arbitrary: as)
  case Nil
  then show ?case by (auto split: if_splits)
next
  case (Cons r rs)
  show ?case
  proof (cases "is_space r")
    case True
    have step: "w \<in> set (fields_aux rs (concat [])) \<Longrightarrow> ?thesis"
      using Cons.prems by (intro Cons.IH [of "[]"]) auto
    show ?thesis
    proof (cases "w \<in> set (fields_aux rs [])")
      case True
      then show ?thesis using step by simp
    next
      case False
      with Cons.prems True have "w = concat as" and "w \<noteq> []"
        by (auto split: if_splits)
      with Cons.prems show ?thesis by blast
    qed
  next
    case False
    with Cons.prems show ?thesis
      by (intro Cons.IH [of "as @ [r]"]) auto
  qed
qed

lemma fields_nonempty: "w \<in> set (str_fields s) \<Longrightarrow> w \<noteq> []"
  using fields_aux_words [of "[]" "runes s" w] Nil_notin_runes [of s]
  by (auto simp: str_fields_def list_all_iff)

lemma trim_space_Nil [simp, go_simps]: "trim_space [] = []"
  by (simp add: trim_space_def)

lemma trim_space_blank [simp]: "blank c \<Longrightarrow> trim_space (c # s) = trim_space s"
  by (simp add: trim_space_def)

lemma trim_space_snoc_blank:
  assumes c: "blank c"
  shows "trim_space (s @ [c]) = trim_space s"
proof (cases "list_all is_space (runes s)")
  case True
  then have "dropWhile is_space (runes s) = []"
    by (auto simp: list_all_iff dropWhile_eq_Nil_conv)
  moreover have "dropWhile is_space (runes s @ [[c]]) = []"
    using True c by (simp add: dropWhile_append3 list_all_iff)
  ultimately show ?thesis
    by (simp add: trim_space_def runes_snoc_ascii blank_ascii [OF c]
        del: dropWhile_eq_Nil_conv)
next
  case False
  then have "\<exists>r\<in>set (runes s). \<not> is_space r"
    by (auto simp: list_all_iff)
  then have "dropWhile is_space (runes s @ [[c]]) = dropWhile is_space (runes s) @ [[c]]"
    by (auto simp: dropWhile_append1)
  then show ?thesis
    using c by (simp add: trim_space_def runes_snoc_ascii)
qed

text \<open>A string whose first and last runes are no white space is trimmed already.\<close>

definition trimmed :: "string \<Rightarrow> bool" where
  "trimmed s \<longleftrightarrow> s = [] \<or> \<not> is_space (hd (runes s)) \<and> \<not> is_space (last (runes s))"

lemma trim_space_trimmed [simp]: "trimmed s \<Longrightarrow> trim_space s = s"
proof (cases "s = []")
  case False
  assume "trimmed s"
  with False have h: "\<not> is_space (hd (runes s))" and l: "\<not> is_space (last (runes s))"
    by (auto simp: trimmed_def)
  have ne: "runes s \<noteq> []" using False by simp
  have "dropWhile is_space (runes s) = runes s"
    using h ne by (cases "runes s") auto
  moreover have "dropWhile is_space (rev (runes s)) = rev (runes s)"
    using l ne by (cases "rev (runes s)") (auto simp: last_rev hd_rev simp flip: hd_rev)
  ultimately show ?thesis
    by (simp add: trim_space_def concat_runes)
qed simp

lemma word_trimmed [simp, intro]: "word_str w \<Longrightarrow> trimmed w"
  by (auto simp: word_str_def trimmed_def list_all_iff hd_in_set last_in_set)

section \<open>Splitting and searching\<close>

text \<open>\<^verbatim>\<open>strings.Split\<close> with a one-byte separator: never empty.\<close>

fun split_on :: "char \<Rightarrow> string \<Rightarrow> string list" where
  "split_on d [] = [[]]"
| "split_on d (c # cs) =
     (if c = d then [] # split_on d cs
      else (case split_on d cs of [] \<Rightarrow> [[c]] | w # ws \<Rightarrow> (c # w) # ws))"

fun join :: "string \<Rightarrow> string list \<Rightarrow> string" where
  "join sep [] = []"
| "join sep [w] = w"
| "join sep (w # v # ws) = w @ sep @ join sep (v # ws)"

lemma split_on_nonempty [simp]: "split_on d s \<noteq> []"
  by (cases s) (auto split: list.splits)

lemma split_on_free: "d \<notin> set w \<Longrightarrow> split_on d w = [w]"
  by (induction w) auto

lemma split_on_append: "d \<notin> set w \<Longrightarrow> split_on d (w @ d # s) = w # split_on d s"
  by (induction w) auto

lemma split_on_join:
  "ws \<noteq> [] \<Longrightarrow> \<forall>w \<in> set ws. d \<notin> set w \<Longrightarrow> split_on d (join [d] ws) = ws"
  by (induction "[d]" ws rule: join.induct) (auto simp: split_on_free split_on_append)

lemma split_on_join_fold:
  assumes "\<forall>w \<in> set ws. d \<notin> set w" and "f [] = None"
  shows "List.map_filter f (split_on d (join [d] ws)) = List.map_filter f ws"
proof (cases "ws = []")
  case True
  with assms(2) show ?thesis by (simp add: List.map_filter_simps)
next
  case False
  with assms(1) show ?thesis by (simp add: split_on_join)
qed

lemma join_Cons: "ws \<noteq> [] \<Longrightarrow> join sep (w # ws) = w @ sep @ join sep ws"
  by (cases ws) auto

lemma join_ascii: "list_all ascii sep \<Longrightarrow> \<forall>w \<in> set ws. list_all ascii w \<Longrightarrow> list_all ascii (join sep ws)"
  by (induction sep ws rule: join.induct) auto

lemma join_split_on: "join [d] (split_on d s) = s"
proof (induction s)
  case (Cons c cs)
  then show ?case
    by (cases "split_on d cs"; cases "tl (split_on d cs)") (auto simp: join_Cons split: list.splits)
qed simp

text \<open>\<^verbatim>\<open>strings.HasPrefix\<close>, \<^verbatim>\<open>strings.HasSuffix\<close>, \<^verbatim>\<open>strings.TrimSuffix\<close>.\<close>

abbreviation has_prefix :: "string \<Rightarrow> string \<Rightarrow> bool" where
  "has_prefix s p \<equiv> prefix p s"

definition has_suffix :: "string \<Rightarrow> string \<Rightarrow> bool" where
  "has_suffix s t \<longleftrightarrow> prefix (rev t) (rev s)"

definition trim_suffix :: "string \<Rightarrow> string \<Rightarrow> string" where
  "trim_suffix s t = (if has_suffix s t then take (length s - length t) s else s)"

lemma has_suffix_append [simp]: "has_suffix (s @ t) t"
  by (simp add: has_suffix_def)

lemma has_suffix_iff: "has_suffix s t \<longleftrightarrow> (\<exists>u. s = u @ t)"
proof
  assume "has_suffix s t"
  then obtain v where "rev s = rev t @ v"
    by (auto simp: has_suffix_def prefix_def)
  then have "s = rev v @ t"
    by (simp add: rev_swap)
  then show "\<exists>u. s = u @ t" ..
qed auto

lemma trim_suffix_append [simp]: "trim_suffix (s @ t) t = s"
  by (simp add: trim_suffix_def)

lemma has_suffix_single: "has_suffix s [c] \<longleftrightarrow> s \<noteq> [] \<and> last s = c"
  by (cases s rule: rev_cases) (auto simp: has_suffix_def)

text \<open>\<^verbatim>\<open>strings.LastIndex\<close>; \<^const>\<open>None\<close> is Go's -1.\<close>

fun last_index :: "string \<Rightarrow> string \<Rightarrow> nat option" where
  "last_index [] sub = (if sub = [] then Some 0 else None)"
| "last_index (c # cs) sub =
     (case last_index cs sub of
        Some i \<Rightarrow> Some (Suc i)
      | None \<Rightarrow> if prefix sub (c # cs) then Some 0 else None)"

lemma last_index_None_iff: "last_index s sub = None \<longleftrightarrow> (\<forall>u v. s \<noteq> u @ sub @ v)"
proof (induction s)
  case (Cons c cs)
  show ?case
  proof (cases "last_index cs sub")
    case None
    with Cons show ?thesis
      by (auto simp: prefix_def Cons_eq_append_conv)
  next
    case (Some i)
    with Cons obtain u v where "cs = u @ sub @ v" by auto
    then have "c # cs = (c # u) @ sub @ v" by simp
    with Some show ?thesis by fastforce
  qed
qed auto

lemma last_index_append:
  assumes "sub \<noteq> []" and "last_index (tl sub @ t) sub = None"
  shows "last_index (s @ sub @ t) sub = Some (length s)"
proof (induction s)
  case Nil
  obtain c cs where sub: "sub = c # cs" using assms by (cases sub) auto
  with assms show ?case by simp
qed auto

lemma last_index_split:
  "last_index s sub = Some i \<Longrightarrow> s = take i s @ sub @ drop (i + length sub) s"
proof (induction s arbitrary: i)
  case (Cons c cs)
  then show ?case
    by (auto split: option.splits if_splits simp: prefix_def)
qed (auto split: if_splits)

text \<open>\<^verbatim>\<open>strings.Cut\<close> at a one-byte separator; \<^const>\<open>None\<close> is \<^verbatim>\<open>ok == false\<close>.\<close>

definition str_cut :: "char \<Rightarrow> string \<Rightarrow> (string \<times> string) option" where
  "str_cut d s = (if d \<in> set s
     then Some (takeWhile (\<lambda>c. c \<noteq> d) s, tl (dropWhile (\<lambda>c. c \<noteq> d) s)) else None)"

lemma cut_append [simp]: "d \<notin> set w \<Longrightarrow> str_cut d (w @ d # s) = Some (w, s)"
proof -
  assume d: "d \<notin> set w"
  have "takeWhile (\<lambda>c. c \<noteq> d) (w @ d # s) = w" and "dropWhile (\<lambda>c. c \<noteq> d) (w @ d # s) = d # s"
    using d by (simp_all add: takeWhile_append dropWhile_append)
  then show ?thesis by (simp add: str_cut_def)
qed

lemma cut_None [simp]: "d \<notin> set s \<Longrightarrow> str_cut d s = None"
  by (simp add: str_cut_def)

text \<open>\<^verbatim>\<open>strings.TrimLeft\<close> with an ASCII cut set.\<close>

definition trim_left :: "string \<Rightarrow> string \<Rightarrow> string" where
  "trim_left cutset s = dropWhile (\<lambda>c. c \<in> set cutset) s"

section \<open>Printed lines\<close>

lemma trimmed_ascii:
  assumes "list_all ascii s" and "s \<noteq> []" and "\<not> blank (hd s)" and "\<not> blank (last s)"
  shows "trimmed s"
  using assms by (simp add: trimmed_def runes_all_ascii hd_map last_map)

lemma fields_blanked: "list_all plain ws \<Longrightarrow> str_fields (concat (map (\<lambda>w. CHR 0x20 # w) ws)) = ws"
proof (induction ws rule: induct_list012)
  case (3 v w ws)
  then show ?case
    using fields_word_blank [of v "CHR 0x20" "w @ concat (map (\<lambda>w. CHR 0x20 # w) ws)"] by simp
qed simp_all

end
