(* ===== verification/GoStrconv.thy ===== *)
theory GoStrconv
  imports GoStrings
begin

text \<open>
  Go's \<^verbatim>\<open>strconv\<close>: \<^verbatim>\<open>ParseInt(s, 10, 64)\<close>, \<^verbatim>\<open>Atoi\<close>, \<^verbatim>\<open>FormatInt(n, 10)\<close> and \<^verbatim>\<open>Itoa\<close>.
  \<^const>\<open>None\<close> is a non-nil error, whether of syntax or of range: the callers only test for nil.
\<close>

definition is_digit :: "char \<Rightarrow> bool" where
  "is_digit c \<longleftrightarrow> CHR ''0'' \<le> c \<and> c \<le> CHR ''9''"

definition digit_val :: "char \<Rightarrow> nat" where
  "digit_val c = of_char c - 48"

definition digit_char :: "nat \<Rightarrow> char" where
  "digit_char n = char_of (48 + n)"

definition dec_val :: "string \<Rightarrow> nat" where
  "dec_val s = foldl (\<lambda>n c. 10 * n + digit_val c) 0 s"

text \<open>\<^verbatim>\<open>ParseUint(s, 10, 64)\<close>: only digits, and below \<open>2 ^ 64\<close>.\<close>

definition parse_uint :: "string \<Rightarrow> nat option" where
  "parse_uint s =
     (if s \<noteq> [] \<and> list_all is_digit s \<and> dec_val s < 2 ^ 64 then Some (dec_val s) else None)"

definition parse_int :: "string \<Rightarrow> int64 option" where
  "parse_int s =
     (case s of
        [] \<Rightarrow> None
      | c # cs \<Rightarrow>
          (case parse_uint (if c = CHR ''+'' \<or> c = CHR ''-'' then cs else s) of
             None \<Rightarrow> None
           | Some un \<Rightarrow>
               if c \<noteq> CHR ''-'' \<and> 2 ^ 63 \<le> un then None
               else if c = CHR ''-'' \<and> 2 ^ 63 < un then None
               else Some (if c = CHR ''-'' then - of_nat un else of_nat un)))"

definition atoi :: "string \<Rightarrow> int64 option" where
  "atoi s = parse_int s"

fun nat_dec :: "nat \<Rightarrow> string" where
  "nat_dec n = (if n < 10 then [digit_char n] else nat_dec (n div 10) @ [digit_char (n mod 10)])"

declare nat_dec.simps [simp del]

definition format_int :: "int64 \<Rightarrow> string" where
  "format_int w =
     (if sint w < 0 then CHR ''-'' # nat_dec (nat (- sint w)) else nat_dec (nat (sint w)))"

section \<open>Digits\<close>

lemma digit_val_char [simp]: "n < 10 \<Longrightarrow> digit_val (digit_char n) = n"
  by (simp add: digit_val_def digit_char_def)

lemma is_digit_char [simp]: "n < 10 \<Longrightarrow> is_digit (digit_char n)"
  by (simp add: is_digit_def digit_char_def less_eq_char_def)

lemma is_digit_blank [simp]: "is_digit c \<Longrightarrow> \<not> blank c"
  by (auto simp: is_digit_def blank_def)

lemma is_digit_ascii [simp]: "is_digit c \<Longrightarrow> ascii c"
  by (cases c) (auto simp: is_digit_def ascii_def less_eq_char_def)

lemma dec_val_snoc: "dec_val (s @ [c]) = 10 * dec_val s + digit_val c"
  by (simp add: dec_val_def)

lemma nat_dec_nonempty [simp]: "nat_dec n \<noteq> []"
  by (subst nat_dec.simps) simp

lemma nat_dec_digits: "list_all is_digit (nat_dec n)"
proof (induction n rule: nat_dec.induct)
  case (1 n)
  then show ?case by (subst nat_dec.simps) auto
qed

lemma dec_val_nat_dec [simp]: "dec_val (nat_dec n) = n"
proof (induction n rule: nat_dec.induct)
  case (1 n)
  show ?case
  proof (cases "n < 10")
    case True
    then show ?thesis by (subst nat_dec.simps) (simp add: dec_val_def)
  next
    case False
    with 1 show ?thesis by (subst nat_dec.simps) (simp add: dec_val_snoc)
  qed
qed

lemma parse_uint_nat_dec: "n < 2 ^ 64 \<Longrightarrow> parse_uint (nat_dec n) = Some n"
  by (simp add: parse_uint_def nat_dec_digits)

lemma nat_dec_hd_digit: "is_digit (hd (nat_dec n))"
  using nat_dec_digits [of n] nat_dec_nonempty [of n] by (cases "nat_dec n") auto

lemma digit_no_sign: "is_digit c \<Longrightarrow> c \<noteq> CHR ''+'' \<and> c \<noteq> CHR ''-''"
  by (auto simp: is_digit_def)

section \<open>Parsing undoes formatting\<close>

lemma sint_bounds: "- (2 ^ 63) \<le> sint (w :: int64)" "sint (w :: int64) < 2 ^ 63"
  using sint_ge [of w] sint_lt [of w] by simp_all

lemma parse_int_nat_dec:
  assumes "n < 2 ^ 63"
  shows "parse_int (nat_dec n) = Some (of_nat n)"
proof -
  obtain c cs where s: "nat_dec n = c # cs"
    using nat_dec_nonempty [of n] by (cases "nat_dec n") auto
  have "parse_uint (c # cs) = Some n"
    using parse_uint_nat_dec [of n] assms by (simp add: s)
  moreover have "c \<noteq> CHR ''+'' \<and> c \<noteq> CHR ''-''"
    using nat_dec_hd_digit [of n] digit_no_sign by (simp add: s)
  ultimately show ?thesis
    using assms by (simp add: s parse_int_def)
qed

lemma parse_int_format_int [simp]: "parse_int (format_int w) = Some w"
proof (cases "sint w < 0")
  case True
  define n where "n = nat (- sint w)"
  have n: "n \<le> 2 ^ 63" "int n = - sint w"
    using sint_bounds [of w] True by (auto simp: n_def)
  then have "n < 2 ^ 64" by simp
  moreover have "- of_nat n = w"
  proof -
    have "of_int (- int n) = w" using n by simp
    then show ?thesis by simp
  qed
  ultimately show ?thesis
    using n True by (simp add: format_int_def parse_int_def parse_uint_nat_dec flip: n_def)
next
  case False
  define n where "n = nat (sint w)"
  have n: "n < 2 ^ 63" "int n = sint w"
    using sint_bounds [of w] False by (auto simp: n_def)
  have "of_int (int n) = w" using n by simp
  then have "of_nat n = w" by simp
  with n False show ?thesis
    by (simp add: format_int_def parse_int_nat_dec flip: n_def)
qed

lemma format_int_inj: "format_int v = format_int w \<Longrightarrow> v = w"
  by (metis parse_int_format_int option.inject)

lemma atoi_format_int [simp]: "atoi (format_int w) = Some w"
  by (simp add: atoi_def)

text \<open>The characters of a formatted number.\<close>

definition num_char :: "char \<Rightarrow> bool" where
  "num_char c \<longleftrightarrow> is_digit c \<or> c = CHR ''-''"

lemma num_char_ascii [simp]: "num_char c \<Longrightarrow> ascii c"
  by (auto simp: num_char_def) (simp add: ascii_def)

lemma num_char_blank [simp]: "num_char c \<Longrightarrow> \<not> blank c"
  by (auto simp: num_char_def) (simp add: blank_def)

lemma format_int_num: "list_all num_char (format_int w)"
  using nat_dec_digits by (auto simp: format_int_def num_char_def list_all_iff)

lemma format_int_nonempty [simp]: "format_int w \<noteq> []"
  by (simp add: format_int_def)

lemma format_int_notin: "\<not> num_char c \<Longrightarrow> c \<notin> set (format_int w)"
  using format_int_num [of w] by (auto simp: list_all_iff)

lemma format_int_ascii [simp]: "list_all ascii (format_int w)"
  using format_int_num [of w] by (auto simp: list_all_iff)

lemma plain_format_int [simp]: "plain (format_int w)"
  using format_int_num [of w] by (auto simp: plain_def list_all_iff)

lemma word_num: "list_all num_char s \<Longrightarrow> s \<noteq> [] \<Longrightarrow> word_str s"
  by (auto simp: word_str_def list_all_iff runes_all_ascii)

lemma word_format_int [simp]: "word_str (format_int w)"
  by (simp add: word_num format_int_num)

lemma format_int_chars [simp]:
  "CHR 0x3A \<notin> set (format_int w)" "newline \<notin> set (format_int w)"
  "CHR 0x20 \<notin> set (format_int w)" "CHR ''t'' \<notin> set (format_int w)"
  by (auto intro!: format_int_notin simp: num_char_def is_digit_def)

section \<open>What a successful parse says\<close>

lemma parse_uint_Some: "parse_uint s = Some n \<longleftrightarrow>
    s \<noteq> [] \<and> list_all is_digit s \<and> dec_val s < 2 ^ 64 \<and> n = dec_val s"
  by (auto simp: parse_uint_def)

lemma sint_of_nat: "n < 2 ^ 63 \<Longrightarrow> sint (of_nat n :: int64) = int n"
  by (simp add: signed_of_nat signed_take_bit_int_eq_self)

text \<open>A parse returns the number its digits and sign denote.\<close>

definition signed_val :: "string \<Rightarrow> int" where
  "signed_val s =
     (case s of
        [] \<Rightarrow> 0
      | c # cs \<Rightarrow> if c = CHR ''-'' then - int (dec_val cs)
                  else if c = CHR ''+'' then int (dec_val cs) else int (dec_val s))"

lemma sint_neg_of_nat: "n \<le> 2 ^ 63 \<Longrightarrow> sint (- of_nat n :: int64) = - int n"
proof -
  assume "n \<le> 2 ^ 63"
  then have "sint (word_of_int (- int n) :: int64) = - int n"
    by (simp add: signed_take_bit_int_eq_self sint_sbintrunc' del: of_int_minus)
  then show ?thesis
    by simp
qed

lemma parse_int_value: "parse_int s = Some n \<Longrightarrow> sint n = signed_val s"
  by (auto simp: parse_int_def parse_uint_Some signed_val_def sint_of_nat sint_neg_of_nat not_le
      split: list.splits option.splits if_splits)

lemma parse_int_digits: "list_all is_digit s \<Longrightarrow> parse_int s = Some n \<Longrightarrow> 0 \<le> sint n"
  using parse_int_value [of s n] digit_no_sign
  by (cases s) (auto simp: signed_val_def split: if_splits)

lemma format_int_digits: "0 \<le> sint n \<Longrightarrow> list_all is_digit (format_int n)"
  by (simp add: format_int_def nat_dec_digits)

lemma hd_format_digit: "0 \<le> sint n \<Longrightarrow> is_digit (hd (format_int n))"
  by (simp add: format_int_def nat_dec_hd_digit)

lemma last_format_int [simp]: "\<not> blank (last (format_int n))"
  using format_int_num [of n] last_in_set [of "format_int n"]
  by (simp add: list_all_iff del: last_in_set)

end
