(* ===== verification/GoJson.thy ===== *)
theory GoJson
  imports GoStrconv
begin

text \<open>
  The part of Go's \<^verbatim>\<open>encoding/json\<close> the appctl parsers use: \<^verbatim>\<open>json.Unmarshal(raw, &text)\<close>
  into a \<^verbatim>\<open>string\<close> that was empty. It succeeds on a JSON string, and on \<^verbatim>\<open>null\<close>, which leaves
  the string empty; every other value, and every malformed text, is an error.
  \<open>json_quote\<close> is a reference encoder for the statements about round trips.
\<close>

section \<open>Decoding\<close>

definition json_ws :: "char \<Rightarrow> bool" where
  "json_ws c \<longleftrightarrow> c \<in> set [CHR 0x20, CHR 0x09, CHR 0x0D, CHR 0x0A]"

definition hex_val :: "char \<Rightarrow> nat option" where
  "hex_val c =
     (if is_digit c then Some (digit_val c)
      else if CHR ''a'' \<le> c \<and> c \<le> CHR ''f'' then Some (of_char c - 87)
      else if CHR ''A'' \<le> c \<and> c \<le> CHR ''F'' then Some (of_char c - 55)
      else None)"

definition replacement :: string where
  "replacement = [CHR 0xEF, CHR 0xBF, CHR 0xBD]"

text \<open>\<^verbatim>\<open>utf8.AppendRune\<close>.\<close>

definition utf8_encode :: "nat \<Rightarrow> string" where
  "utf8_encode r =
     (if r < 128 then [char_of r]
      else if r < 2048 then [char_of (192 + r div 64), char_of (128 + r mod 64)]
      else if 55296 \<le> r \<and> r \<le> 57343 \<or> 1114111 < r then replacement
      else if r < 65536 then
        [char_of (224 + r div 4096), char_of (128 + r div 64 mod 64), char_of (128 + r mod 64)]
      else
        [char_of (240 + r div 262144), char_of (128 + r div 4096 mod 64),
         char_of (128 + r div 64 mod 64), char_of (128 + r mod 64)])"

text \<open>A four-digit Unicode escape at the head of the text, and what follows it.\<close>

fun get_u4 :: "string \<Rightarrow> (nat \<times> string) option" where
  "get_u4 (b # u # c1 # c2 # c3 # c4 # rest) =
     (if b = CHR 0x5C \<and> u = CHR ''u'' then
        (case (hex_val c1, hex_val c2, hex_val c3, hex_val c4) of
           (Some h1, Some h2, Some h3, Some h4) \<Rightarrow> Some (4096 * h1 + 256 * h2 + 16 * h3 + h4, rest)
         | _ \<Rightarrow> None)
      else None)"
| "get_u4 _ = None"

definition json_escape :: "char \<Rightarrow> char option" where
  "json_escape e = map_of
     [(CHR 0x22, CHR 0x22), (CHR 0x5C, CHR 0x5C), (CHR ''/'', CHR ''/''), (CHR ''b'', CHR 0x08),
      (CHR ''f'', CHR 0x0C), (CHR ''n'', CHR 0x0A), (CHR ''r'', CHR 0x0D), (CHR ''t'', CHR 0x09)] e"

abbreviation prepend :: "string \<Rightarrow> (string \<times> string) option \<Rightarrow> (string \<times> string) option" where
  "prepend x r \<equiv> map_option (\<lambda>(t, rest). (x @ t, rest)) r"

lemma get_u4_length: "get_u4 s = Some (r, rest) \<Longrightarrow> length rest < length s"
  by (cases s rule: get_u4.cases) (auto split: if_splits option.splits)

text \<open>The text up to the closing quote, decoded, and what follows the quote.\<close>

function json_body :: "string \<Rightarrow> (string \<times> string) option" where
  "json_body s =
     (case s of
        [] \<Rightarrow> None
      | c # cs \<Rightarrow>
          if c = CHR 0x22 then Some ([], cs)
          else if c = CHR 0x5C then
            (case cs of
               [] \<Rightarrow> None
             | e # rest \<Rightarrow>
                 if e = CHR ''u'' then
                   (case get_u4 s of
                      None \<Rightarrow> None
                    | Some (r, rest1) \<Rightarrow>
                        if 55296 \<le> r \<and> r \<le> 57343 then
                          (case get_u4 rest1 of
                             Some (r2, rest2) \<Rightarrow>
                               if r < 56320 \<and> 56320 \<le> r2 \<and> r2 \<le> 57343
                               then prepend (utf8_encode (65536 + (r - 55296) * 1024 + (r2 - 56320)))
                                      (json_body rest2)
                               else prepend replacement (json_body rest1)
                           | None \<Rightarrow> prepend replacement (json_body rest1))
                        else prepend (utf8_encode r) (json_body rest1))
                 else (case json_escape e of
                         None \<Rightarrow> None
                       | Some x \<Rightarrow> prepend [x] (json_body rest)))
          else if c < CHR 0x20 then None
          else if rune_len s = 1 \<and> \<not> ascii c then prepend replacement (json_body cs)
          else prepend (take (rune_len s) s) (json_body (drop (rune_len s) s)))"
  by pat_completeness auto
termination
  by (relation "measure length")
    (auto dest!: get_u4_length intro!: diff_less rune_len_pos)

declare json_body.simps [simp del]

definition json_unmarshal_string :: "string \<Rightarrow> string option" where
  "json_unmarshal_string raw =
     (case dropWhile json_ws raw of
        [] \<Rightarrow> None
      | c # cs \<Rightarrow>
          if c = CHR 0x22 then
            (case json_body cs of
               None \<Rightarrow> None
             | Some (text, rest) \<Rightarrow> if list_all json_ws rest then Some text else None)
          else if prefix ''null'' (c # cs) \<and> list_all json_ws (drop 4 (c # cs)) then Some []
          else None)"

section \<open>A reference encoder\<close>

definition hex_digit :: "nat \<Rightarrow> char" where
  "hex_digit n = (if n < 10 then char_of (48 + n) else char_of (87 + n))"

definition json_esc :: "char \<Rightarrow> string" where
  "json_esc c =
     (if c = CHR 0x22 \<or> c = CHR 0x5C then [CHR 0x5C, c]
      else if c = newline then [CHR 0x5C, CHR ''n'']
      else if c < CHR 0x20 then
        [CHR 0x5C, CHR ''u'', CHR ''0'', CHR ''0'', hex_digit (of_char c div 16),
         hex_digit (of_char c mod 16)]
      else [c])"

definition json_quote :: "string \<Rightarrow> string" where
  "json_quote t = CHR 0x22 # concat (map json_esc t) @ [CHR 0x22]"

lemma hex_val_digit: "n < 16 \<Longrightarrow> hex_val (hex_digit n) = Some n"
  by (auto simp: hex_val_def hex_digit_def is_digit_def digit_val_def less_eq_char_def)

lemma get_u4_digits:
  assumes "h1 < 16" "h2 < 16" "h3 < 16" "h4 < 16"
  shows "get_u4 (CHR 0x5C # CHR ''u'' # hex_digit h1 # hex_digit h2 # hex_digit h3
      # hex_digit h4 # s) = Some (4096 * h1 + 256 * h2 + 16 * h3 + h4, s)"
  using assms by (simp add: hex_val_digit)

lemma json_body_control:
  assumes "of_char c < (32::nat)"
  shows "json_body (CHR 0x5C # CHR ''u'' # CHR ''0'' # CHR ''0''
      # hex_digit (of_char c div 16) # hex_digit (of_char c mod 16) # s)
    = prepend [c] (json_body s)"
proof -
  have "hex_digit 0 = CHR ''0''"
    by (simp add: hex_digit_def char_of_eq_iff take_bit_nat_eq_self)
  moreover have "16 * (of_char c div 16) + of_char c mod 16 = (of_char c :: nat)"
    by simp
  ultimately have
    "get_u4 (CHR 0x5C # CHR ''u'' # CHR ''0'' # CHR ''0''
      # hex_digit (of_char c div 16) # hex_digit (of_char c mod 16) # s) = Some (of_char c, s)"
    using get_u4_digits [of 0 0 "of_char c div 16" "of_char c mod 16" s] assms by simp
  with assms show ?thesis
    by (subst json_body.simps) (simp add: utf8_encode_def del: get_u4.simps)
qed

lemma json_body_esc:
  assumes "ascii c"
  shows "json_body (json_esc c @ s) = prepend [c] (json_body s)"
proof (cases "c < CHR 0x20 \<and> c \<noteq> newline \<and> c \<noteq> CHR 0x22 \<and> c \<noteq> CHR 0x5C")
  case True
  then have "of_char c < (32::nat)"
    by (simp add: less_char_def)
  with True json_body_control [of c s] show ?thesis
    by (simp add: json_esc_def)
next
  case False
  with assms show ?thesis
    by (subst json_body.simps) (auto simp: json_esc_def json_escape_def)
qed

lemma json_body_quote:
  "list_all ascii t \<Longrightarrow> json_body (concat (map json_esc t) @ CHR 0x22 # rest) = Some (t, rest)"
proof (induction t)
  case Nil
  then show ?case by (simp add: json_body.simps)
next
  case (Cons c t)
  then show ?case by (simp add: json_body_esc)
qed

text \<open>Decoding undoes encoding.\<close>

lemma json_unmarshal_quote [simp]: "list_all ascii t \<Longrightarrow> json_unmarshal_string (json_quote t) = Some t"
  by (simp add: json_unmarshal_string_def json_quote_def json_body_quote json_ws_def)

lemma json_unmarshal_null [simp]: "json_unmarshal_string ''null'' = Some []"
  by (simp add: json_unmarshal_string_def json_ws_def)

lemma json_unmarshal_Nil [simp]: "json_unmarshal_string [] = None"
  by (simp add: json_unmarshal_string_def)

end
