(* ===== verification/GoRegexp.thy ===== *)
theory GoRegexp
  imports GoStrconv
begin

text \<open>
  The part of Go's \<^verbatim>\<open>regexp\<close> the parsers use. The three expressions of the package are
  sequences of literal bytes, greedy repetitions of a byte class and capture groups of the
  form \<^verbatim>\<open>(C+)\<close>. The matcher prefers what Go's leftmost-first semantics prefers: the longest
  repetition first, then shorter ones. Every class here is a set of ASCII bytes or the
  complement of one, so matching bytes and matching runes give the same groups.
\<close>

section \<open>Expressions and the matcher\<close>

datatype rx_item =
    Lit char \<comment> \<open>one literal byte\<close>
  | Star "char \<Rightarrow> bool" \<comment> \<open>\<^verbatim>\<open>C*\<close>\<close>
  | Plus "char \<Rightarrow> bool" \<comment> \<open>\<^verbatim>\<open>C+\<close>\<close>
  | Cap "char \<Rightarrow> bool" \<comment> \<open>\<^verbatim>\<open>(C+)\<close>\<close>

type_synonym rx = "rx_item list"

text \<open>Try \<open>f\<close> at \<open>k, k - 1, \<dots>, lo\<close> and take the first success.\<close>

fun backtrack :: "nat \<Rightarrow> nat \<Rightarrow> (nat \<Rightarrow> 'a option) \<Rightarrow> 'a option" where
  "backtrack lo 0 f = (if lo = 0 then f 0 else None)"
| "backtrack lo (Suc k) f =
     (if Suc k < lo then None
      else (case f (Suc k) of Some r \<Rightarrow> Some r | None \<Rightarrow> backtrack lo k f))"

text \<open>The groups of the preferred match at the start of the text, and the text after it.\<close>

primrec rx_match :: "rx \<Rightarrow> string \<Rightarrow> (string list \<times> string) option" where
  "rx_match [] s = Some ([], s)"
| "rx_match (i # is) s =
     (case i of
        Lit c \<Rightarrow> (case s of [] \<Rightarrow> None | d # ds \<Rightarrow> if d = c then rx_match is ds else None)
      | Star p \<Rightarrow> backtrack 0 (length (takeWhile p s)) (\<lambda>k. rx_match is (drop k s))
      | Plus p \<Rightarrow> backtrack 1 (length (takeWhile p s)) (\<lambda>k. rx_match is (drop k s))
      | Cap p \<Rightarrow> backtrack 1 (length (takeWhile p s))
          (\<lambda>k. map_option (\<lambda>(gs, rest). (take k s # gs, rest)) (rx_match is (drop k s))))"

text \<open>\<^verbatim>\<open>FindStringSubmatch\<close> of an expression anchored by \<^verbatim>\<open>^\<close>: the groups only.\<close>

definition rx_submatch :: "rx \<Rightarrow> string \<Rightarrow> string list option" where
  "rx_submatch r s = map_option fst (rx_match r s)"

text \<open>
  \<^verbatim>\<open>FindAllStringSubmatch(s, -1)\<close>: successive matches from the left that do not overlap, for
  expressions that match no empty text.
\<close>

function rx_find_all :: "rx \<Rightarrow> string \<Rightarrow> string list list" where
  "rx_find_all r s =
     (case s of
        [] \<Rightarrow> []
      | c # cs \<Rightarrow>
          (case rx_match r s of
             Some (gs, rest) \<Rightarrow>
               if length rest < length s then gs # rx_find_all r rest else rx_find_all r cs
           | None \<Rightarrow> rx_find_all r cs))"
  by pat_completeness auto
termination
  by (relation "measure (length \<circ> snd)") auto

declare rx_find_all.simps [simp del]

section \<open>Byte classes\<close>

text \<open>\<^verbatim>\<open>\s\<close> of RE2 is \<^verbatim>\<open>[\t\n\f\r ]\<close>: without the vertical tab.\<close>

definition cls_space :: "char \<Rightarrow> bool" where
  "cls_space c \<longleftrightarrow> c \<in> set [CHR 0x09, CHR 0x0A, CHR 0x0C, CHR 0x0D, CHR 0x20]"

definition cls_nonspace :: "char \<Rightarrow> bool" where
  "cls_nonspace c \<longleftrightarrow> \<not> cls_space c"

definition cls_lower :: "char \<Rightarrow> bool" where
  "cls_lower c \<longleftrightarrow> CHR ''a'' \<le> c \<and> c \<le> CHR ''z''"

abbreviation lits :: "string \<Rightarrow> rx" where
  "lits s \<equiv> map Lit s"

section \<open>Facts about the matcher\<close>

lemma backtrack_first: "f k = Some r \<Longrightarrow> lo \<le> k \<Longrightarrow> backtrack lo k f = Some r"
  by (cases k) auto

lemma backtrack_second:
  "f (Suc k) = None \<Longrightarrow> lo \<le> k \<Longrightarrow> backtrack lo (Suc k) f = backtrack lo k f"
  by simp

lemma backtrack_None: "backtrack lo k f = None \<Longrightarrow> lo \<le> j \<Longrightarrow> j \<le> k \<Longrightarrow> f j = None"
  by (induction k) (auto simp: le_Suc_eq split: if_splits option.splits)

lemma backtrack_greatest:
  "backtrack lo k f = Some r \<Longrightarrow> \<exists>j. lo \<le> j \<and> j \<le> k \<and> f j = Some r \<and> (\<forall>i. j < i \<and> i \<le> k \<longrightarrow> f i = None)"
proof (induction k)
  case (Suc k)
  show ?case
  proof (cases "f (Suc k)")
    case None
    with Suc obtain j where "lo \<le> j" "j \<le> k" "f j = Some r" "\<forall>i. j < i \<and> i \<le> k \<longrightarrow> f i = None"
      by (auto split: if_splits)
    with None show ?thesis
      by (intro exI [of _ j]) (auto simp: le_Suc_eq)
  next
    case (Some r')
    with Suc.prems show ?thesis
      by (intro exI [of _ "Suc k"]) (auto split: if_splits)
  qed
qed (auto split: if_splits)

lemma backtrack_Some: "backtrack lo k f = Some r \<Longrightarrow> \<exists>j. lo \<le> j \<and> j \<le> k \<and> f j = Some r"
  by (drule backtrack_greatest) auto

text \<open>A match is a prefix of the text.\<close>

lemma rx_match_prefix: "rx_match r s = Some (gs, rest) \<Longrightarrow> \<exists>pre. s = pre @ rest"
proof (induction r arbitrary: s gs rest)
  case (Cons i r)
  have sub: "\<exists>pre. s = pre @ rest" if "rx_match r (drop k s) = Some (hs, rest)" for k hs
  proof -
    from Cons.IH [OF that] obtain pre where "drop k s = pre @ rest" by blast
    then have "s = (take k s @ pre) @ rest"
      by (metis append.assoc append_take_drop_id)
    then show ?thesis by blast
  qed
  show ?case
  proof (cases i)
    case (Lit c)
    with Cons show ?thesis
      by (fastforce split: list.splits if_splits)
  qed (use Cons.prems sub in \<open>auto dest!: backtrack_Some\<close>)
qed simp

lemma rx_match_length: "rx_match r s = Some (gs, rest) \<Longrightarrow> length rest \<le> length s"
  using rx_match_prefix by fastforce

lemma rx_lits: "rx_match (lits l @ r) (l @ s) = rx_match r s"
  by (induction l) auto

lemma takeWhile_run:
  "list_all p w \<Longrightarrow> s = [] \<or> \<not> p (hd s) \<Longrightarrow> takeWhile p (w @ s) = w"
  by (cases s) (auto simp: takeWhile_append list_all_iff)

lemma run_unique:
  assumes "w @ s = w' @ s'" and "list_all p w" and "list_all p w'"
    and "s = [] \<or> \<not> p (hd s)" and "s' = [] \<or> \<not> p (hd s')"
  shows "w = w' \<and> s = s'"
  using takeWhile_run [OF assms(2,4)] takeWhile_run [OF assms(3,5)] assms(1) by auto

lemma rx_cap_run:
  assumes "list_all p w" and "w \<noteq> []" and "s = [] \<or> \<not> p (hd s)"
    and "rx_match r s = Some (gs, rest)"
  shows "rx_match (Cap p # r) (w @ s) = Some (w # gs, rest)"
  using assms by (auto simp: takeWhile_run intro!: backtrack_first simp: Suc_le_eq)

lemma rx_plus_run:
  assumes "list_all p w" and "w \<noteq> []" and "s = [] \<or> \<not> p (hd s)"
    and "rx_match r s = Some (gs, rest)"
  shows "rx_match (Plus p # r) (w @ s) = Some (gs, rest)"
  using assms by (auto simp: takeWhile_run intro!: backtrack_first simp: Suc_le_eq)

lemma rx_star_run:
  assumes "list_all p w" and "s = [] \<or> \<not> p (hd s)"
    and "rx_match r s = Some (gs, rest)"
  shows "rx_match (Star p # r) (w @ s) = Some (gs, rest)"
  using assms by (auto simp: takeWhile_run intro!: backtrack_first)

text \<open>A greedy group that has to give back its last byte.\<close>

lemma rx_cap_giveback:
  assumes "list_all p (w @ [c])" and "w \<noteq> []" and "s = [] \<or> \<not> p (hd s)"
    and "rx_match r s = None" and "rx_match r (c # s) = Some (gs, rest)"
  shows "rx_match (Cap p # r) (w @ c # s) = Some (w # gs, rest)"
proof -
  have "takeWhile p ((w @ [c]) @ s) = w @ [c]"
    using assms by (intro takeWhile_run) auto
  then have run: "length (takeWhile p (w @ c # s)) = Suc (length w)"
    by simp
  have "backtrack 1 (Suc (length w)) f = Some (w # gs, rest)"
    if "f (Suc (length w)) = None" and "f (length w) = Some (w # gs, rest)"
    for f :: "nat \<Rightarrow> (string list \<times> string) option"
    using that assms by (simp add: backtrack_first Suc_le_eq)
  with run assms show ?thesis
    by (simp del: backtrack.simps)
qed

text \<open>Every group of a match is a non-empty run of its class.\<close>

primrec rx_caps :: "rx \<Rightarrow> (char \<Rightarrow> bool) list" where
  "rx_caps [] = []"
| "rx_caps (i # is) = (case i of Cap p \<Rightarrow> p # rx_caps is | _ \<Rightarrow> rx_caps is)"

lemma rx_match_groups:
  "rx_match r s = Some (gs, rest) \<Longrightarrow> list_all2 (\<lambda>p g. g \<noteq> [] \<and> list_all p g) (rx_caps r) gs"
proof (induction r arbitrary: s gs rest)
  case (Cons i r)
  show ?case
  proof (cases i)
    case (Lit c)
    with Cons show ?thesis
      by (auto split: list.splits if_splits)
  next
    case (Star p)
    with Cons show ?thesis
      by (auto dest!: backtrack_Some)
  next
    case (Plus p)
    with Cons show ?thesis
      by (auto dest!: backtrack_Some)
  next
    case (Cap p)
    with Cons.prems obtain k hs where k: "1 \<le> k" "k \<le> length (takeWhile p s)"
      and m: "rx_match r (drop k s) = Some (hs, rest)" and gs: "gs = take k s # hs"
      by (auto dest!: backtrack_Some)
    have "s \<noteq> []"
      using k by auto
    with k take_run [of k p s] Cons.IH [OF m] show ?thesis
      by (simp add: Cap gs)
  qed
qed simp

lemma rx_submatch_groups:
  "rx_submatch r s = Some gs \<Longrightarrow> list_all2 (\<lambda>p g. g \<noteq> [] \<and> list_all p g) (rx_caps r) gs"
  by (auto simp: rx_submatch_def dest: rx_match_groups)

section \<open>The preferred match\<close>

text \<open>
  The decompositions of a text an expression allows: the length of each repetition's run, the groups,
  and the text left over.
\<close>

inductive rx_runs :: "rx \<Rightarrow> string \<Rightarrow> nat list \<Rightarrow> string list \<Rightarrow> string \<Rightarrow> bool" where
  runs_done: "rx_runs [] s [] [] s"
| runs_lit: "rx_runs is s ns gs rest \<Longrightarrow> rx_runs (Lit c # is) (c # s) ns gs rest"
| runs_star: "list_all p w \<Longrightarrow> rx_runs is s ns gs rest \<Longrightarrow> rx_runs (Star p # is) (w @ s) (length w # ns) gs rest"
| runs_plus: "w \<noteq> [] \<Longrightarrow> list_all p w \<Longrightarrow> rx_runs is s ns gs rest \<Longrightarrow> rx_runs (Plus p # is) (w @ s) (length w # ns) gs rest"
| runs_cap: "w \<noteq> [] \<Longrightarrow> list_all p w \<Longrightarrow> rx_runs is s ns gs rest \<Longrightarrow> rx_runs (Cap p # is) (w @ s) (length w # ns) (w # gs) rest"

inductive_cases runs_nil_case [elim!]: "rx_runs [] s ns gs rest"
inductive_cases runs_lit_case [elim!]: "rx_runs (Lit c # is) s ns gs rest"
inductive_cases runs_star_case: "rx_runs (Star p # is) s ns gs rest"
inductive_cases runs_plus_case: "rx_runs (Plus p # is) s ns gs rest"
inductive_cases runs_cap_case: "rx_runs (Cap p # is) s ns gs rest"

lemma run_prefix:
  assumes "list_all p w"
  shows "length w \<le> length (takeWhile p (w @ t))"
  using assms by (simp add: list_all_iff)

lemma prefix_run:
  "k \<le> length (takeWhile p s) \<Longrightarrow> \<exists>w. s = w @ drop k s \<and> take k s = w \<and> length w = k \<and> list_all p w"
  using take_run [of k p s] length_takeWhile_le [of p s] by (intro exI [of _ "take k s"]) simp

lemma runs_star_iff: "rx_runs (Star p # is) s ns gs rest \<longleftrightarrow>
    (\<exists>k ms. k \<le> length (takeWhile p s) \<and> ns = k # ms \<and> rx_runs is (drop k s) ms gs rest)"
proof
  assume "\<exists>k ms. k \<le> length (takeWhile p s) \<and> ns = k # ms \<and> rx_runs is (drop k s) ms gs rest"
  then obtain k ms w where "s = w @ drop k s" "length w = k" "list_all p w" "ns = k # ms"
      "rx_runs is (drop k s) ms gs rest"
    using prefix_run by blast
  then show "rx_runs (Star p # is) s ns gs rest"
    using runs_star [of p w "is" "drop k s"] by fastforce
qed (auto elim!: runs_star_case simp: run_prefix)

lemma runs_plus_iff: "rx_runs (Plus p # is) s ns gs rest \<longleftrightarrow>
    (\<exists>k ms. 1 \<le> k \<and> k \<le> length (takeWhile p s) \<and> ns = k # ms \<and> rx_runs is (drop k s) ms gs rest)"
proof
  assume "\<exists>k ms. 1 \<le> k \<and> k \<le> length (takeWhile p s) \<and> ns = k # ms \<and> rx_runs is (drop k s) ms gs rest"
  then obtain k ms w where "1 \<le> k" "s = w @ drop k s" "length w = k" "list_all p w" "ns = k # ms"
      "rx_runs is (drop k s) ms gs rest"
    using prefix_run by blast
  then show "rx_runs (Plus p # is) s ns gs rest"
    using runs_plus [of w p "is" "drop k s"] by fastforce
qed (auto elim!: runs_plus_case simp: run_prefix Suc_le_eq)

lemma runs_cap_iff: "rx_runs (Cap p # is) s ns gs rest \<longleftrightarrow>
    (\<exists>k ms hs. 1 \<le> k \<and> k \<le> length (takeWhile p s) \<and> ns = k # ms \<and> gs = take k s # hs
       \<and> rx_runs is (drop k s) ms hs rest)"
proof
  assume "\<exists>k ms hs. 1 \<le> k \<and> k \<le> length (takeWhile p s) \<and> ns = k # ms \<and> gs = take k s # hs
      \<and> rx_runs is (drop k s) ms hs rest"
  then obtain k ms hs w where "1 \<le> k" "s = w @ drop k s" "take k s = w" "length w = k" "list_all p w"
      "ns = k # ms" "gs = w # hs" "rx_runs is (drop k s) ms hs rest"
    using prefix_run by blast
  then show "rx_runs (Cap p # is) s ns gs rest"
    using runs_cap [of w p "is" "drop k s"] by fastforce
qed (auto elim!: runs_cap_case simp: run_prefix Suc_le_eq)

text \<open>
  What the matcher answers: nothing when there is no decomposition, and otherwise the one whose
  runs are greatest, the earlier ones counting first.
\<close>

definition preferred :: "rx \<Rightarrow> string \<Rightarrow> (string list \<times> string) option \<Rightarrow> bool" where
  "preferred r s res \<longleftrightarrow>
     (case res of
        None \<Rightarrow> \<nexists>ns gs rest. rx_runs r s ns gs rest
      | Some (gs, rest) \<Rightarrow> \<exists>ns. rx_runs r s ns gs rest
          \<and> (\<forall>ns' gs' rest'. rx_runs r s ns' gs' rest' \<longrightarrow> ns' \<le> ns))"

lemma preferred_repeat:
  assumes sub: "\<And>k. preferred r (drop k s) (rx_match r (drop k s))"
    and runs: "\<And>ns gs rest. rx_runs (i # r) s ns gs rest \<longleftrightarrow>
      (\<exists>k ms hs. lo \<le> k \<and> k \<le> hi \<and> ns = k # ms \<and> gs = g k hs \<and> rx_runs r (drop k s) ms hs rest)"
    and f: "\<And>k. f k = map_option (\<lambda>(gs, rest). (g k gs, rest)) (rx_match r (drop k s))"
  shows "preferred (i # r) s (backtrack lo hi f)"
proof (cases "backtrack lo hi f")
  case None
  have "rx_match r (drop k s) = None" if "lo \<le> k" "k \<le> hi" for k
    using backtrack_None [OF None that] by (simp add: f)
  with sub show ?thesis
    by (force simp: preferred_def None runs split: option.splits)
next
  case (Some res)
  then obtain j where j: "lo \<le> j" "j \<le> hi" "f j = Some res"
      and none: "\<And>i. j < i \<Longrightarrow> i \<le> hi \<Longrightarrow> rx_match r (drop i s) = None"
    using backtrack_greatest [OF Some] by (auto simp: f)
  then obtain hs rest where match: "rx_match r (drop j s) = Some (hs, rest)" and res: "res = (g j hs, rest)"
    by (auto simp: f)
  with sub [of j] obtain ms where ms: "rx_runs r (drop j s) ms hs rest"
      and best: "\<And>ns gs rest. rx_runs r (drop j s) ns gs rest \<Longrightarrow> ns \<le> ms"
    by (auto simp: preferred_def)
  have "ns \<le> j # ms" if run: "rx_runs (i # r) s ns gs rest'" for ns gs rest'
  proof -
    obtain k ks hs' where k: "k \<le> hi" "ns = k # ks" "rx_runs r (drop k s) ks hs' rest'"
      using run unfolding runs by blast
    have "\<not> j < k"
      using none [of k] sub [of k] k by (auto simp: preferred_def)
    then show ?thesis
      using best k by (cases "k = j") auto
  qed
  moreover have "rx_runs (i # r) s (j # ms) (g j hs) rest"
    unfolding runs using j ms by blast
  ultimately show ?thesis
    unfolding Some res preferred_def by auto
qed

lemma rx_match_preferred: "preferred r s (rx_match r s)"
proof (induction r arbitrary: s)
  case Nil
  then show ?case
    by (auto simp: preferred_def intro: runs_done)
next
  case (Cons i r)
  show ?case
  proof (cases i)
    case (Lit c)
    then show ?thesis
      using Cons.IH [of "tl s"] by (cases s) (auto simp: preferred_def split: option.splits intro: runs_lit)
  next
    case (Star p)
    then show ?thesis
      by (auto simp: runs_star_iff option.map_id
          intro!: preferred_repeat [where g = "\<lambda>k gs. gs", OF Cons.IH])
  next
    case (Plus p)
    then show ?thesis
      by (auto simp: runs_plus_iff option.map_id
          intro!: preferred_repeat [where g = "\<lambda>k gs. gs", OF Cons.IH])
  next
    case (Cap p)
    then show ?thesis
      by (auto simp: runs_cap_iff intro!: preferred_repeat [where g = "\<lambda>k gs. take k s # gs", OF Cons.IH])
  qed
qed

lemma plain_nonspace: "plain w \<Longrightarrow> list_all cls_nonspace w"
  by (auto simp: plain_def list_all_iff cls_nonspace_def cls_space_def blank_def)

lemma digit_nonspace [simp]: "is_digit c \<Longrightarrow> \<not> cls_space c"
  by (auto simp: cls_space_def is_digit_def)

end
