(* ===== verification/GoPath.thy ===== *)
theory GoPath
  imports GoStrings
begin

text \<open>
  The part of Go's \<^verbatim>\<open>path/filepath\<close> and \<^verbatim>\<open>os\<close> that socket discovery calls, for Unix:
  \<^verbatim>\<open>Join\<close>, \<^verbatim>\<open>Clean\<close>, \<^verbatim>\<open>Match\<close>, \<^verbatim>\<open>Glob\<close>, \<^verbatim>\<open>Stat\<close> and \<^verbatim>\<open>ReadFile\<close>. A file system is what the
  kernel resolves a path to, so symbolic links are already followed.
\<close>

section \<open>Clean and Join\<close>

abbreviation slash :: char where
  "slash \<equiv> CHR ''/''"

definition clean_step :: "bool \<Rightarrow> string list \<Rightarrow> string \<Rightarrow> string list" where
  "clean_step rooted segs seg =
     (if seg = [] \<or> seg = ''.'' then segs
      else if seg = ''..'' then
        (if segs \<noteq> [] \<and> last segs \<noteq> ''..'' then butlast segs
         else if rooted then segs else segs @ [''..''])
      else segs @ [seg])"

definition path_clean :: "string \<Rightarrow> string" where
  "path_clean p =
     (let rooted = (p \<noteq> [] \<and> hd p = slash);
          out = (if rooted then [slash] else [])
            @ join [slash] (foldl (clean_step rooted) [] (split_on slash p))
      in if out = [] then ''.'' else out)"

definition path_join :: "string list \<Rightarrow> string" where
  "path_join elems =
     (case dropWhile (\<lambda>e. e = []) elems of
        [] \<Rightarrow> []
      | es \<Rightarrow> path_clean (join [slash] es))"

text \<open>Segments that \<^const>\<open>path_clean\<close> keeps.\<close>

definition segment :: "string \<Rightarrow> bool" where
  "segment s \<longleftrightarrow> s \<noteq> [] \<and> s \<noteq> ''.'' \<and> s \<noteq> ''..'' \<and> slash \<notin> set s"

definition abs_path :: "string list \<Rightarrow> string" where
  "abs_path segs = slash # join [slash] segs"

lemma clean_segments:
  "list_all segment segs \<Longrightarrow> foldl (clean_step r) out segs = out @ segs"
  by (induction segs arbitrary: out) (auto simp: clean_step_def segment_def)

lemma split_abs_path:
  assumes "list_all segment segs" and "segs \<noteq> []"
  shows "split_on slash (abs_path segs) = [] # segs"
proof -
  have "\<forall>w \<in> set segs. slash \<notin> set w"
    using assms(1) by (auto simp: list_all_iff segment_def)
  with assms(2) show ?thesis
    by (simp add: abs_path_def split_on_join)
qed

lemma clean_abs_path: "list_all segment segs \<Longrightarrow> path_clean (abs_path segs) = abs_path segs"
proof (cases "segs = []")
  case True
  then show ?thesis
    by (simp add: path_clean_def abs_path_def clean_step_def)
next
  case False
  assume segs: "list_all segment segs"
  have "foldl (clean_step True) [] ([] # segs) = segs"
    using segs by (simp add: clean_step_def clean_segments)
  then show ?thesis
    using segs False by (simp add: path_clean_def split_abs_path) (simp add: abs_path_def)
qed

lemma join_snoc: "ws \<noteq> [] \<Longrightarrow> join sep (ws @ [w]) = join sep ws @ sep @ w"
  by (induction sep ws rule: join.induct) (auto simp: join_Cons)

lemma path_join_abs:
  assumes "list_all segment segs" and "segment name"
  shows "path_join [abs_path segs, name] = abs_path (segs @ [name])"
proof (cases "segs = []")
  case True
  have "split_on slash (slash # slash # name) = [[], [], name]"
    using assms(2) by (simp add: segment_def split_on_free)
  then show ?thesis
    using assms(2) True
    by (simp add: path_join_def abs_path_def path_clean_def clean_step_def segment_def)
next
  case False
  have "join [slash] [abs_path segs, name] = abs_path (segs @ [name])"
    using False by (simp add: abs_path_def join_snoc)
  moreover have "path_clean (abs_path (segs @ [name])) = abs_path (segs @ [name])"
    using assms by (intro clean_abs_path) simp
  ultimately show ?thesis
    by (simp add: path_join_def abs_path_def)
qed

section \<open>Match\<close>

text \<open>
  The items of a shell pattern: \<^verbatim>\<open>?\<close>, \<^verbatim>\<open>*\<close>, a (negated) class of rune ranges, a literal byte.
  \<^const>\<open>None\<close> of the reader is \<^verbatim>\<open>ErrBadPattern\<close>.
\<close>

datatype glob_item =
    GLit char
  | GAny
  | GStar
  | GClass bool "(string \<times> string) list"

definition invalid_rune :: "string \<Rightarrow> bool" where
  "invalid_rune s \<longleftrightarrow> rune_len s = 1 \<and> \<not> ascii (hd s)"

definition first_rune :: "string \<Rightarrow> string" where
  "first_rune s = (if invalid_rune s then [CHR 0xEF, CHR 0xBF, CHR 0xBD] else take (rune_len s) s)"

text \<open>\<^verbatim>\<open>getEsc\<close>: one, possibly escaped, rune of a class.\<close>

definition get_esc :: "string \<Rightarrow> (string \<times> string) option" where
  "get_esc s =
     (if s = [] \<or> hd s = CHR ''-'' \<or> hd s = CHR '']'' then None
      else
        (let s = (if hd s = CHR 0x5C then tl s else s)
         in if s = [] \<or> invalid_rune s \<or> drop (rune_len s) s = [] then None
            else Some (take (rune_len s) s, drop (rune_len s) s)))"

lemma drop_rune_length: "s \<noteq> [] \<Longrightarrow> length (drop (rune_len s) s) < length s"
  by (cases s) (use rune_len_pos in \<open>auto intro: diff_less\<close>)

lemma get_esc_length: "get_esc s = Some (r, t) \<Longrightarrow> length t < length s"
  using drop_rune_length [of s] drop_rune_length [of "tl s"]
  by (auto simp: get_esc_def Let_def split: if_splits)

definition get_range :: "string \<Rightarrow> ((string \<times> string) \<times> string) option" where
  "get_range s =
     (case get_esc s of
        None \<Rightarrow> None
      | Some (lo, t) \<Rightarrow>
          if hd t = CHR ''-'' then
            (case get_esc (tl t) of None \<Rightarrow> None | Some (hi, u) \<Rightarrow> Some ((lo, hi), u))
          else Some ((lo, lo), t))"

lemma get_range_length: "get_range s = Some (r, t) \<Longrightarrow> length t < length s"
  by (force simp: get_range_def dest!: get_esc_length split: option.splits if_splits)

function glob_class :: "bool \<Rightarrow> string \<Rightarrow> ((string \<times> string) list \<times> string) option" where
  "glob_class first s =
     (if \<not> first \<and> s \<noteq> [] \<and> hd s = CHR '']'' then Some ([], tl s)
      else
        (case get_range s of
           None \<Rightarrow> None
         | Some (r, t) \<Rightarrow> map_option (\<lambda>(rs, u). (r # rs, u)) (glob_class False t)))"
  by pat_completeness auto
termination
  by (relation "measure (length \<circ> snd)") (auto dest: get_range_length)

declare glob_class.simps [simp del]

lemma glob_class_length: "glob_class first s = Some (rs, t) \<Longrightarrow> length t < length s"
proof (induction first s arbitrary: rs t rule: glob_class.induct)
  case (1 first s)
  show ?case
  proof (cases "\<not> first \<and> s \<noteq> [] \<and> hd s = CHR '']''")
    case True
    with "1.prems" show ?thesis
      by (subst (asm) glob_class.simps) auto
  next
    case False
    with "1.prems" obtain r u qs where r: "get_range s = Some (r, u)"
        and u: "glob_class False u = Some (qs, t)"
      by (subst (asm) glob_class.simps) (auto split: option.splits)
    with "1.IH" [OF False r refl u] get_range_length [OF r] show ?thesis by simp
  qed
qed

function glob_parse :: "string \<Rightarrow> glob_item list option" where
  "glob_parse [] = Some []"
| "glob_parse (c # cs) =
     (if c = CHR ''*'' then map_option ((#) GStar) (glob_parse cs)
      else if c = CHR ''?'' then map_option ((#) GAny) (glob_parse cs)
      else if c = CHR 0x5C then
        (case cs of [] \<Rightarrow> None | d # ds \<Rightarrow> map_option ((#) (GLit d)) (glob_parse ds))
      else if c = CHR ''['' then
        (let neg = (cs \<noteq> [] \<and> hd cs = CHR ''^'')
         in (case glob_class True (if neg then tl cs else cs) of
               None \<Rightarrow> None
             | Some (rs, t) \<Rightarrow> map_option ((#) (GClass neg rs)) (glob_parse t)))
      else map_option ((#) (GLit c)) (glob_parse cs))"
  by pat_completeness auto
termination
  by (relation "measure length") (auto dest!: glob_class_length split: if_splits)

definition in_class :: "string \<Rightarrow> (string \<times> string) list \<Rightarrow> bool" where
  "in_class r rs \<longleftrightarrow> list_ex (\<lambda>(lo, hi). lo \<le> r \<and> r \<le> hi) rs"

primrec glob_match :: "glob_item list \<Rightarrow> string \<Rightarrow> bool" where
  "glob_match [] s = (s = [])"
| "glob_match (i # is) s =
     (case i of
        GLit c \<Rightarrow> (case s of [] \<Rightarrow> False | d # ds \<Rightarrow> d = c \<and> glob_match is ds)
      | GAny \<Rightarrow> s \<noteq> [] \<and> hd s \<noteq> slash \<and> glob_match is (drop (rune_len s) s)
      | GStar \<Rightarrow> list_ex (\<lambda>k. glob_match is (drop k s)) [0..<Suc (length (takeWhile (\<lambda>c. c \<noteq> slash) s))]
      | GClass neg rs \<Rightarrow> s \<noteq> [] \<and> in_class (first_rune s) rs \<noteq> neg
          \<and> glob_match is (drop (rune_len s) s))"

definition path_match :: "string \<Rightarrow> string \<Rightarrow> bool option" where
  "path_match pattern name = map_option (\<lambda>is. glob_match is name) (glob_parse pattern)"

definition meta :: "char \<Rightarrow> bool" where
  "meta c \<longleftrightarrow> c \<in> {CHR ''*'', CHR ''?'', CHR ''['', CHR 0x5C}"

definition has_meta :: "string \<Rightarrow> bool" where
  "has_meta s \<longleftrightarrow> list_ex meta s"

lemma glob_parse_literal:
  "\<not> has_meta w \<Longrightarrow> glob_parse (w @ s) = map_option ((@) (map GLit w)) (glob_parse s)"
  by (cases "glob_parse s"; induction w) (auto simp: has_meta_def meta_def)

lemma glob_match_literal: "glob_match (map GLit w @ is) s \<longleftrightarrow> (\<exists>t. s = w @ t \<and> glob_match is t)"
  by (induction w arbitrary: s) (auto split: list.splits)

lemma glob_match_star_literal:
  "glob_match (GStar # map GLit w) s \<longleftrightarrow> (\<exists>x. slash \<notin> set x \<and> s = x @ w)"
proof
  assume "glob_match (GStar # map GLit w) s"
  then obtain k where k: "k \<le> length (takeWhile (\<lambda>c. c \<noteq> slash) s)" and m: "glob_match (map GLit w) (drop k s)"
    by (auto simp: list_ex_iff less_Suc_eq_le simp del: upt_Suc)
  have "drop k s = w"
    using m glob_match_literal [of w "[]"] by simp
  moreover have "slash \<notin> set (take k s)"
    using take_run [OF k] by (auto simp: list_all_iff)
  moreover have "s = take k s @ drop k s"
    by simp
  ultimately show "\<exists>x. slash \<notin> set x \<and> s = x @ w"
    by metis
next
  assume "\<exists>x. slash \<notin> set x \<and> s = x @ w"
  then obtain x where x: "slash \<notin> set x" "s = x @ w" by blast
  then have "length x \<le> length (takeWhile (\<lambda>c. c \<noteq> slash) s)"
    by (induction x arbitrary: s) auto
  then show "glob_match (GStar # map GLit w) s"
    using x glob_match_literal [of w "[]" w]
    by (auto simp: list_ex_iff less_Suc_eq_le simp del: upt_Suc intro!: bexI [of _ "length x"])
qed

section \<open>The file system and Glob\<close>

text \<open>
  What the kernel finds at a path: a directory with its entries, a file with its contents
  (\<^const>\<open>None\<close> when reading it fails), or anything else that \<^verbatim>\<open>stat\<close> finds, such as a socket.
\<close>

datatype fs_node =
    Dir_node "string list"
  | File_node "string option"
  | Other_node

type_synonym filesystem = "string \<Rightarrow> fs_node option"

definition fs_exists :: "filesystem \<Rightarrow> string \<Rightarrow> bool" where
  "fs_exists fs p \<longleftrightarrow> fs p \<noteq> None"

definition fs_read :: "filesystem \<Rightarrow> string \<Rightarrow> string option" where
  "fs_read fs p = (case fs p of Some (File_node c) \<Rightarrow> c | _ \<Rightarrow> None)"

text \<open>\<^verbatim>\<open>glob\<close>: the entries of one directory that match, in sorted order.\<close>

definition glob_dir :: "filesystem \<Rightarrow> string \<Rightarrow> string \<Rightarrow> string list \<Rightarrow> string list option" where
  "glob_dir fs dir pattern matches =
     (case fs dir of
        Some (Dir_node names) \<Rightarrow>
          (case glob_parse pattern of
             None \<Rightarrow> if names = [] then Some matches else None
           | Some is \<Rightarrow>
               Some (matches @ map (\<lambda>n. path_join [dir, n]) (filter (glob_match is) (sort names))))
      | _ \<Rightarrow> Some matches)"

fun glob_dirs :: "filesystem \<Rightarrow> string list \<Rightarrow> string \<Rightarrow> string list \<Rightarrow> string list option" where
  "glob_dirs fs [] pattern matches = Some matches"
| "glob_dirs fs (d # ds) pattern matches =
     (case glob_dir fs d pattern matches of
        None \<Rightarrow> None
      | Some ms \<Rightarrow> glob_dirs fs ds pattern ms)"

text \<open>\<^verbatim>\<open>Split\<close>: the directory part keeps its final slash.\<close>

definition path_split :: "string \<Rightarrow> string \<times> string" where
  "path_split p =
     (let file = rev (takeWhile (\<lambda>c. c \<noteq> slash) (rev p))
      in (take (length p - length file) p, file))"

definition clean_glob_path :: "string \<Rightarrow> string" where
  "clean_glob_path d = (if d = [] then ''.'' else if d = [slash] then d else butlast d)"

lemma clean_glob_shorter:
  assumes "has_meta (clean_glob_path (fst (path_split p)))"
  shows "length (clean_glob_path (fst (path_split p))) < length p"
proof -
  let ?d = "fst (path_split p)"
  have "\<not> has_meta ''.''" and "\<not> has_meta [slash]"
    by (simp_all add: has_meta_def meta_def)
  with assms have "?d \<noteq> []" and "clean_glob_path ?d = butlast ?d"
    by (auto simp: clean_glob_path_def split: if_splits)
  moreover have "length ?d \<le> length p"
    by (simp add: path_split_def Let_def)
  ultimately show ?thesis
    by (cases ?d) auto
qed

function path_glob :: "filesystem \<Rightarrow> string \<Rightarrow> string list option" where
  "path_glob fs pattern =
     (if path_match pattern [] = None then None
      else if \<not> has_meta pattern then Some (if fs_exists fs pattern then [pattern] else [])
      else
        (let dir = clean_glob_path (fst (path_split pattern));
             file = snd (path_split pattern)
         in if \<not> has_meta dir then glob_dir fs dir file []
            else if dir = pattern then None
            else
              (case path_glob fs dir of
                 None \<Rightarrow> None
               | Some ds \<Rightarrow> glob_dirs fs ds file [])))"
  by pat_completeness auto
termination
  by (relation "measure (length \<circ> snd)") (auto intro: clean_glob_shorter)

declare path_glob.simps [simp del]

lemma path_split_append:
  assumes "slash \<notin> set f"
  shows "path_split (d @ slash # f) = (d @ [slash], f)"
proof -
  have "takeWhile (\<lambda>c. c \<noteq> slash) (rev f @ slash # rev d) = rev f"
    using assms by (induction f rule: rev_induct) auto
  then show ?thesis
    by (simp add: path_split_def)
qed

text \<open>One pattern in the last segment under a directory without special characters.\<close>

lemma path_glob_plain_dir:
  assumes "\<not> has_meta dir" and "dir \<noteq> []" and "slash \<notin> set f" and "has_meta f"
    and "glob_parse f = Some is"
  shows "path_glob fs (dir @ slash # f)
    = Some (case fs dir of
        Some (Dir_node names) \<Rightarrow> map (\<lambda>n. path_join [dir, n]) (filter (glob_match is) (sort names))
      | _ \<Rightarrow> [])"
proof -
  have "glob_parse (slash # f) = Some (GLit slash # is)"
    using assms(5) by simp
  then have "path_match (dir @ slash # f) [] \<noteq> None"
    using glob_parse_literal [OF assms(1), of "slash # f"] by (simp add: path_match_def)
  moreover have "has_meta (dir @ slash # f)"
    using assms(4) by (simp add: has_meta_def meta_def)
  moreover have "clean_glob_path (dir @ [slash]) = dir"
    using assms(2) by (simp add: clean_glob_path_def)
  ultimately show ?thesis
    using assms by (subst path_glob.simps)
      (simp add: path_split_append glob_dir_def split: option.split fs_node.split)
qed

end
