(* ===== verification/Appctl.thy ===== *)
theory Appctl
  imports GoJson GoRegexp
begin

text \<open>
  What the five appctl parsers of \<^verbatim>\<open>internal/unixctl\<close> have in common. Each unmarshals the raw
  reply into a Go string, fails when that fails, and otherwise reads the text line by line
  without failing. The locale states this contract; \<^verbatim>\<open>Coverage\<close>, \<^verbatim>\<open>Memory\<close>, \<^verbatim>\<open>Dpif\<close>,
  \<^verbatim>\<open>Dpctl\<close> and \<^verbatim>\<open>Upcall\<close> interpret it, and the refresh of the data source uses it.
\<close>

text \<open>The error of \<^verbatim>\<open>fmt.Errorf("unixctl: <cmd>: unmarshal: %w", err)\<close>.\<close>

datatype parse_error = Unmarshal_error string

lemma map_filter_put:
  assumes "\<And>m x. step m x = (case row x of None \<Rightarrow> m | Some (k, v) \<Rightarrow> map_put k v m)"
  shows "foldl step m xs = put_all (List.map_filter row xs) m"
  by (induction xs arbitrary: m) (auto simp: assms List.map_filter_simps split: option.splits)

locale appctl_parser =
  fixes cmd :: string
    and parse :: "string \<Rightarrow> parse_error + 'a"
    and of_text :: "string \<Rightarrow> 'a"
    and inv :: "'a \<Rightarrow> bool"
  assumes parse_bad: "json_unmarshal_string raw = None \<Longrightarrow> parse raw = Inl (Unmarshal_error cmd)"
    and parse_text: "json_unmarshal_string raw = Some t \<Longrightarrow> parse raw = Inr (of_text t)"
    and of_text_inv: "inv (of_text t)"
begin

lemma parse_fails_iff: "(\<exists>e. parse raw = Inl e) \<longleftrightarrow> json_unmarshal_string raw = None"
  by (cases "json_unmarshal_string raw") (auto simp: parse_bad parse_text)

lemma parse_error_is: "parse raw = Inl e \<Longrightarrow> e = Unmarshal_error cmd"
  by (cases "json_unmarshal_string raw") (auto simp: parse_bad parse_text)

lemma parse_inv: "parse raw = Inr v \<Longrightarrow> inv v"
  by (cases "json_unmarshal_string raw") (auto simp: parse_bad parse_text of_text_inv)

lemma parse_quote: "list_all ascii t \<Longrightarrow> parse (json_quote t) = Inr (of_text t)"
  by (simp add: parse_text)

lemma parse_null: "parse ''null'' = Inr (of_text [])"
  by (simp add: parse_text)

lemma parse_empty: "parse [] = Inl (Unmarshal_error cmd)"
  by (simp add: parse_bad)

end

end
