(* ===== verification/Coverage.thy ===== *)
theory Coverage
  imports Appctl
begin

text \<open>
  \<^verbatim>\<open>internal/unixctl/coverage.go\<close>: the parser of \<^verbatim>\<open>ovs-appctl coverage/show\<close>.
\<close>

record coverage =
  Events :: "(string, int64) gomap"

section \<open>The parser\<close>

text \<open>The body of the loop over the lines: \<^const>\<open>None\<close> is one of its \<^verbatim>\<open>continue\<close>s.\<close>

definition coverage_row :: "string \<Rightarrow> (string \<times> int64) option" where
  "coverage_row line =
     (case last_index line ''total:'' of
        None \<Rightarrow> None
      | Some idx \<Rightarrow>
          (case str_fields (take idx line) of
             [] \<Rightarrow> None
           | head # _ \<Rightarrow>
               (case parse_int (trim_space (drop (idx + length ''total:'') line)) of
                  None \<Rightarrow> None
                | Some n \<Rightarrow> Some (head, n))))"

definition coverage_line :: "(string, int64) gomap \<Rightarrow> string \<Rightarrow> (string, int64) gomap" where
  "coverage_line events line =
     (case coverage_row line of None \<Rightarrow> events | Some (name, n) \<Rightarrow> map_put name n events)"

definition coverage_of_text :: "string \<Rightarrow> coverage" where
  "coverage_of_text text = \<lparr>Events = foldl coverage_line [] (split_on newline text)\<rparr>"

definition parse_coverage :: "string \<Rightarrow> parse_error + coverage" where
  "parse_coverage raw =
     (case json_unmarshal_string raw of
        None \<Rightarrow> Inl (Unmarshal_error ''coverage'')
      | Some text \<Rightarrow> Inr (coverage_of_text text))"

section \<open>Invariant and functional behaviour\<close>

definition coverage_ok :: "coverage \<Rightarrow> bool" where
  "coverage_ok c \<longleftrightarrow> map_ok (Events c) \<and> (\<forall>(name, n) \<in> set (Events c). name \<noteq> [])"

lemma coverage_events_eq:
  "Events (coverage_of_text text) = put_all (List.map_filter coverage_row (split_on newline text)) []"
  unfolding coverage_of_text_def
  by (simp add: map_filter_put [where row = coverage_row] coverage_line_def)

lemma coverage_row_nonempty: "coverage_row line = Some (name, n) \<Longrightarrow> name \<noteq> []"
  using fields_nonempty [of name]
  by (auto simp: coverage_row_def split: option.splits list.splits) (metis list.set_intros(1))

lemma coverage_of_text_ok: "coverage_ok (coverage_of_text text)"
  by (auto simp: coverage_ok_def coverage_events_eq set_map_filter
      dest!: put_all_keys coverage_row_nonempty)

interpretation cov: appctl_parser "''coverage''" parse_coverage coverage_of_text coverage_ok
  by unfold_locales (simp_all add: parse_coverage_def coverage_of_text_ok)

section \<open>Rows as ovs-vswitchd prints them\<close>

definition coverage_row_text :: "string \<Rightarrow> string \<Rightarrow> int64 \<Rightarrow> string" where
  "coverage_row_text name rates n = name @ '' '' @ rates @ ''total: '' @ format_int n"

lemma last_index_num: "CHR ''t'' \<notin> set s \<Longrightarrow> last_index s ''total:'' = None"
  by (auto simp: last_index_None_iff)

lemma last_index_total:
  "CHR ''t'' \<notin> set t \<Longrightarrow> last_index (s @ ''total:'' @ t) ''total:'' = Some (length s)"
  using last_index_append [of "''total:''" t s] by (simp add: last_index_num)

lemma trim_space_format [simp]: "trim_space (CHR 0x20 # format_int n) = format_int n"
  by simp

lemma coverage_row_printed:
  assumes "word_str name"
  shows "coverage_row (coverage_row_text name rates n) = Some (name, n)"
proof -
  let ?head = "name @ '' '' @ rates"
  have eq: "coverage_row_text name rates n = ?head @ ''total:'' @ CHR 0x20 # format_int n"
    by (simp add: coverage_row_text_def)
  have "last_index (coverage_row_text name rates n) ''total:'' = Some (length ?head)"
    unfolding eq by (rule last_index_total) simp
  moreover have "take (length ?head) (coverage_row_text name rates n) = ?head"
    by (simp add: eq)
  moreover have "drop (length ?head + length ''total:'') (coverage_row_text name rates n)
      = CHR 0x20 # format_int n"
    unfolding eq by (rule drop_two)
  moreover have "str_fields ?head = name # str_fields rates"
    using assms fields_word_blank [of name "CHR 0x20" rates] by simp
  ultimately show ?thesis
    by (simp add: coverage_row_def del: append.simps)
qed

lemma coverage_noise: "last_index line ''total:'' = None \<Longrightarrow> coverage_row line = None"
  by (simp add: coverage_row_def)

definition row_ok :: "string \<times> string \<times> int64 \<Rightarrow> bool" where
  "row_ok = (\<lambda>(name, rates, n). plain name \<and> list_all ascii rates \<and> newline \<notin> set rates)"

definition row_entry :: "string \<times> string \<times> int64 \<Rightarrow> string \<times> int64" where
  "row_entry r = (fst r, snd (snd r))"

definition noise_ok :: "string \<Rightarrow> bool" where
  "noise_ok line \<longleftrightarrow> list_all ascii line \<and> newline \<notin> set line \<and> last_index line ''total:'' = None"

definition coverage_report ::
    "string list \<Rightarrow> (string \<times> string \<times> int64) list \<Rightarrow> string list \<Rightarrow> string" where
  "coverage_report header rows trailer =
     join [newline] (header @ map (\<lambda>(name, rates, n). coverage_row_text name rates n) rows @ trailer)"

lemma row_text_ascii: "row_ok (name, rates, n) \<Longrightarrow> list_all ascii (coverage_row_text name rates n)"
  by (auto simp: row_ok_def coverage_row_text_def ascii_def)

lemma row_text_line: "row_ok (name, rates, n) \<Longrightarrow> newline \<notin> set (coverage_row_text name rates n)"
  by (auto simp: row_ok_def coverage_row_text_def plain_no_blank)

lemma row_text_row: "row_ok (name, rates, n) \<Longrightarrow>
    coverage_row (coverage_row_text name rates n) = Some (name, n)"
  by (auto simp: row_ok_def intro: coverage_row_printed)

lemma coverage_report_ascii:
  assumes "list_all noise_ok header" and "list_all row_ok rows" and "list_all noise_ok trailer"
  shows "list_all ascii (coverage_report header rows trailer)"
  unfolding coverage_report_def using assms row_text_ascii
  by (intro join_ascii) (auto simp: noise_ok_def list_all_iff ascii_def)

lemma coverage_report_rows:
  assumes "list_all noise_ok header" and "list_all row_ok rows" and "list_all noise_ok trailer"
  shows "List.map_filter coverage_row (split_on newline (coverage_report header rows trailer))
    = map row_entry rows"
proof -
  let ?lines = "map (\<lambda>(name, rates, n). coverage_row_text name rates n) rows"
  have "List.map_filter coverage_row (split_on newline (coverage_report header rows trailer))
      = List.map_filter coverage_row (header @ ?lines @ trailer)"
    unfolding coverage_report_def using assms row_text_line
    by (intro split_on_join_fold) (auto simp: noise_ok_def list_all_iff coverage_noise)
  moreover have "List.map_filter coverage_row header = []"
    and "List.map_filter coverage_row trailer = []"
    using assms by (auto simp: map_filter_Nil_iff list_all_iff noise_ok_def coverage_noise)
  moreover have "List.map_filter coverage_row ?lines = map row_entry rows"
    using assms row_text_row by (intro map_filter_map_Some) (auto simp: list_all_iff row_entry_def)
  ultimately show ?thesis by simp
qed

section \<open>Properties\<close>

text \<open>The map of \<open>parse_coverage\<close> holds, for every name, the total of the last
  line of the text that is an event row with this name, and nothing else: header lines, rows
  with an unreadable total and blank heads leave no trace, and a later row replaces an earlier
  one.\<close>

lemma coverage_last_row_wins:
  "map_get (Events (coverage_of_text text))
     = map_of (rev (List.map_filter coverage_row (split_on newline text)))"
  by (simp add: coverage_events_eq map_get_put_all)

text \<open>The report as a text.\<close>

lemma coverage_report_text:
  assumes "list_all noise_ok header" and "list_all row_ok rows" and "list_all noise_ok trailer"
    and "distinct (map fst rows)"
  shows "list_all ascii (coverage_report header rows trailer)"
    and "coverage_of_text (coverage_report header rows trailer) = \<lparr>Events = map row_entry rows\<rparr>"
proof -
  have "fst \<circ> row_entry = fst"
    by (simp add: fun_eq_iff row_entry_def)
  with assms(4) have "distinct (map fst (map row_entry rows))"
    by simp
  then have "Events (coverage_of_text (coverage_report header rows trailer)) = map row_entry rows"
    using coverage_report_rows [OF assms(1-3)] by (simp only: coverage_events_eq put_all_distinct)
  then show "coverage_of_text (coverage_report header rows trailer) = \<lparr>Events = map row_entry rows\<rparr>"
    by simp
qed (rule coverage_report_ascii [OF assms(1-3)])

text \<open>Property C16. Round trip through the JSON reply: a report made of header lines, event rows
  as ovs-vswitchd prints them (name, rate columns, \<open>total: N\<close>) and trailer lines parses to
  exactly the printed names and totals, for every 64-bit total.\<close>

theorem coverage_report_parsed:
  assumes "list_all noise_ok header" and "list_all row_ok rows" and "list_all noise_ok trailer"
    and "distinct (map fst rows)"
  shows "parse_coverage (json_quote (coverage_report header rows trailer))
    = Inr \<lparr>Events = map row_entry rows\<rparr>"
  using cov.parse_quote [OF coverage_report_text(1) [OF assms]] coverage_report_text(2) [OF assms] by simp

theorem coverage_report_parsed_witness:
  "parse_coverage (json_quote (coverage_report [''Event coverage, avg rate over last:'']
      [(''nln_changed'', ''     0.0/sec  0.0761/sec   '', 11359),
       (''util_xalloc'', '' 3983.4/sec '', 890602098)] [''121 events never hit'', '''']))
    = Inr \<lparr>Events = [(''nln_changed'', 11359), (''util_xalloc'', 890602098)]\<rparr>"
  by (subst coverage_report_parsed)
    (simp_all add: noise_ok_def row_ok_def row_entry_def plain_def ascii_def blank_def)

end
