(* ===== verification/Memory.thy ===== *)
theory Memory
  imports Appctl
begin

text \<open>
  \<^verbatim>\<open>internal/unixctl/memory.go\<close>: the parser of \<^verbatim>\<open>ovs-appctl memory/show\<close>, whose keys may span
  several white-space separated tokens (\<^verbatim>\<open>udpif keys:117\<close>).
\<close>

record memory =
  Usage :: "(string, int64) gomap"

section \<open>The parser\<close>

text \<open>The value a token carries behind its last colon, with what stands before the colon.\<close>

definition memory_value :: "string \<Rightarrow> (string \<times> int64) option" where
  "memory_value tok =
     (case last_index tok '':'' of
        None \<Rightarrow> None
      | Some idx \<Rightarrow>
          (case parse_int (drop (idx + 1) tok) of
             None \<Rightarrow> None
           | Some n \<Rightarrow> Some (take idx tok, n)))"

text \<open>The body of the loop: \<open>parts\<close> holds the open key, \<open>out\<close> the map.\<close>

definition memory_token ::
    "string list \<times> (string, int64) gomap \<Rightarrow> string \<Rightarrow> string list \<times> (string, int64) gomap" where
  "memory_token = (\<lambda>(parts, out) tok.
     (case memory_value tok of
        None \<Rightarrow> (parts @ [tok], out)
      | Some (pre, n) \<Rightarrow>
          (let parts = (if pre \<noteq> [] then parts @ [pre] else parts);
               name = join '' '' parts
           in ([], if name = [] then out else map_put name n out))))"

definition memory_of_text :: "string \<Rightarrow> memory" where
  "memory_of_text text = \<lparr>Usage = snd (foldl memory_token ([], []) (str_fields text))\<rparr>"

definition parse_memory :: "string \<Rightarrow> parse_error + memory" where
  "parse_memory raw =
     (case json_unmarshal_string raw of
        None \<Rightarrow> Inl (Unmarshal_error ''memory'')
      | Some text \<Rightarrow> Inr (memory_of_text text))"

section \<open>The entries of a token list\<close>

text \<open>
  A reference reading without an accumulator: a key is made of the tokens up to and with the
  next token that carries a value.
\<close>

definition is_part :: "string \<Rightarrow> bool" where
  "is_part tok \<longleftrightarrow> memory_value tok = None"

definition memory_key :: "string list \<Rightarrow> string \<Rightarrow> string" where
  "memory_key parts pre = join '' '' (if pre \<noteq> [] then parts @ [pre] else parts)"

function memory_entries :: "string list \<Rightarrow> (string \<times> int64) list" where
  "memory_entries toks =
     (case dropWhile is_part toks of
        [] \<Rightarrow> []
      | tok # rest \<Rightarrow>
          (case memory_value tok of
             None \<Rightarrow> []
           | Some (pre, n) \<Rightarrow> (memory_key (takeWhile is_part toks) pre, n) # memory_entries rest))"
  by pat_completeness auto
termination
proof (relation "measure length")
  fix toks tok rest and x :: "string \<times> int64" and pre n
  assume "dropWhile is_part toks = tok # rest"
  then have "length (tok # rest) \<le> length toks"
    by (metis length_dropWhile_le)
  then show "(rest, toks) \<in> measure length"
    by simp
qed simp

declare memory_entries.simps [simp del]

definition named_entries :: "string list \<Rightarrow> (string \<times> int64) list" where
  "named_entries toks = filter (\<lambda>(name, n). name \<noteq> []) (memory_entries toks)"

lemma memory_entries_Nil [simp]: "memory_entries [] = []"
  by (simp add: memory_entries.simps)

lemma memory_entries_run:
  assumes "list_all is_part parts" and "memory_value tok = Some (pre, n)"
  shows "memory_entries (parts @ tok # toks) = (memory_key parts pre, n) # memory_entries toks"
proof -
  have "takeWhile is_part (parts @ tok # toks) = parts"
    and "dropWhile is_part (parts @ tok # toks) = tok # toks"
    using assms by (auto simp: is_part_def list_all_iff takeWhile_append dropWhile_append)
  with assms show ?thesis
    by (subst memory_entries.simps) simp
qed

lemma memory_entries_open:
  assumes "list_all is_part parts"
  shows "memory_entries parts = []"
proof -
  have "dropWhile is_part parts = []"
    using assms by (simp add: list_all_iff dropWhile_eq_Nil_conv)
  then show ?thesis
    by (simp add: memory_entries.simps [of parts] del: dropWhile_eq_Nil_conv)
qed

lemma memory_loop:
  assumes "list_all is_part parts"
  shows "snd (foldl memory_token (parts, out) toks) = put_all (named_entries (parts @ toks)) out"
  using assms
proof (induction toks arbitrary: parts out)
  case Nil
  then show ?case by (simp add: named_entries_def memory_entries_open)
next
  case (Cons tok toks)
  show ?case
  proof (cases "memory_value tok")
    case None
    with Cons.prems have "list_all is_part (parts @ [tok])"
      by (simp add: is_part_def [of tok])
    from Cons.IH [OF this] None show ?thesis
      by (simp add: memory_token_def)
  next
    case (Some v)
    obtain pre n where v: "v = (pre, n)" by force
    have "named_entries (parts @ tok # toks)
        = (if memory_key parts pre = [] then [] else [(memory_key parts pre, n)]) @ named_entries toks"
      using Cons.prems Some v by (simp add: named_entries_def memory_entries_run)
    with Cons.IH [of "[]"] Some v show ?thesis
      by (simp add: memory_token_def Let_def put_all_append flip: memory_key_def)
  qed
qed

lemma memory_usage_eq: "Usage (memory_of_text text) = put_all (named_entries (str_fields text)) []"
  using memory_loop [of "[]" "[]" "str_fields text"] by (simp add: memory_of_text_def)

section \<open>Invariant\<close>

definition memory_ok :: "memory \<Rightarrow> bool" where
  "memory_ok m \<longleftrightarrow> map_ok (Usage m) \<and> (\<forall>(name, n) \<in> set (Usage m). name \<noteq> [])"

lemma memory_of_text_ok: "memory_ok (memory_of_text text)"
  by (auto simp: memory_ok_def memory_usage_eq named_entries_def dest!: put_all_keys)

interpretation mem: appctl_parser "''memory''" parse_memory memory_of_text memory_ok
  by unfold_locales (simp_all add: parse_memory_def memory_of_text_ok)

section \<open>Reports as ovs-vswitchd prints them\<close>

text \<open>One entry: the words of the key but the last, the last word, the value.\<close>

type_synonym memory_row = "string list \<times> string \<times> int64"

definition memory_row_ok :: "memory_row \<Rightarrow> bool" where
  "memory_row_ok = (\<lambda>(ws, w, n). list_all (\<lambda>v. plain v \<and> CHR 0x3A \<notin> set v) ws \<and> plain w)"

definition memory_row_tokens :: "memory_row \<Rightarrow> string list" where
  "memory_row_tokens = (\<lambda>(ws, w, n). ws @ [w @ '':'' @ format_int n])"

definition memory_row_entry :: "memory_row \<Rightarrow> string \<times> int64" where
  "memory_row_entry = (\<lambda>(ws, w, n). (join '' '' (ws @ [w]), n))"

definition memory_report :: "memory_row list \<Rightarrow> string" where
  "memory_report rows = join '' '' (concat (map memory_row_tokens rows)) @ [newline]"

lemma last_index_colon:
  "CHR 0x3A \<notin> set t \<Longrightarrow> last_index (s @ '':'' @ t) '':'' = Some (length s)"
proof -
  assume "CHR 0x3A \<notin> set t"
  then have "last_index t '':'' = None"
    by (auto simp: last_index_None_iff)
  then show ?thesis
    using last_index_append [of "'':''" t s] by simp
qed

lemma memory_value_printed: "memory_value (w @ '':'' @ format_int n) = Some (w, n)"
  using last_index_colon [of "format_int n" w] by (simp add: memory_value_def)

lemma is_part_plain: "CHR 0x3A \<notin> set v \<Longrightarrow> is_part v"
proof -
  assume "CHR 0x3A \<notin> set v"
  then have "last_index v '':'' = None"
    by (auto simp: last_index_None_iff)
  then show ?thesis
    by (simp add: is_part_def memory_value_def)
qed

lemma memory_entries_row:
  assumes "memory_row_ok row"
  shows "memory_entries (memory_row_tokens row @ toks) = memory_row_entry row # memory_entries toks"
proof -
  obtain ws w n where row: "row = (ws, w, n)"
    by (cases row)
  have "list_all is_part ws" and "w \<noteq> []"
    using assms by (auto simp: row memory_row_ok_def list_all_iff is_part_plain)
  then have "memory_entries (ws @ (w @ '':'' @ format_int n) # toks)
      = (memory_key ws w, n) # memory_entries toks"
    by (intro memory_entries_run memory_value_printed)
  with \<open>w \<noteq> []\<close> show ?thesis
    by (simp add: row memory_row_tokens_def memory_row_entry_def memory_key_def)
qed

lemma memory_entries_rows:
  "list_all memory_row_ok rows \<Longrightarrow>
    memory_entries (concat (map memory_row_tokens rows)) = map memory_row_entry rows"
  by (induction rows) (simp_all add: memory_entries_row)

lemma join_nonempty: "w \<noteq> [] \<Longrightarrow> join sep (ws @ [w]) \<noteq> []"
  by (induction sep ws rule: join.induct) auto

lemma named_entries_rows:
  assumes "list_all memory_row_ok rows"
  shows "named_entries (concat (map memory_row_tokens rows)) = map memory_row_entry rows"
proof -
  have "fst (memory_row_entry row) \<noteq> []" if "row \<in> set rows" for row
  proof -
    obtain ws w n where row: "row = (ws, w, n)"
      by (cases row)
    have "memory_row_ok row"
      using that assms by (simp add: list_all_iff)
    then have "w \<noteq> []"
      by (auto simp: row memory_row_ok_def)
    then show ?thesis
      by (simp add: row memory_row_entry_def join_nonempty)
  qed
  then show ?thesis
    using assms by (auto simp: named_entries_def memory_entries_rows case_prod_beta filter_id_conv)
qed

lemma memory_row_plain: "memory_row_ok row \<Longrightarrow> list_all plain (memory_row_tokens row)"
  by (cases row) (auto simp: memory_row_ok_def memory_row_tokens_def plain_simps list_all_iff)

lemma memory_tokens_plain:
  "list_all memory_row_ok rows \<Longrightarrow> list_all plain (concat (map memory_row_tokens rows))"
  by (induction rows) (simp_all add: memory_row_plain)

lemma fields_join:
  "list_all plain ws \<Longrightarrow> str_fields (join '' '' ws @ [newline]) = ws"
proof (induction "'' ''" ws rule: join.induct)
  case (2 w)
  then show ?case
    using fields_word_blank [of w newline "[]"] by simp
next
  case (3 w v ws)
  then show ?case
    using fields_word_blank [of w "CHR 0x20" "join '' '' (v # ws) @ [newline]"] by simp
qed simp

section \<open>Properties\<close>

text \<open>The map of \<open>parse_memory\<close> is the one a reading without the accumulator
  gives: the tokens are grouped into keys that end at a token with an integer behind its last
  colon, groups with an empty name are dropped, a later group replaces an earlier one of the
  same name, and the tokens of an unfinished key are ignored.\<close>

lemma memory_groups_tokens:
  "map_get (Usage (memory_of_text text))
     = map_of (rev (filter (\<lambda>(name, n). name \<noteq> []) (memory_entries (str_fields text))))"
  by (simp add: memory_usage_eq named_entries_def map_get_put_all)

text \<open>The report line as a text.\<close>

lemma memory_report_text:
  assumes "list_all memory_row_ok rows" and "distinct (map (fst \<circ> memory_row_entry) rows)"
  shows "list_all ascii (memory_report rows)" and "memory_of_text (memory_report rows) = \<lparr>Usage = map memory_row_entry rows\<rparr>"
proof -
  let ?toks = "concat (map memory_row_tokens rows)"
  have plain: "list_all plain ?toks"
    using assms by (intro memory_tokens_plain)
  then have "list_all ascii (join '' '' ?toks)"
    by (intro join_ascii) (auto simp: list_all_iff [of plain] ascii_def)
  then have "list_all ascii (memory_report rows)"
    by (simp add: memory_report_def)
  moreover have "Usage (memory_of_text (memory_report rows)) = map memory_row_entry rows"
    using assms plain
    by (simp add: memory_usage_eq memory_report_def fields_join named_entries_rows)
  ultimately show "list_all ascii (memory_report rows)" and "memory_of_text (memory_report rows) = \<lparr>Usage = map memory_row_entry rows\<rparr>"
    by simp_all
qed

text \<open>Property C17. Round trip with keys of several words: the report line of any list of
  entries with distinct keys, the words of a key separated by blanks, parses to exactly these
  keys and values.\<close>

theorem memory_report_parsed:
  assumes "list_all memory_row_ok rows" and "distinct (map (fst \<circ> memory_row_entry) rows)"
  shows "parse_memory (json_quote (memory_report rows))
    = Inr \<lparr>Usage = map memory_row_entry rows\<rparr>"
  using mem.parse_quote [OF memory_report_text(1) [OF assms]] memory_report_text(2) [OF assms] by simp

theorem memory_report_parsed_witness:
  "parse_memory (json_quote (memory_report
      [([], ''handlers'', 32), ([''udpif''], ''keys'', 117), ([''baz'', ''qux''], ''q:x'', -1)]))
    = Inr \<lparr>Usage = [(''handlers'', 32), (''udpif keys'', 117), (''baz qux q:x'', -1)]\<rparr>"
  by (subst memory_report_parsed)
    (simp_all add: memory_row_ok_def memory_row_entry_def plain_def ascii_def blank_def)

end
