(* ===== verification/Dpif.thy ===== *)
theory Dpif
  imports Appctl
begin

text \<open>
  \<^verbatim>\<open>internal/unixctl/dpif.go\<close>: the parser of \<^verbatim>\<open>ovs-appctl dpif/show\<close>. The loop keeps two
  pointers, \<^verbatim>\<open>curDP\<close> and \<^verbatim>\<open>curBridge\<close>. A pointer to a datapath is always the value the map
  \<^verbatim>\<open>Datapaths\<close> holds for its name, and a pointer to a bridge the value \<^verbatim>\<open>curDP.Bridges\<close> holds
  for its name (each is stored there when the pointer is set, and a later store under the same
  name moves the pointer to the new object), so the state names the objects by their keys.
\<close>

record dpif_lookups =
  Hit :: int64
  Missed :: int64
  Lost :: int64

record dpif_port =
  Port_Name :: string
  PortNo :: int64
  OFPortNo :: string
  Port_Type :: string

record dpif_bridge =
  Bridge_Name :: string
  Bridge_Ports :: "dpif_port list"

record dpif_datapath =
  DP_Name :: string
  DP_Lookups :: dpif_lookups
  DP_Bridges :: "(string, dpif_bridge) gomap"

record dpif =
  DPIF_Datapaths :: "(string, dpif_datapath) gomap"

definition no_lookups :: dpif_lookups where
  "no_lookups = \<lparr>Hit = 0, Missed = 0, Lost = 0\<rparr>"

section \<open>Lines\<close>

text \<open>\<^verbatim>\<open>^(\S+)\s+(\d+)/(\S+):\s*\(([^:)]+)\<close>\<close>

definition portLineRE :: rx where
  "portLineRE =
     [Cap cls_nonspace, Plus cls_space, Cap is_digit, Lit (CHR ''/''), Cap cls_nonspace,
      Lit (CHR 0x3A), Star cls_space, Lit (CHR ''(''),
      Cap (\<lambda>c. c \<noteq> CHR 0x3A \<and> c \<noteq> CHR '')'')]"

definition parse_dpif_port_line :: "string \<Rightarrow> dpif_port option" where
  "parse_dpif_port_line line =
     (case rx_submatch portLineRE line of
        Some [m1, m2, m3, m4] \<Rightarrow>
          (case parse_int m2 of
             None \<Rightarrow> None
           | Some portNo \<Rightarrow>
               Some \<lparr>Port_Name = m1, PortNo = portNo, OFPortNo = m3, Port_Type = trim_space m4\<rparr>)
      | _ \<Rightarrow> None)"

text \<open>One \<^verbatim>\<open>key:int\<close> token of the lookup counters; the flag is \<^verbatim>\<open>seen\<close>.\<close>

definition dpif_lookup_token :: "dpif_lookups \<times> bool \<Rightarrow> string \<Rightarrow> dpif_lookups \<times> bool" where
  "dpif_lookup_token = (\<lambda>(l, seen) tok.
     (case str_cut (CHR 0x3A) tok of
        None \<Rightarrow> (l, seen)
      | Some (k, v) \<Rightarrow>
          (case parse_int v of
             None \<Rightarrow> (l, seen)
           | Some n \<Rightarrow>
               if k = ''hit'' then (l\<lparr>Hit := n\<rparr>, True)
               else if k = ''missed'' then (l\<lparr>Missed := n\<rparr>, True)
               else if k = ''lost'' then (l\<lparr>Lost := n\<rparr>, True)
               else (l, seen))))"

definition parse_dpif_datapath_line :: "string \<Rightarrow> dpif_datapath option" where
  "parse_dpif_datapath_line line =
     (case str_cut (CHR 0x3A) line of
        None \<Rightarrow> None
      | Some (name, rest) \<Rightarrow>
          if name = [] then None
          else
            (let (l, seen) = foldl dpif_lookup_token (no_lookups, False) (str_fields rest)
             in if seen then Some \<lparr>DP_Name = name, DP_Lookups = l, DP_Bridges = []\<rparr> else None))"

section \<open>The loop over the lines\<close>

record dpif_state =
  Out :: "(string, dpif_datapath) gomap"
  CurDP :: "string option"
  CurBridge :: "string option"

definition dpif_init :: dpif_state where
  "dpif_init = \<lparr>Out = [], CurDP = None, CurBridge = None\<rparr>"

definition add_port :: "dpif_port \<Rightarrow> dpif_bridge \<Rightarrow> dpif_bridge" where
  "add_port p b = b\<lparr>Bridge_Ports := Bridge_Ports b @ [p]\<rparr>"

definition adjust_bridges ::
    "((string, dpif_bridge) gomap \<Rightarrow> (string, dpif_bridge) gomap) \<Rightarrow> dpif_datapath \<Rightarrow> dpif_datapath"
  where
  "adjust_bridges f d = d\<lparr>DP_Bridges := f (DP_Bridges d)\<rparr>"

definition dpif_port_case :: "dpif_state \<Rightarrow> string \<Rightarrow> dpif_state" where
  "dpif_port_case st line =
     (case (CurDP st, CurBridge st) of
        (Some d, Some b) \<Rightarrow>
          (case parse_dpif_port_line (trim_left [CHR 0x20, tab] line) of
             None \<Rightarrow> st
           | Some port \<Rightarrow>
               st\<lparr>Out := map_adjust d (adjust_bridges (map_adjust b (add_port port))) (Out st)\<rparr>)
      | _ \<Rightarrow> st)"

definition dpif_bridge_case :: "dpif_state \<Rightarrow> string \<Rightarrow> dpif_state" where
  "dpif_bridge_case st line =
     (case CurDP st of
        None \<Rightarrow> st
      | Some d \<Rightarrow>
          (let trimmed = trim_space line
           in if \<not> has_suffix trimmed '':'' then st
              else
                (let name = trim_suffix trimmed '':''
                 in st\<lparr>Out := map_adjust d
                         (adjust_bridges (map_put name \<lparr>Bridge_Name = name, Bridge_Ports = []\<rparr>))
                         (Out st),
                       CurBridge := Some name\<rparr>)))"

definition dpif_datapath_case :: "dpif_state \<Rightarrow> string \<Rightarrow> dpif_state" where
  "dpif_datapath_case st line =
     (case parse_dpif_datapath_line line of
        None \<Rightarrow> st
      | Some dp \<Rightarrow>
          \<lparr>Out = map_put (DP_Name dp) dp (Out st), CurDP = Some (DP_Name dp), CurBridge = None\<rparr>)"

definition dpif_line :: "dpif_state \<Rightarrow> string \<Rightarrow> dpif_state" where
  "dpif_line st line =
     (if line = [] then st
      else if has_prefix line ''    '' then dpif_port_case st line
      else if has_prefix line ''  '' then dpif_bridge_case st line
      else dpif_datapath_case st line)"

definition dpif_of_text :: "string \<Rightarrow> dpif" where
  "dpif_of_text text =
     \<lparr>DPIF_Datapaths = Out (foldl dpif_line dpif_init (split_on newline text))\<rparr>"

definition parse_dpif :: "string \<Rightarrow> parse_error + dpif" where
  "parse_dpif raw =
     (case json_unmarshal_string raw of
        None \<Rightarrow> Inl (Unmarshal_error ''dpif'')
      | Some text \<Rightarrow> Inr (dpif_of_text text))"

section \<open>Invariant\<close>

text \<open>
  The keys of every map are the names of the values, names of datapaths are not empty and hold
  no colon, the port numbers are not negative, and the current bridge is a bridge of the
  current datapath.
\<close>

definition port_ok :: "dpif_port \<Rightarrow> bool" where
  "port_ok p \<longleftrightarrow> 0 \<le> sint (PortNo p) \<and> Port_Name p \<noteq> [] \<and> OFPortNo p \<noteq> []"

definition bridge_ok :: "string \<times> dpif_bridge \<Rightarrow> bool" where
  "bridge_ok = (\<lambda>(k, b). Bridge_Name b = k \<and> list_all port_ok (Bridge_Ports b))"

definition datapath_ok :: "string \<times> dpif_datapath \<Rightarrow> bool" where
  "datapath_ok = (\<lambda>(k, d). DP_Name d = k \<and> k \<noteq> [] \<and> CHR 0x3A \<notin> set k
     \<and> map_ok (DP_Bridges d) \<and> list_all bridge_ok (DP_Bridges d))"

definition datapaths_ok :: "(string, dpif_datapath) gomap \<Rightarrow> bool" where
  "datapaths_ok m \<longleftrightarrow> map_ok m \<and> list_all datapath_ok m"

definition dpif_ok :: "dpif \<Rightarrow> bool" where
  "dpif_ok d \<longleftrightarrow> datapaths_ok (DPIF_Datapaths d)"

lemma parse_port_line_ok: "parse_dpif_port_line line = Some p \<Longrightarrow> port_ok p"
  by (auto simp: parse_dpif_port_line_def port_ok_def portLineRE_def
      split: option.splits list.splits dest!: rx_submatch_groups intro: parse_int_digits)

lemma cut_key: "str_cut d s = Some (k, v) \<Longrightarrow> d \<notin> set k"
  by (auto simp: str_cut_def split: if_splits dest: set_takeWhileD)

lemma parse_datapath_line_ok: "parse_dpif_datapath_line line = Some d \<Longrightarrow> datapath_ok (DP_Name d, d)"
  by (auto simp: parse_dpif_datapath_line_def datapath_ok_def dest: cut_key
      split: option.splits if_splits prod.splits)

lemma datapaths_ok_adjust:
  assumes "datapaths_ok m"
    and "\<And>bs. map_ok bs \<Longrightarrow> list_all bridge_ok bs \<Longrightarrow> map_ok (f bs) \<and> list_all bridge_ok (f bs)"
  shows "datapaths_ok (map_adjust k (adjust_bridges f) m)"
  using assms unfolding datapaths_ok_def
  by (auto intro!: list_all_adjust simp: datapath_ok_def adjust_bridges_def)

lemma dpif_line_ok: "datapaths_ok (Out st) \<Longrightarrow> datapaths_ok (Out (dpif_line st line))"
proof -
  assume ok: "datapaths_ok (Out st)"
  have "datapaths_ok (Out (dpif_port_case st line))"
    using ok parse_port_line_ok
    by (auto simp: dpif_port_case_def bridge_ok_def add_port_def
        split: option.splits intro!: datapaths_ok_adjust list_all_adjust)
  moreover have "datapaths_ok (Out (dpif_bridge_case st line))"
    using ok
    by (auto simp: dpif_bridge_case_def Let_def bridge_ok_def
        split: option.splits intro!: datapaths_ok_adjust list_all_put)
  moreover have "datapaths_ok (Out (dpif_datapath_case st line))"
    using ok parse_datapath_line_ok
    by (auto simp: dpif_datapath_case_def datapaths_ok_def
        split: option.splits intro!: list_all_put)
  ultimately show ?thesis
    using ok by (simp add: dpif_line_def)
qed

lemma dpif_of_text_ok: "dpif_ok (dpif_of_text text)"
  unfolding dpif_ok_def dpif_of_text_def dpif.simps
  by (rule foldl_invariant [where P = "\<lambda>st. datapaths_ok (Out st)"])
    (rule dpif_line_ok, assumption, simp add: dpif_init_def datapaths_ok_def)

interpretation dpif_p: appctl_parser "''dpif''" parse_dpif dpif_of_text dpif_ok
  by unfold_locales (simp_all add: parse_dpif_def dpif_of_text_ok)

section \<open>Which port lines are read\<close>

text \<open>A line of the form \<^verbatim>\<open>name  portno/ofportno:  (type...\<close>.\<close>

definition port_split :: "string \<Rightarrow> nat list \<Rightarrow> string list \<Rightarrow> bool" where
  "port_split line ns gs \<longleftrightarrow>
     (\<exists>name ws no ofp vs ty rest.
        line = name @ ws @ no @ CHR ''/'' # ofp @ CHR 0x3A # vs @ CHR ''('' # ty @ rest
        \<and> ns = map length [name, ws, no, ofp, vs, ty] \<and> gs = [name, no, ofp, ty]
        \<and> [] \<notin> {name, ws, no, ofp, ty} \<and> list_all cls_nonspace name \<and> list_all cls_space ws
        \<and> list_all is_digit no \<and> list_all cls_nonspace ofp \<and> list_all cls_space vs
        \<and> list_all (\<lambda>c. c \<noteq> CHR 0x3A \<and> c \<noteq> CHR '')'') ty)"

lemma port_runs: "(\<exists>rest. rx_runs portLineRE line ns gs rest) \<longleftrightarrow> port_split line ns gs"
proof
  assume "\<exists>rest. rx_runs portLineRE line ns gs rest"
  then show "port_split line ns gs"
    unfolding portLineRE_def port_split_def
    by (auto elim!: runs_star_case runs_plus_case runs_cap_case) blast
next
  assume "port_split line ns gs"
  then show "\<exists>rest. rx_runs portLineRE line ns gs rest"
    unfolding portLineRE_def port_split_def
    by (auto simp del: append.simps intro!: runs_cap runs_plus runs_star runs_lit runs_done)
qed

lemma port_split_unique:
  assumes "port_split line ns gs" and "port_split line ns' gs'" and "ns' \<le> ns"
  shows "\<exists>name no ofp ty ofp' ty'. gs = [name, no, ofp, ty] \<and> gs' = [name, no, ofp', ty']
    \<and> length ofp' \<le> length ofp \<and> (ofp' = ofp \<longrightarrow> length ty' \<le> length ty)"
proof -
  obtain name ws no ofp vs ty rest where
    l: "line = name @ ws @ no @ CHR ''/'' # ofp @ CHR 0x3A # vs @ CHR ''('' # ty @ rest"
      "ns = map length [name, ws, no, ofp, vs, ty]" "gs = [name, no, ofp, ty]"
    and c: "[] \<notin> {name, ws, no, ofp, ty}" "list_all cls_nonspace name" "list_all cls_space ws"
      "list_all is_digit no" "list_all cls_space vs"
    using assms(1) unfolding port_split_def by blast
  obtain name' ws' no' ofp' vs' ty' rest' where
    l': "line = name' @ ws' @ no' @ CHR ''/'' # ofp' @ CHR 0x3A # vs' @ CHR ''('' # ty' @ rest'"
      "ns' = map length [name', ws', no', ofp', vs', ty']" "gs' = [name', no', ofp', ty']"
    and c': "[] \<notin> {name', ws', no', ofp', ty'}" "list_all cls_nonspace name'" "list_all cls_space ws'"
      "list_all is_digit no'" "list_all cls_space vs'"
    using assms(2) unfolding port_split_def by blast
  have hd: "cls_space (hd ws)" "is_digit (hd no)" "cls_space (hd ws')" "is_digit (hd no')"
    using c c' by (auto simp: list_all_iff)
  have 1: "name = name' \<and> ws @ no @ CHR ''/'' # ofp @ CHR 0x3A # vs @ CHR ''('' # ty @ rest
      = ws' @ no' @ CHR ''/'' # ofp' @ CHR 0x3A # vs' @ CHR ''('' # ty' @ rest'"
    using l(1) l'(1) c c' hd by (intro run_unique [where p = cls_nonspace]) (auto simp: cls_nonspace_def)
  then have 2: "ws = ws' \<and> no @ CHR ''/'' # ofp @ CHR 0x3A # vs @ CHR ''('' # ty @ rest
      = no' @ CHR ''/'' # ofp' @ CHR 0x3A # vs' @ CHR ''('' # ty' @ rest'"
    using c c' hd by (intro run_unique [where p = cls_space]) auto
  then have 3: "no = no' \<and> CHR ''/'' # ofp @ CHR 0x3A # vs @ CHR ''('' # ty @ rest
      = CHR ''/'' # ofp' @ CHR 0x3A # vs' @ CHR ''('' # ty' @ rest'"
    using c c' hd by (intro run_unique [where p = is_digit]) (auto simp: is_digit_def)
  have le: "length ofp' \<le> length ofp"
    "length ofp' = length ofp \<Longrightarrow> length vs' = length vs \<Longrightarrow> length ty' \<le> length ty"
    using assms(3) 1 2 3 by (auto simp: l(2) l'(2))
  moreover have "vs = vs'" if "ofp' = ofp"
  proof -
    have "vs @ CHR ''('' # ty @ rest = vs' @ CHR ''('' # ty' @ rest'"
      using 3 that by simp
    then show ?thesis
      using run_unique [where p = cls_space, OF _ c(5) c'(5)] by (auto simp: cls_space_def)
  qed
  ultimately show ?thesis
    using l(3) l'(3) 1 2 3 by simp
qed

text \<open>The preferred decomposition of a line, if there is one.\<close>

lemma port_line_match:
  "case rx_submatch portLineRE line of
     None \<Rightarrow> \<nexists>ns gs. port_split line ns gs
   | Some gs \<Rightarrow> \<exists>ns. port_split line ns gs \<and> (\<forall>ns' gs'. port_split line ns' gs' \<longrightarrow> ns' \<le> ns)"
  using rx_match_preferred [of portLineRE line] port_runs [of line]
  by (auto simp: rx_submatch_def preferred_def split: option.splits)

section \<open>Reports as ovs-vswitchd prints them\<close>

text \<open>
  A port of the switch. Its line has the OpenFlow number first and the number in the datapath second, or
  \<^verbatim>\<open>none\<close> for a port that is not in the datapath (a patch port), then the type and the details it has
  (\<open>SP_Options\<close>), which are dropped. The captured report under \<^verbatim>\<open>testdata\<close> shows that order: \<^verbatim>\<open>eth0 1/3\<close> is
  \<^verbatim>\<open>port 3: eth0\<close> in the report of the datapath.
\<close>

record printed_port =
  SP_Name :: string
  SP_OpenFlow :: int64
  SP_Datapath :: "int64 option"
  SP_Type :: string
  SP_Options :: string

definition datapath_number :: "int64 option \<Rightarrow> string" where
  "datapath_number n = (case n of None \<Rightarrow> ''none'' | Some d \<Rightarrow> format_int d)"

text \<open>
  What the parser makes of it: \<open>PortNo\<close> is the OpenFlow number, \<open>OFPortNo\<close> the text of the number in the
  datapath, the reverse of what the names of the fields say.
\<close>

definition port_value :: "printed_port \<Rightarrow> dpif_port" where
  "port_value p = \<lparr>Port_Name = SP_Name p, PortNo = SP_OpenFlow p, OFPortNo = datapath_number (SP_Datapath p),
     Port_Type = SP_Type p\<rparr>"

type_synonym printed_bridge = "string \<times> printed_port list"
type_synonym printed_datapath = "string \<times> dpif_lookups \<times> printed_bridge list"

definition port_text :: "printed_port \<Rightarrow> string" where
  "port_text p =
     ''    '' @ SP_Name p @ '' '' @ format_int (SP_OpenFlow p) @ ''/'' @ datapath_number (SP_Datapath p)
       @ '': ('' @ SP_Type p @ (if SP_Options p = [] then '')'' else '': '' @ SP_Options p @ '')'')"

definition bridge_text :: "string \<Rightarrow> string" where
  "bridge_text name = ''  '' @ name @ '':''"

definition datapath_text :: "string \<Rightarrow> dpif_lookups \<Rightarrow> string" where
  "datapath_text name l =
     name @ '': hit:'' @ format_int (Hit l) @ '' missed:'' @ format_int (Missed l)
       @ (if Lost l = 0 then [] else '' lost:'' @ format_int (Lost l))"

definition bridge_lines :: "printed_bridge \<Rightarrow> string list" where
  "bridge_lines = (\<lambda>(name, ports). bridge_text name # map port_text ports)"

definition datapath_lines :: "printed_datapath \<Rightarrow> string list" where
  "datapath_lines = (\<lambda>(name, l, bridges). datapath_text name l # concat (map bridge_lines bridges))"

definition dpif_report :: "printed_datapath list \<Rightarrow> string" where
  "dpif_report dps = join [newline] (concat (map datapath_lines dps) @ [[]])"

definition printed_port_ok :: "printed_port \<Rightarrow> bool" where
  "printed_port_ok p \<longleftrightarrow>
     plain (SP_Name p) \<and> 0 \<le> sint (SP_OpenFlow p)
     \<and> plain (SP_Type p) \<and> CHR 0x3A \<notin> set (SP_Type p) \<and> CHR '')'' \<notin> set (SP_Type p)
     \<and> list_all ascii (SP_Options p) \<and> newline \<notin> set (SP_Options p)"

lemma plain_datapath_number [simp]: "plain (datapath_number n)"
  by (cases n) (simp_all add: datapath_number_def plain_simps)

definition printed_bridge_ok :: "printed_bridge \<Rightarrow> bool" where
  "printed_bridge_ok = (\<lambda>(name, ports). plain name \<and> list_all printed_port_ok ports)"

definition printed_datapath_ok :: "printed_datapath \<Rightarrow> bool" where
  "printed_datapath_ok = (\<lambda>(name, l, bridges).
     plain name \<and> CHR 0x3A \<notin> set name \<and> list_all printed_bridge_ok bridges
     \<and> distinct (map fst bridges))"

definition bridge_value :: "printed_bridge \<Rightarrow> dpif_bridge" where
  "bridge_value = (\<lambda>(name, ports). \<lparr>Bridge_Name = name, Bridge_Ports = map port_value ports\<rparr>)"

definition bridge_entry :: "printed_bridge \<Rightarrow> string \<times> dpif_bridge" where
  "bridge_entry b = (fst b, bridge_value b)"

definition datapath_value :: "printed_datapath \<Rightarrow> dpif_datapath" where
  "datapath_value = (\<lambda>(name, l, bridges).
     \<lparr>DP_Name = name, DP_Lookups = l, DP_Bridges = map bridge_entry bridges\<rparr>)"

definition datapath_entry :: "printed_datapath \<Rightarrow> string \<times> dpif_datapath" where
  "datapath_entry d = (fst d, datapath_value d)"

lemma rx_match_port:
  assumes "plain w1" and "list_all is_digit w2" and "w2 \<noteq> []" and "plain w3"
    and "w4 \<noteq> []" and "CHR 0x3A \<notin> set w4" and "CHR '')'' \<notin> set w4"
    and "hd t \<in> {CHR 0x3A, CHR '')''}"
  shows "rx_match portLineRE
      (w1 @ CHR 0x20 # (w2 @ CHR ''/'' # (w3 @ CHR 0x3A # CHR 0x20 # CHR ''('' # (w4 @ t))))
    = Some ([w1, w2, w3, w4], t)"
proof -
  let ?close = "\<lambda>c. c \<noteq> CHR 0x3A \<and> c \<noteq> CHR '')''"
  have s4: "rx_match [Cap ?close] (w4 @ t) = Some ([w4], t)"
    using assms by (intro rx_cap_run) (auto simp: list_all_iff)
  have s3: "rx_match [Star cls_space, Lit (CHR ''(''), Cap ?close] ([CHR 0x20] @ CHR ''('' # (w4 @ t))
      = Some ([w4], t)"
    using s4 by (intro rx_star_run) (auto simp: cls_space_def)
  have s2: "rx_match [Cap cls_nonspace, Lit (CHR 0x3A), Star cls_space, Lit (CHR ''(''), Cap ?close]
      (w3 @ CHR 0x3A # CHR 0x20 # CHR ''('' # (w4 @ t)) = Some ([w3, w4], t)"
    using s3 assms plain_nonspace [of w3]
    by (intro rx_cap_giveback) (auto simp: cls_nonspace_def cls_space_def)
  have s1: "rx_match [Cap is_digit, Lit (CHR ''/''), Cap cls_nonspace, Lit (CHR 0x3A), Star cls_space,
        Lit (CHR ''(''), Cap ?close]
      (w2 @ CHR ''/'' # (w3 @ CHR 0x3A # CHR 0x20 # CHR ''('' # (w4 @ t))) = Some ([w2, w3, w4], t)"
    using s2 assms by (intro rx_cap_run) (auto simp: is_digit_def)
  have s0: "rx_match (tl portLineRE)
      ([CHR 0x20] @ (w2 @ CHR ''/'' # (w3 @ CHR 0x3A # CHR 0x20 # CHR ''('' # (w4 @ t))))
      = Some ([w2, w3, w4], t)"
    using s1 assms unfolding portLineRE_def list.sel
    by (intro rx_plus_run) (auto simp: cls_space_def list_all_iff is_digit_def neq_Nil_conv)
  have "rx_match (Cap cls_nonspace # tl portLineRE)
      (w1 @ [CHR 0x20] @ (w2 @ CHR ''/'' # (w3 @ CHR 0x3A # CHR 0x20 # CHR ''('' # (w4 @ t))))
      = Some ([w1, w2, w3, w4], t)"
    using s0 assms plain_nonspace [of w1]
    by (intro rx_cap_run) (auto simp: cls_nonspace_def cls_space_def)
  then show ?thesis
    by (simp add: portLineRE_def)
qed

lemma parse_port_printed:
  assumes "printed_port_ok p"
  shows "parse_dpif_port_line (trim_left [CHR 0x20, tab] (port_text p)) = Some (port_value p)"
proof -
  let ?t = "if SP_Options p = [] then '')'' else '': '' @ SP_Options p @ '')''"
  let ?line = "SP_Name p @ CHR 0x20 # (format_int (SP_OpenFlow p) @ CHR ''/''
    # (datapath_number (SP_Datapath p) @ CHR 0x3A # CHR 0x20 # CHR ''('' # (SP_Type p @ ?t)))"
  have ok: "plain (SP_Name p)" "0 \<le> sint (SP_OpenFlow p)" "plain (SP_Type p)"
    "CHR 0x3A \<notin> set (SP_Type p)" "CHR '')'' \<notin> set (SP_Type p)"
    using assms by (auto simp: printed_port_ok_def)
  have pt: "port_text p = CHR 0x20 # CHR 0x20 # CHR 0x20 # CHR 0x20 # ?line"
    by (simp add: port_text_def)
  obtain c cs where c: "SP_Name p = c # cs"
    using ok(1) by (cases "SP_Name p") auto
  then have "c \<noteq> CHR 0x20" "c \<noteq> tab"
    using plain_no_blank [OF ok(1), of "CHR 0x20"] plain_no_blank [OF ok(1), of tab] by auto
  with c have "trim_left [CHR 0x20, tab] (port_text p) = ?line"
    by (simp add: pt trim_left_def)
  moreover have "rx_match portLineRE ?line
      = Some ([SP_Name p, format_int (SP_OpenFlow p), datapath_number (SP_Datapath p), SP_Type p], ?t)"
    using ok by (intro rx_match_port) (auto simp: format_int_digits)
  moreover have "trim_space (SP_Type p) = SP_Type p"
    using ok by simp
  ultimately show ?thesis
    by (simp add: parse_dpif_port_line_def rx_submatch_def port_value_def)
qed

lemma lookup_tokens:
  "dpif_lookup_token (l, b) (''hit:'' @ format_int n) = (l\<lparr>Hit := n\<rparr>, True)"
  "dpif_lookup_token (l, b) (''missed:'' @ format_int n) = (l\<lparr>Missed := n\<rparr>, True)"
  "dpif_lookup_token (l, b) (''lost:'' @ format_int n) = (l\<lparr>Lost := n\<rparr>, True)"
  by (simp_all add: dpif_lookup_token_def str_cut_def)

lemma fields_plain_blank: "plain w \<Longrightarrow> blank c \<Longrightarrow> str_fields (w @ c # s) = w # str_fields s"
  by (simp add: fields_word_blank)

lemma lookup_fields:
  "str_fields ('' hit:'' @ format_int h @ '' missed:'' @ format_int m @ [])
     = [''hit:'' @ format_int h, ''missed:'' @ format_int m]"
  "str_fields ('' hit:'' @ format_int h @ '' missed:'' @ format_int m @ '' lost:'' @ format_int k)
     = [''hit:'' @ format_int h, ''missed:'' @ format_int m, ''lost:'' @ format_int k]"
proof -
  have p: "plain (''hit:'' @ format_int n)" "plain (''missed:'' @ format_int n)"
    "plain (''lost:'' @ format_int n)" for n
    by (simp_all add: plain_simps)
  show "str_fields ('' hit:'' @ format_int h @ '' missed:'' @ format_int m @ [])
     = [''hit:'' @ format_int h, ''missed:'' @ format_int m]"
    using fields_plain_blank [OF p(1), of "CHR 0x20" h "''missed:'' @ format_int m"] p
    by simp
  show "str_fields ('' hit:'' @ format_int h @ '' missed:'' @ format_int m @ '' lost:'' @ format_int k)
     = [''hit:'' @ format_int h, ''missed:'' @ format_int m, ''lost:'' @ format_int k]"
    using fields_plain_blank [OF p(1), of "CHR 0x20" h
        "''missed:'' @ format_int m @ '' lost:'' @ format_int k"]
      fields_plain_blank [OF p(2), of "CHR 0x20" m "''lost:'' @ format_int k"] p
    by simp
qed

lemma parse_datapath_printed:
  assumes "name \<noteq> []" and "CHR 0x3A \<notin> set name"
  shows "parse_dpif_datapath_line (datapath_text name l)
    = Some \<lparr>DP_Name = name, DP_Lookups = l, DP_Bridges = []\<rparr>"
proof -
  let ?rest = "'' hit:'' @ format_int (Hit l) @ '' missed:'' @ format_int (Missed l)
    @ (if Lost l = 0 then [] else '' lost:'' @ format_int (Lost l))"
  have "datapath_text name l = name @ CHR 0x3A # ?rest"
    by (simp add: datapath_text_def)
  then have "str_cut (CHR 0x3A) (datapath_text name l) = Some (name, ?rest)"
    using cut_append [OF assms(2), of ?rest] by simp
  moreover have "foldl dpif_lookup_token (no_lookups, False) (str_fields ?rest) = (l, True)"
  proof (cases "Lost l = 0")
    case True
    then have "foldl dpif_lookup_token (no_lookups, False) (str_fields ?rest)
        = foldl dpif_lookup_token (no_lookups, False)
            [''hit:'' @ format_int (Hit l), ''missed:'' @ format_int (Missed l)]"
      by (simp only: lookup_fields simp_thms if_True)
    with True show ?thesis
      by (simp only: foldl.simps lookup_tokens) (simp add: no_lookups_def)
  next
    case False
    then have "foldl dpif_lookup_token (no_lookups, False) (str_fields ?rest)
        = foldl dpif_lookup_token (no_lookups, False)
            [''hit:'' @ format_int (Hit l), ''missed:'' @ format_int (Missed l),
             ''lost:'' @ format_int (Lost l)]"
      by (simp only: lookup_fields if_False)
    then show ?thesis
      by (simp only: foldl.simps lookup_tokens) (simp add: no_lookups_def)
  qed
  ultimately show ?thesis
    using assms by (simp add: parse_dpif_datapath_line_def)
qed

text \<open>How the three kinds of printed lines move the state of the loop.\<close>

lemma plain_hd: "plain w \<Longrightarrow> w = c # cs \<Longrightarrow> c \<noteq> CHR 0x20"
  using plain_no_blank [of w "CHR 0x20"] by auto

lemma dpif_line_port:
  assumes "printed_port_ok q" and "d \<notin> set (map_keys out)"
    and "b \<notin> set (map_keys bs)" and "DP_Bridges x = bs @ [(b, y)]"
  shows "dpif_line \<lparr>Out = out @ [(d, x)], CurDP = Some d, CurBridge = Some b\<rparr> (port_text q)
    = \<lparr>Out = out @ [(d, x\<lparr>DP_Bridges := bs @ [(b, add_port (port_value q) y)]\<rparr>)], CurDP = Some d,
       CurBridge = Some b\<rparr>"
proof -
  have "has_prefix (port_text q) ''    ''" and "port_text q \<noteq> []"
    by (simp_all add: port_text_def)
  then show ?thesis
    using assms parse_port_printed [of q]
    by (simp add: dpif_line_def dpif_port_case_def adjust_bridges_def)
qed

lemma dpif_line_bridge:
  assumes "plain name" and "d \<notin> set (map_keys out)" and "name \<notin> set (map_keys (DP_Bridges x))"
  shows "dpif_line \<lparr>Out = out @ [(d, x)], CurDP = Some d, CurBridge = cb\<rparr> (bridge_text name)
    = \<lparr>Out = out @ [(d, x\<lparr>DP_Bridges := DP_Bridges x
         @ [(name, \<lparr>Bridge_Name = name, Bridge_Ports = []\<rparr>)]\<rparr>)],
       CurDP = Some d, CurBridge = Some name\<rparr>"
proof -
  obtain c cs where c: "name = c # cs"
    using assms(1) by (cases name) auto
  with assms(1) have "c \<noteq> CHR 0x20"
    by (rule plain_hd)
  have "plain (name @ '':'')"
    using assms(1) by (simp add: plain_simps)
  then have "trim_space (bridge_text name) = name @ '':''"
    by (simp add: bridge_text_def)
  moreover have "bridge_text name \<noteq> []" "\<not> has_prefix (bridge_text name) ''    ''"
    "has_prefix (bridge_text name) ''  ''"
    using \<open>c \<noteq> CHR 0x20\<close> by (simp_all add: bridge_text_def c)
  ultimately show ?thesis
    using assms has_suffix_append [of name "'':''"] trim_suffix_append [of name "'':''"]
    by (simp add: dpif_line_def dpif_bridge_case_def adjust_bridges_def Let_def
        del: has_suffix_append trim_suffix_append)
qed

lemma dpif_line_datapath:
  assumes "plain name" and "CHR 0x3A \<notin> set name" and "name \<notin> set (map_keys out)"
  shows "dpif_line \<lparr>Out = out, CurDP = cd, CurBridge = cb\<rparr> (datapath_text name l)
    = \<lparr>Out = out @ [(name, \<lparr>DP_Name = name, DP_Lookups = l, DP_Bridges = []\<rparr>)],
       CurDP = Some name, CurBridge = None\<rparr>"
proof -
  obtain c cs where c: "name = c # cs"
    using assms(1) by (cases name) auto
  with assms(1) have "c \<noteq> CHR 0x20"
    by (rule plain_hd)
  then have "datapath_text name l \<noteq> []" "\<not> has_prefix (datapath_text name l) ''    ''"
    "\<not> has_prefix (datapath_text name l) ''  ''"
    by (simp_all add: datapath_text_def c)
  moreover have "parse_dpif_datapath_line (datapath_text name l)
      = Some \<lparr>DP_Name = name, DP_Lookups = l, DP_Bridges = []\<rparr>"
    using assms c by (intro parse_datapath_printed) auto
  ultimately show ?thesis
    using assms by (simp add: dpif_line_def dpif_datapath_case_def)
qed

lemma dpif_lines_ports:
  assumes "list_all printed_port_ok ports" and "d \<notin> set (map_keys out)"
    and "b \<notin> set (map_keys bs)" and "DP_Bridges x = bs @ [(b, \<lparr>Bridge_Name = b, Bridge_Ports = ps\<rparr>)]"
  shows "foldl dpif_line \<lparr>Out = out @ [(d, x)], CurDP = Some d, CurBridge = Some b\<rparr>
      (map port_text ports)
    = \<lparr>Out = out @ [(d, x\<lparr>DP_Bridges := bs
         @ [(b, \<lparr>Bridge_Name = b, Bridge_Ports = ps @ map port_value ports\<rparr>)]\<rparr>)], CurDP = Some d,
       CurBridge = Some b\<rparr>"
  using assms
proof (induction ports arbitrary: x ps)
  case Nil
  then have "x\<lparr>DP_Bridges := bs @ [(b, \<lparr>Bridge_Name = b, Bridge_Ports = ps\<rparr>)]\<rparr> = x"
    by (metis dpif_datapath.surjective dpif_datapath.update_convs(3))
  then show ?case by simp
next
  case (Cons q ports)
  then show ?case
    by (simp add: dpif_line_port [OF _ _ _ Cons.prems(4)] add_port_def)
qed

lemma dpif_lines_bridges:
  assumes "list_all printed_bridge_ok bridges" and "d \<notin> set (map_keys out)"
    and "distinct (map_keys (DP_Bridges x) @ map fst bridges)"
  shows "\<exists>cb. foldl dpif_line \<lparr>Out = out @ [(d, x)], CurDP = Some d, CurBridge = cb0\<rparr>
      (concat (map bridge_lines bridges))
    = \<lparr>Out = out @ [(d, x\<lparr>DP_Bridges := DP_Bridges x @ map bridge_entry bridges\<rparr>)],
       CurDP = Some d, CurBridge = cb\<rparr>"
  using assms
proof (induction bridges arbitrary: x cb0)
  case (Cons br bridges)
  obtain name ports where br: "br = (name, ports)" by force
  let ?x = "x\<lparr>DP_Bridges := DP_Bridges x
    @ [(name, \<lparr>Bridge_Name = name, Bridge_Ports = map port_value ports\<rparr>)]\<rparr>"
  have name: "plain name" "list_all printed_port_ok ports" "name \<notin> set (map_keys (DP_Bridges x))"
    using Cons.prems by (auto simp: br printed_bridge_ok_def)
  have "foldl dpif_line \<lparr>Out = out @ [(d, x)], CurDP = Some d, CurBridge = cb0\<rparr> (bridge_lines br)
      = \<lparr>Out = out @ [(d, ?x)], CurDP = Some d, CurBridge = Some name\<rparr>"
    using Cons.prems(2) name
    by (simp add: br bridge_lines_def dpif_line_bridge
        dpif_lines_ports [where bs = "DP_Bridges x" and ps = "[]"])
  moreover have "\<exists>cb. foldl dpif_line \<lparr>Out = out @ [(d, ?x)], CurDP = Some d, CurBridge = Some name\<rparr>
      (concat (map bridge_lines bridges))
    = \<lparr>Out = out @ [(d, ?x\<lparr>DP_Bridges := DP_Bridges ?x @ map bridge_entry bridges\<rparr>)],
       CurDP = Some d, CurBridge = cb\<rparr>"
    using Cons.prems by (intro Cons.IH) (auto simp: br)
  moreover have "bridge_entry br = (name, \<lparr>Bridge_Name = name, Bridge_Ports = map port_value ports\<rparr>)"
    by (simp add: br bridge_entry_def bridge_value_def)
  ultimately show ?case
    by simp
qed simp

lemma dpif_lines_datapath:
  assumes "printed_datapath_ok dp" and "fst dp \<notin> set (map_keys out)"
  shows "\<exists>cd cb. foldl dpif_line \<lparr>Out = out, CurDP = cd0, CurBridge = cb0\<rparr> (datapath_lines dp)
    = \<lparr>Out = out @ [datapath_entry dp], CurDP = cd, CurBridge = cb\<rparr>"
proof -
  obtain name l bridges where dp: "dp = (name, l, bridges)"
    by (cases dp)
  let ?x = "\<lparr>DP_Name = name, DP_Lookups = l, DP_Bridges = []\<rparr>"
  have "\<exists>cb. foldl dpif_line \<lparr>Out = out @ [(name, ?x)], CurDP = Some name, CurBridge = None\<rparr>
      (concat (map bridge_lines bridges))
    = \<lparr>Out = out @ [(name, ?x\<lparr>DP_Bridges := DP_Bridges ?x @ map bridge_entry bridges\<rparr>)],
       CurDP = Some name, CurBridge = cb\<rparr>"
    using assms by (intro dpif_lines_bridges) (auto simp: dp printed_datapath_ok_def)
  moreover have "dpif_line \<lparr>Out = out, CurDP = cd0, CurBridge = cb0\<rparr> (datapath_text name l)
      = \<lparr>Out = out @ [(name, ?x)], CurDP = Some name, CurBridge = None\<rparr>"
    using assms by (intro dpif_line_datapath) (auto simp: dp printed_datapath_ok_def)
  ultimately show ?thesis
    by (auto simp: dp datapath_lines_def datapath_entry_def datapath_value_def)
qed

lemma dpif_lines_datapaths:
  assumes "list_all printed_datapath_ok dps" and "distinct (map_keys out @ map fst dps)"
  shows "Out (foldl dpif_line \<lparr>Out = out, CurDP = cd0, CurBridge = cb0\<rparr>
      (concat (map datapath_lines dps))) = out @ map datapath_entry dps"
  using assms
proof (induction dps arbitrary: out cd0 cb0)
  case (Cons dp dps)
  then obtain cd cb where "foldl dpif_line \<lparr>Out = out, CurDP = cd0, CurBridge = cb0\<rparr> (datapath_lines dp)
    = \<lparr>Out = out @ [datapath_entry dp], CurDP = cd, CurBridge = cb\<rparr>"
    using dpif_lines_datapath [of dp out cd0 cb0] by auto
  with Cons.prems Cons.IH [of "out @ [datapath_entry dp]" cd cb] show ?case
    by (auto simp: datapath_entry_def)
qed simp

text \<open>Printed lines hold no line feed and only ASCII.\<close>

lemma printed_line_ok:
  assumes "printed_datapath_ok dp" and "line \<in> set (datapath_lines dp)"
  shows "newline \<notin> set line \<and> list_all ascii line"
proof -
  have d: "newline \<notin> set (datapath_text n l) \<and> list_all ascii (datapath_text n l)"
    if "plain n" for n l
    using that by (auto simp: datapath_text_def plain_no_blank ascii_def)
  have b: "newline \<notin> set (bridge_text n) \<and> list_all ascii (bridge_text n)" if "plain n" for n
    using that by (auto simp: bridge_text_def plain_no_blank ascii_def)
  have p: "newline \<notin> set (port_text q) \<and> list_all ascii (port_text q)" if "printed_port_ok q" for q
    using that plain_datapath_number [of "SP_Datapath q"]
    by (auto simp: port_text_def printed_port_ok_def plain_no_blank ascii_def simp del: plain_datapath_number)
  show ?thesis
    using assms d b p
    by (cases dp) (fastforce simp: printed_datapath_ok_def datapath_lines_def bridge_lines_def
        list_all_iff printed_bridge_ok_def)
qed

section \<open>Properties\<close>

text \<open>The report as a text.\<close>

lemma dpif_report_text:
  assumes "list_all printed_datapath_ok dps" and "distinct (map fst dps)"
  shows "list_all ascii (dpif_report dps)" and "dpif_of_text (dpif_report dps) = \<lparr>DPIF_Datapaths = map datapath_entry dps\<rparr>"
proof -
  let ?lines = "concat (map datapath_lines dps)"
  have lines: "\<forall>line \<in> set (?lines @ [[]]). newline \<notin> set line \<and> list_all ascii line"
    using assms(1) printed_line_ok by (auto simp: list_all_iff [of printed_datapath_ok])
  then have "list_all ascii (dpif_report dps)"
    unfolding dpif_report_def by (intro join_ascii) (auto simp: ascii_def)
  moreover have "split_on newline (dpif_report dps) = ?lines @ [[]]"
    unfolding dpif_report_def using lines by (intro split_on_join) auto
  moreover have "Out (foldl dpif_line dpif_init (?lines @ [[]])) = map datapath_entry dps"
    using dpif_lines_datapaths [of dps "[]" None None] assms
    by (simp add: dpif_init_def dpif_line_def)
  ultimately show "list_all ascii (dpif_report dps)"
    and "dpif_of_text (dpif_report dps) = \<lparr>DPIF_Datapaths = map datapath_entry dps\<rparr>"
    by (simp_all add: dpif_of_text_def)
qed

text \<open>Property C12. Round trip: the report of any list of datapaths with distinct names, each with
  its lookup counters, its bridges and their ports in order (with any trailing options), parses to
  exactly these datapaths; the \<open>lost\<close> counter may be left out when it is 0. Of a port, the parser keeps
  the name and the type, and has its OpenFlow number, which is printed first, in \<open>PortNo\<close> and the text
  of its number in the datapath, or \<open>none\<close>, in \<open>OFPortNo\<close>: the reverse of the names of these fields.\<close>

theorem dpif_report_parsed:
  assumes "list_all printed_datapath_ok dps" and "distinct (map fst dps)"
  shows "parse_dpif (json_quote (dpif_report dps))
    = Inr \<lparr>DPIF_Datapaths = map datapath_entry dps\<rparr>"
  using dpif_p.parse_quote [OF dpif_report_text(1) [OF assms]] dpif_report_text(2) [OF assms] by simp

theorem dpif_report_parsed_witness:
  "parse_dpif (json_quote (dpif_report
      [(''system@ovs-system'', \<lparr>Hit = 14778031, Missed = 1583622, Lost = 0\<rparr>,
        [(''br-int'',
          [\<lparr>SP_Name = ''eth0'', SP_OpenFlow = 1, SP_Datapath = Some 3, SP_Type = ''system'', SP_Options = []\<rparr>,
           \<lparr>SP_Name = ''p'', SP_OpenFlow = 29, SP_Datapath = None, SP_Type = ''patch'',
             SP_Options = ''peer=q''\<rparr>])])]))
   = Inr \<lparr>DPIF_Datapaths = [(''system@ovs-system'',
       \<lparr>DP_Name = ''system@ovs-system'', DP_Lookups = \<lparr>Hit = 14778031, Missed = 1583622, Lost = 0\<rparr>,
        DP_Bridges = [(''br-int'', \<lparr>Bridge_Name = ''br-int'', Bridge_Ports =
          [\<lparr>Port_Name = ''eth0'', PortNo = 1, OFPortNo = ''3'', Port_Type = ''system''\<rparr>,
           \<lparr>Port_Name = ''p'', PortNo = 29, OFPortNo = ''none'', Port_Type = ''patch''\<rparr>]\<rparr>)]\<rparr>)]\<rparr>"
proof -
  have "format_int 3 = ''3''"
    by code_simp
  then show ?thesis
    by (subst dpif_report_parsed)
      (simp_all add: printed_datapath_ok_def printed_bridge_ok_def printed_port_ok_def plain_simps
        datapath_entry_def datapath_value_def bridge_entry_def bridge_value_def port_value_def datapath_number_def)
qed

text \<open>Whatever the text, the result is well formed: the keys are the names of the
  values, names of datapaths are non-empty and without a colon, no key occurs twice, and every
  port has a name, an OpenFlow number and a port number that is not negative.\<close>

lemma dpif_result_well_formed:
  "case parse_dpif raw of Inl e \<Rightarrow> json_unmarshal_string raw = None | Inr d \<Rightarrow> dpif_ok d"
  using dpif_p.parse_inv [of raw] dpif_p.parse_fails_iff [of raw] by (simp split: sum.split)

lemma has_prefix_two: "has_prefix s ''    '' \<Longrightarrow> has_prefix s ''  ''"
  by (auto simp: prefix_def)

text \<open>Property C13. Which port lines are read: a line is skipped exactly when it has no decomposition into
  name, port number, OpenFlow port and type as documented, or its port number does not fit 64 bits;
  otherwise the values are those of one decomposition, and any other one has the same name and port
  number, and no longer OpenFlow port or, for the same OpenFlow port, type.\<close>

theorem port_line_reads:
  "case parse_dpif_port_line line of
     None \<Rightarrow> (\<forall>ns name no ofp ty. port_split line ns [name, no, ofp, ty] \<longrightarrow> parse_int no = None)
   | Some p \<Rightarrow> \<exists>ns no ty. port_split line ns [Port_Name p, no, OFPortNo p, ty]
       \<and> parse_int no = Some (PortNo p) \<and> Port_Type p = trim_space ty
       \<and> (\<forall>ns' name' no' ofp' ty'. port_split line ns' [name', no', ofp', ty'] \<longrightarrow>
            name' = Port_Name p \<and> no' = no \<and> length ofp' \<le> length (OFPortNo p)
            \<and> (ofp' = OFPortNo p \<longrightarrow> length ty' \<le> length ty))"
proof (cases "rx_submatch portLineRE line")
  case None
  then show ?thesis
    using port_line_match [of line] by (simp add: parse_dpif_port_line_def)
next
  case (Some gs)
  then obtain ns where ns: "port_split line ns gs" "\<And>ns' gs'. port_split line ns' gs' \<Longrightarrow> ns' \<le> ns"
    using port_line_match [of line] by auto
  then obtain name no ofp ty where gs: "gs = [name, no, ofp, ty]"
    by (auto simp: port_split_def)
  have other: "\<forall>ns' name' no' ofp' ty'. port_split line ns' [name', no', ofp', ty'] \<longrightarrow>
      name' = name \<and> no' = no \<and> length ofp' \<le> length ofp \<and> (ofp' = ofp \<longrightarrow> length ty' \<le> length ty)"
  proof (intro allI impI)
    fix ns' name' no' ofp' ty'
    assume split: "port_split line ns' [name', no', ofp', ty']"
    show "name' = name \<and> no' = no \<and> length ofp' \<le> length ofp \<and> (ofp' = ofp \<longrightarrow> length ty' \<le> length ty)"
      using port_split_unique [OF ns(1) split ns(2) [OF split]] by (auto simp: gs)
  qed
  have parse: "parse_dpif_port_line line = map_option (\<lambda>n.
      \<lparr>Port_Name = name, PortNo = n, OFPortNo = ofp, Port_Type = trim_space ty\<rparr>) (parse_int no)"
    by (simp add: parse_dpif_port_line_def Some gs split: option.split)
  show ?thesis
  proof (cases "parse_int no")
    case None
    then show ?thesis
      using other unfolding parse by auto
  next
    case (Some n)
    have "port_split line ns [name, no, ofp, ty]"
      using ns(1) by (simp add: gs)
    then show ?thesis
      unfolding parse Some option.map option.case dpif_port.select_convs using other Some
      by (intro exI [of _ ns] exI [of _ no] exI [of _ ty] conjI refl)
  qed
qed

theorem port_line_reads_witness:
  "\<exists>p. parse_dpif_port_line ''p0 7/:3: (a b)'' = Some p \<and> length ''3'' \<le> length (OFPortNo p)
     \<and> Port_Name p = ''p0'' \<and> PortNo p = 7"
proof -
  have split: "port_split ''p0 7/:3: (a b)'' [2, 1, 1, 2, 1, 3] [''p0'', ''7'', '':3'', ''a b'']"
    unfolding port_split_def
    by (rule exI [of _ "''p0''"], rule exI [of _ "'' ''"], rule exI [of _ "''7''"], rule exI [of _ "'':3''"],
        rule exI [of _ "'' ''"], rule exI [of _ "''a b''"], rule exI [of _ "'')''"])
      (simp add: cls_nonspace_def cls_space_def is_digit_def)
  have "format_int 7 = ''7''"
    by code_simp
  then have seven: "parse_int ''7'' = Some 7"
    using parse_int_format_int [of 7] by simp
  show ?thesis
  proof (cases "parse_dpif_port_line ''p0 7/:3: (a b)''")
    case None
    then have "parse_int ''7'' = None"
      using port_line_reads [of "''p0 7/:3: (a b)''"] split unfolding None option.case by blast
    with seven show ?thesis by simp
  next
    case (Some p)
    then obtain no where "''p0'' = Port_Name p" "''7'' = no" "length '':3'' \<le> length (OFPortNo p)"
        "parse_int no = Some (PortNo p)"
      using port_line_reads [of "''p0 7/:3: (a b)''"] split unfolding Some option.case by blast
    with Some seven show ?thesis by auto
  qed
qed

text \<open>Property C40. A header line the parser cannot read leaves the current datapath in place: the
  bridges printed below it, which belong to another datapath, are added to the datapath above.\<close>

theorem dpif_unread_header_keeps_datapath:
  assumes "printed_datapath_ok (name, l, bridges @ others)"
    and "parse_dpif_datapath_line header = None" and "\<not> has_prefix header ''  ''"
  shows "Out (foldl dpif_line dpif_init
      (datapath_lines (name, l, bridges) @ [header] @ concat (map bridge_lines others)))
    = [datapath_entry (name, l, bridges @ others)]"
proof -
  let ?x = "\<lparr>DP_Name = name, DP_Lookups = l, DP_Bridges = []\<rparr>"
  let ?y = "?x\<lparr>DP_Bridges := map bridge_entry bridges\<rparr>"
  have ok: "plain name" "CHR 0x3A \<notin> set name" "list_all printed_bridge_ok bridges"
      "list_all printed_bridge_ok others" "distinct (map fst bridges @ map fst others)"
    using assms(1) by (auto simp: printed_datapath_ok_def)
  have "dpif_line dpif_init (datapath_text name l)
      = \<lparr>Out = [] @ [(name, ?x)], CurDP = Some name, CurBridge = None\<rparr>"
    unfolding dpif_init_def by (rule dpif_line_datapath) (use ok in auto)
  moreover obtain cb where "foldl dpif_line \<lparr>Out = [] @ [(name, ?x)], CurDP = Some name, CurBridge = None\<rparr>
      (concat (map bridge_lines bridges)) = \<lparr>Out = [] @ [(name, ?y)], CurDP = Some name, CurBridge = cb\<rparr>"
    using dpif_lines_bridges [of bridges name "[]" ?x None] ok by auto
  moreover have "dpif_line st header = st" for st
    using assms(2,3) has_prefix_two [of header]
    by (auto simp: dpif_line_def dpif_datapath_case_def)
  moreover have "map_keys (DP_Bridges ?y) = map fst bridges"
    by (simp add: bridge_entry_def)
  with ok have "\<exists>cc. foldl dpif_line \<lparr>Out = [] @ [(name, ?y)], CurDP = Some name, CurBridge = cb\<rparr>
      (concat (map bridge_lines others)) = \<lparr>Out = [] @ [(name, ?y\<lparr>DP_Bridges := DP_Bridges ?y
        @ map bridge_entry others\<rparr>)], CurDP = Some name, CurBridge = cc\<rparr>"
    by (intro dpif_lines_bridges) (simp_all only:, simp_all)
  then obtain cc where "foldl dpif_line \<lparr>Out = [] @ [(name, ?y)], CurDP = Some name, CurBridge = cb\<rparr>
      (concat (map bridge_lines others)) = \<lparr>Out = [] @ [(name, ?y\<lparr>DP_Bridges := DP_Bridges ?y
        @ map bridge_entry others\<rparr>)], CurDP = Some name, CurBridge = cc\<rparr>"
    by blast
  ultimately show ?thesis
    by (simp add: datapath_lines_def datapath_entry_def datapath_value_def)
qed

theorem dpif_unread_header_keeps_datapath_witness:
  "Out (foldl dpif_line dpif_init
      (datapath_lines (''system@a'', no_lookups, []) @ [''system@b: hit:? missed:?''] @
        concat (map bridge_lines [(''br-b'', [])])))
   = [(''system@a'', \<lparr>DP_Name = ''system@a'', DP_Lookups = no_lookups,
        DP_Bridges = [(''br-b'', \<lparr>Bridge_Name = ''br-b'', Bridge_Ports = []\<rparr>)]\<rparr>)]"
proof -
  have f: "str_fields (CHR 0x20 # ''hit:?'' @ CHR 0x20 # ''missed:?'') = [''hit:?'', ''missed:?'']"
    using fields_blanked [of "[''hit:?'', ''missed:?'']"] by (simp add: plain_simps)
  have cut: "str_cut (CHR 0x3A) (w @ CHR 0x3A # s) = Some (w, s)" if "CHR 0x3A \<notin> set w" for w s
    using that by simp
  have "parse_dpif_datapath_line ''system@b: hit:? missed:?'' = None"
    using f cut [of "''system@b''" "CHR 0x20 # ''hit:?'' @ CHR 0x20 # ''missed:?''"]
      cut [of "''hit''" "''?''"] cut [of "''missed''" "''?''"]
    by (simp add: parse_dpif_datapath_line_def dpif_lookup_token_def parse_int_def parse_uint_def is_digit_def)
  then show ?thesis
    by (subst dpif_unread_header_keeps_datapath)
      (simp_all add: printed_datapath_ok_def printed_bridge_ok_def plain_simps
        datapath_entry_def datapath_value_def bridge_entry_def bridge_value_def)
qed

end
