(* ===== verification/Dpctl.thy ===== *)
theory Dpctl
  imports Dpif
begin

text \<open>
  \<^verbatim>\<open>internal/unixctl/dpctl.go\<close>: the parser of \<^verbatim>\<open>ovs-appctl dpctl/show\<close>. The pointer \<^verbatim>\<open>cur\<close> is
  always the value the map \<^verbatim>\<open>Datapaths\<close> holds for its name, so the state names it by its key.
\<close>

record dpctl_datapath =
  DC_Name :: string
  DC_Lookups :: dpif_lookups
  DC_Flows :: int64
  DC_MasksHit :: int64
  DC_MasksTotal :: int64
  DC_CacheHit :: int64

record dpctl =
  DPCTL_Datapaths :: "(string, dpctl_datapath) gomap"

section \<open>Stat lines\<close>

text \<open>\<^verbatim>\<open>parseDPCTLKVMap\<close>: the callback is \<open>fn k n\<close>, its effect on the datapath explicit.\<close>

definition dpctl_kv_token :: "(string \<Rightarrow> int64 \<Rightarrow> 'a \<Rightarrow> 'a) \<Rightarrow> 'a \<Rightarrow> string \<Rightarrow> 'a" where
  "dpctl_kv_token fn d tok =
     (case str_cut (CHR 0x3A) tok of
        None \<Rightarrow> d
      | Some (k, v) \<Rightarrow> (case parse_int v of None \<Rightarrow> d | Some n \<Rightarrow> fn k n d))"

definition parse_dpctl_kv_map :: "string \<Rightarrow> (string \<Rightarrow> int64 \<Rightarrow> 'a \<Rightarrow> 'a) \<Rightarrow> 'a \<Rightarrow> 'a" where
  "parse_dpctl_kv_map rest fn d = foldl (dpctl_kv_token fn) d (str_fields rest)"

definition set_lookup :: "string \<Rightarrow> int64 \<Rightarrow> dpctl_datapath \<Rightarrow> dpctl_datapath" where
  "set_lookup k n dp =
     (if k = ''hit'' then dp\<lparr>DC_Lookups := (DC_Lookups dp)\<lparr>Hit := n\<rparr>\<rparr>
      else if k = ''missed'' then dp\<lparr>DC_Lookups := (DC_Lookups dp)\<lparr>Missed := n\<rparr>\<rparr>
      else if k = ''lost'' then dp\<lparr>DC_Lookups := (DC_Lookups dp)\<lparr>Lost := n\<rparr>\<rparr>
      else dp)"

definition set_mask :: "string \<Rightarrow> int64 \<Rightarrow> dpctl_datapath \<Rightarrow> dpctl_datapath" where
  "set_mask k n dp =
     (if k = ''hit'' then dp\<lparr>DC_MasksHit := n\<rparr>
      else if k = ''total'' then dp\<lparr>DC_MasksTotal := n\<rparr>
      else dp)"

definition set_cache :: "string \<Rightarrow> int64 \<Rightarrow> dpctl_datapath \<Rightarrow> dpctl_datapath" where
  "set_cache k n dp = (if k = ''hit'' then dp\<lparr>DC_CacheHit := n\<rparr> else dp)"

definition parse_dpctl_stats_line :: "string \<Rightarrow> dpctl_datapath \<Rightarrow> dpctl_datapath" where
  "parse_dpctl_stats_line line dp =
     (if has_prefix line ''lookups:'' then
        parse_dpctl_kv_map (drop (length ''lookups:'') line) set_lookup dp
      else if has_prefix line ''flows:'' then
        (case parse_int (trim_space (drop (length ''flows:'') line)) of
           None \<Rightarrow> dp
         | Some n \<Rightarrow> dp\<lparr>DC_Flows := n\<rparr>)
      else if has_prefix line ''masks:'' then
        parse_dpctl_kv_map (drop (length ''masks:'') line) set_mask dp
      else if has_prefix line ''cache:'' then
        parse_dpctl_kv_map (drop (length ''cache:'') line) set_cache dp
      else dp)"

section \<open>The loop over the lines\<close>

type_synonym dpctl_state = "(string, dpctl_datapath) gomap \<times> string option"

definition new_dpctl_datapath :: "string \<Rightarrow> dpctl_datapath" where
  "new_dpctl_datapath name =
     \<lparr>DC_Name = name, DC_Lookups = no_lookups, DC_Flows = 0, DC_MasksHit = 0, DC_MasksTotal = 0,
      DC_CacheHit = 0\<rparr>"

definition dpctl_line :: "dpctl_state \<Rightarrow> string \<Rightarrow> dpctl_state" where
  "dpctl_line = (\<lambda>(out, cur) line.
     (if line = [] then (out, cur)
      else if has_prefix line '' '' \<or> has_prefix line [tab] then
        (case cur of
           None \<Rightarrow> (out, cur)
         | Some d \<Rightarrow> (map_adjust d (parse_dpctl_stats_line (trim_space line)) out, cur))
      else
        (let trimmed = trim_space line
         in if \<not> has_suffix trimmed '':'' then (out, cur)
            else (let name = trim_suffix trimmed '':''
                  in (map_put name (new_dpctl_datapath name) out, Some name)))))"

definition dpctl_of_text :: "string \<Rightarrow> dpctl" where
  "dpctl_of_text text =
     \<lparr>DPCTL_Datapaths = fst (foldl dpctl_line ([], None) (split_on newline text))\<rparr>"

definition parse_dpctl :: "string \<Rightarrow> parse_error + dpctl" where
  "parse_dpctl raw =
     (case json_unmarshal_string raw of
        None \<Rightarrow> Inl (Unmarshal_error ''dpctl'')
      | Some text \<Rightarrow> Inr (dpctl_of_text text))"

lemma dpctl_line_empty [simp]: "dpctl_line st [] = st"
  by (cases st) (simp add: dpctl_line_def)

section \<open>Invariant\<close>

definition dpctl_entry_ok :: "string \<times> dpctl_datapath \<Rightarrow> bool" where
  "dpctl_entry_ok = (\<lambda>(k, d). DC_Name d = k)"

definition dpctl_ok :: "dpctl \<Rightarrow> bool" where
  "dpctl_ok d \<longleftrightarrow> map_ok (DPCTL_Datapaths d) \<and> list_all dpctl_entry_ok (DPCTL_Datapaths d)"

lemma kv_map_inv:
  assumes "\<And>k n d. P d \<Longrightarrow> P (fn k n d)" and "P d"
  shows "P (parse_dpctl_kv_map rest fn d)"
  unfolding parse_dpctl_kv_map_def
  by (rule foldl_invariant [where P = P])
    (use assms in \<open>auto simp: dpctl_kv_token_def split: option.splits\<close>)

lemma stats_line_name [simp]: "DC_Name (parse_dpctl_stats_line line d) = DC_Name d"
proof -
  have "DC_Name (parse_dpctl_kv_map rest fn d) = DC_Name d"
    if "\<And>k n d. DC_Name (fn k n d) = DC_Name d" for rest fn
    using kv_map_inv [where P = "\<lambda>e. DC_Name e = DC_Name d" and fn = fn] that by simp
  then show ?thesis
    by (simp add: parse_dpctl_stats_line_def set_lookup_def set_mask_def set_cache_def
        split: option.split)
qed

lemma dpctl_line_ok:
  assumes "map_ok out \<and> list_all dpctl_entry_ok out"
  shows "map_ok (fst (dpctl_line (out, cur) line))
    \<and> list_all dpctl_entry_ok (fst (dpctl_line (out, cur) line))"
  using assms
  by (auto simp: dpctl_line_def Let_def dpctl_entry_ok_def new_dpctl_datapath_def
      split: option.split intro!: list_all_adjust list_all_put)

lemma dpctl_lines_ok:
  "map_ok (fst (foldl dpctl_line ([], None) lines))
    \<and> list_all dpctl_entry_ok (fst (foldl dpctl_line ([], None) lines))"
  by (rule foldl_invariant [where P = "\<lambda>st. map_ok (fst st) \<and> list_all dpctl_entry_ok (fst st)"])
    (use dpctl_line_ok in \<open>auto split: prod.splits\<close>)

lemma dpctl_of_text_ok: "dpctl_ok (dpctl_of_text text)"
  using dpctl_lines_ok by (simp add: dpctl_ok_def dpctl_of_text_def)

interpretation dpctl_p: appctl_parser "''dpctl''" parse_dpctl dpctl_of_text dpctl_ok
  by unfold_locales (simp_all add: parse_dpctl_def dpctl_of_text_ok)

section \<open>Reports as ovs-vswitchd prints them\<close>

text \<open>
  A datapath with the two ratios that are printed but not kept, and the indented lines that
  follow (\<open>caches:\<close>, \<open>masks-cache:\<close>, \<open>port N: ...\<close>).
\<close>

record printed_dpctl =
  Value :: dpctl_datapath
  HitPerPkt :: string
  HitRate :: string
  Extra :: "string list"

definition stat_text :: "string \<Rightarrow> string list \<Rightarrow> string" where
  "stat_text label toks = ''  '' @ label @ concat (map (\<lambda>w. CHR 0x20 # w) toks)"

definition kv :: "string \<Rightarrow> int64 \<Rightarrow> string" where
  "kv k n = k @ '':'' @ format_int n"

definition dpctl_stat_lines :: "printed_dpctl \<Rightarrow> string list" where
  "dpctl_stat_lines p = (let d = Value p; l = DC_Lookups d in
     [stat_text ''lookups:'' [kv ''hit'' (Hit l), kv ''missed'' (Missed l), kv ''lost'' (Lost l)],
      stat_text ''flows:'' [format_int (DC_Flows d)],
      stat_text ''masks:'' [kv ''hit'' (DC_MasksHit d), kv ''total'' (DC_MasksTotal d),
                            ''hit/pkt:'' @ HitPerPkt p],
      stat_text ''cache:'' [kv ''hit'' (DC_CacheHit d), ''hit-rate:'' @ HitRate p]])"

definition dpctl_header_text :: "string \<Rightarrow> string" where
  "dpctl_header_text name = name @ '':''"

definition printed_dpctl_lines :: "printed_dpctl \<Rightarrow> string list" where
  "printed_dpctl_lines p =
     dpctl_header_text (DC_Name (Value p)) # dpctl_stat_lines p @ Extra p"

definition dpctl_report :: "printed_dpctl list \<Rightarrow> string" where
  "dpctl_report ps = join [newline] (concat (map printed_dpctl_lines ps) @ [[]])"

definition ignored_line :: "string \<Rightarrow> bool" where
  "ignored_line line \<longleftrightarrow> line \<noteq> [] \<and> hd line = CHR 0x20 \<and> list_all ascii line
     \<and> newline \<notin> set line
     \<and> list_all (\<lambda>p. \<not> prefix p (trim_space line)) [''lookups:'', ''flows:'', ''masks:'', ''cache:'']"

definition printed_dpctl_ok :: "printed_dpctl \<Rightarrow> bool" where
  "printed_dpctl_ok p \<longleftrightarrow> plain (DC_Name (Value p))
     \<and> plain (''hit/pkt:'' @ HitPerPkt p) \<and> plain (''hit-rate:'' @ HitRate p)
     \<and> list_all ignored_line (Extra p)"

lemma kv_token: "CHR 0x3A \<notin> set k \<Longrightarrow> dpctl_kv_token fn d (kv k n) = fn k n d"
  using cut_append [of "CHR 0x3A" k "format_int n"] by (simp add: dpctl_kv_token_def kv_def)

lemma kv_token_ignored:
  assumes "CHR 0x3A \<notin> set k" and "\<And>n. fn k n d = d"
  shows "dpctl_kv_token fn d (k @ CHR 0x3A # v) = d"
  using assms by (simp add: dpctl_kv_token_def split: option.split)

lemma plain_kv: "plain k \<Longrightarrow> plain (kv k n)"
  by (simp add: kv_def plain_simps)

lemma plain_last: "plain w \<Longrightarrow> \<not> blank (last w) \<and> w \<noteq> []"
  by (auto simp: plain_def list_all_iff)

lemma trim_stat_text:
  assumes "plain label" and "list_all plain toks" and "toks \<noteq> []"
  shows "trim_space (stat_text label toks) = label @ concat (map (\<lambda>w. CHR 0x20 # w) toks)"
proof -
  let ?s = "label @ concat (map (\<lambda>w. CHR 0x20 # w) toks)"
  obtain ts t where t: "toks = ts @ [t]"
    using assms(3) by (cases toks rule: rev_cases) auto
  have "list_all ascii ?s"
    using assms(1,2) by (induction toks) (auto simp: ascii_def)
  moreover have "\<not> blank (hd ?s)" and "?s \<noteq> []"
    using assms(1) by (cases label; auto simp: plain_def)+
  moreover have "\<not> blank (last ?s)"
    using assms(2) plain_last [of t] by (simp add: t)
  ultimately have "trimmed ?s"
    by (intro trimmed_ascii)
  then show ?thesis
    by (simp add: stat_text_def)
qed

lemma dpctl_line_stat:
  assumes "plain label" and "list_all plain toks" and "toks \<noteq> []" and "d \<notin> set (map_keys out)"
  shows "dpctl_line (out @ [(d, x)], Some d) (stat_text label toks)
    = (out @ [(d, parse_dpctl_stats_line (label @ concat (map (\<lambda>w. CHR 0x20 # w) toks)) x)], Some d)"
proof -
  have "stat_text label toks \<noteq> []" and "has_prefix (stat_text label toks) '' ''"
    by (simp_all add: stat_text_def)
  with assms trim_stat_text [OF assms(1-3)] show ?thesis
    by (simp add: dpctl_line_def)
qed

lemma dpctl_line_ignored:
  assumes "ignored_line line"
  shows "dpctl_line (out @ [(d, x)], Some d) line = (map_adjust d (\<lambda>x. x) (out @ [(d, x)]), Some d)"
proof -
  have "has_prefix line '' ''" and "line \<noteq> []"
    using assms by (auto simp: ignored_line_def neq_Nil_conv)
  moreover have "parse_dpctl_stats_line (trim_space line) = (\<lambda>x. x)"
    using assms by (auto simp: ignored_line_def parse_dpctl_stats_line_def)
  ultimately show ?thesis
    by (simp add: dpctl_line_def)
qed

lemma stats_lookups: "parse_dpctl_stats_line (''lookups:''
      @ concat (map (\<lambda>w. CHR 0x20 # w) [kv ''hit'' h, kv ''missed'' m, kv ''lost'' k])) x
    = x\<lparr>DC_Lookups := \<lparr>Hit = h, Missed = m, Lost = k\<rparr>\<rparr>"
proof -
  have "str_fields (concat (map (\<lambda>w. CHR 0x20 # w) [kv ''hit'' h, kv ''missed'' m, kv ''lost'' k]))
      = [kv ''hit'' h, kv ''missed'' m, kv ''lost'' k]"
    by (rule fields_blanked) (simp add: plain_kv plain_simps)
  then show ?thesis
    by (simp add: parse_dpctl_stats_line_def parse_dpctl_kv_map_def kv_token set_lookup_def)
qed

lemma stats_flows:
  "parse_dpctl_stats_line (''flows:'' @ concat (map (\<lambda>w. CHR 0x20 # w) [format_int n])) x
    = x\<lparr>DC_Flows := n\<rparr>"
  by (simp add: parse_dpctl_stats_line_def)

lemma stats_masks:
  assumes "plain (''hit/pkt:'' @ r)"
  shows "parse_dpctl_stats_line (''masks:''
      @ concat (map (\<lambda>w. CHR 0x20 # w) [kv ''hit'' h, kv ''total'' t, ''hit/pkt:'' @ r])) x
    = x\<lparr>DC_MasksHit := h, DC_MasksTotal := t\<rparr>"
proof -
  have f: "str_fields (concat (map (\<lambda>w. CHR 0x20 # w)
        [kv ''hit'' h, kv ''total'' t, ''hit/pkt:'' @ r]))
      = [kv ''hit'' h, kv ''total'' t, ''hit/pkt:'' @ r]"
    by (rule fields_blanked) (use assms in \<open>simp add: plain_kv plain_simps\<close>)
  have "dpctl_kv_token set_mask d (''hit/pkt:'' @ r) = d" for d
    using kv_token_ignored [of "''hit/pkt''" set_mask d r] by (simp add: set_mask_def)
  with f show ?thesis
    by (simp add: parse_dpctl_stats_line_def parse_dpctl_kv_map_def kv_token set_mask_def)
qed

lemma stats_cache:
  assumes "plain (''hit-rate:'' @ r)"
  shows "parse_dpctl_stats_line (''cache:''
      @ concat (map (\<lambda>w. CHR 0x20 # w) [kv ''hit'' h, ''hit-rate:'' @ r])) x
    = x\<lparr>DC_CacheHit := h\<rparr>"
proof -
  have f: "str_fields (concat (map (\<lambda>w. CHR 0x20 # w) [kv ''hit'' h, ''hit-rate:'' @ r]))
      = [kv ''hit'' h, ''hit-rate:'' @ r]"
    by (rule fields_blanked) (use assms in \<open>simp add: plain_kv plain_simps\<close>)
  have "dpctl_kv_token set_cache d (''hit-rate:'' @ r) = d" for d
    using kv_token_ignored [of "''hit-rate''" set_cache d r] by (simp add: set_cache_def)
  with f show ?thesis
    by (simp add: parse_dpctl_stats_line_def parse_dpctl_kv_map_def kv_token set_cache_def)
qed

lemma dpctl_stats_printed:
  assumes "printed_dpctl_ok p" and "d \<notin> set (map_keys out)" and "DC_Name x = DC_Name (Value p)"
  shows "foldl dpctl_line (out @ [(d, x)], Some d) (dpctl_stat_lines p)
    = (out @ [(d, Value p)], Some d)"
proof -
  have ok: "plain (''hit/pkt:'' @ HitPerPkt p)" "plain (''hit-rate:'' @ HitRate p)"
    using assms by (simp_all add: printed_dpctl_ok_def)
  have labels: "plain ''lookups:''" "plain ''flows:''" "plain ''masks:''" "plain ''cache:''"
    by (simp_all add: plain_simps)
  have toks: "list_all plain [kv ''hit'' h, kv ''missed'' m, kv ''lost'' k]"
    "list_all plain [format_int h]"
    "list_all plain [kv ''hit'' h, kv ''total'' m, ''hit/pkt:'' @ HitPerPkt p]"
    "list_all plain [kv ''hit'' h, ''hit-rate:'' @ HitRate p]" for h m k
    using ok by (simp_all add: plain_kv plain_simps)
  show ?thesis
    unfolding dpctl_stat_lines_def Let_def foldl.simps
      dpctl_line_stat [OF labels(1) toks(1) list.distinct(2) assms(2)] stats_lookups
      dpctl_line_stat [OF labels(2) toks(2) list.distinct(2) assms(2)] stats_flows
      dpctl_line_stat [OF labels(3) toks(3) list.distinct(2) assms(2)] stats_masks [OF ok(1)]
      dpctl_line_stat [OF labels(4) toks(4) list.distinct(2) assms(2)] stats_cache [OF ok(2)]
    using assms(3) by (cases "Value p"; cases x; cases "DC_Lookups (Value p)") simp
qed

lemma dpctl_extra_printed:
  assumes "list_all ignored_line lines" and "d \<notin> set (map_keys out)"
  shows "foldl dpctl_line (out @ [(d, x)], Some d) lines = (out @ [(d, x)], Some d)"
  using assms by (induction lines) (simp_all add: dpctl_line_ignored)

lemma dpctl_line_header:
  assumes "plain name" and "name \<notin> set (map_keys out)"
  shows "dpctl_line (out, cur) (dpctl_header_text name)
    = (out @ [(name, new_dpctl_datapath name)], Some name)"
proof -
  obtain c cs where c: "name = c # cs"
    using assms(1) by (cases name) auto
  have "c \<noteq> CHR 0x20" "c \<noteq> tab"
    using plain_no_blank [OF assms(1), of "CHR 0x20"] plain_no_blank [OF assms(1), of tab]
    by (auto simp: c)
  then have "dpctl_header_text name \<noteq> []" "\<not> has_prefix (dpctl_header_text name) '' ''"
    "\<not> has_prefix (dpctl_header_text name) [tab]"
    by (simp_all add: c dpctl_header_text_def)
  moreover have "trim_space (dpctl_header_text name) = name @ '':''"
    using assms(1) by (simp add: dpctl_header_text_def plain_simps)
  ultimately show ?thesis
    using assms(2) has_suffix_append [of name "'':''"] trim_suffix_append [of name "'':''"]
    by (simp add: dpctl_line_def Let_def del: has_suffix_append trim_suffix_append)
qed

lemma dpctl_lines_printed:
  assumes "list_all printed_dpctl_ok ps"
    and "distinct (map_keys out @ map (DC_Name \<circ> Value) ps)"
  shows "fst (foldl dpctl_line (out, cur) (concat (map printed_dpctl_lines ps)))
    = out @ map (\<lambda>p. (DC_Name (Value p), Value p)) ps"
  using assms
proof (induction ps arbitrary: out cur)
  case (Cons p ps)
  let ?name = "DC_Name (Value p)"
  have "foldl dpctl_line (out, cur) (printed_dpctl_lines p) = (out @ [(?name, Value p)], Some ?name)"
    using Cons.prems
    by (simp add: printed_dpctl_lines_def dpctl_line_header dpctl_stats_printed dpctl_extra_printed
        printed_dpctl_ok_def [of p] new_dpctl_datapath_def)
  with Cons show ?case by simp
qed simp

lemma printed_dpctl_line_ok:
  assumes "printed_dpctl_ok p" and "line \<in> set (printed_dpctl_lines p)"
  shows "newline \<notin> set line \<and> list_all ascii line"
proof -
  have stat: "newline \<notin> set (stat_text label toks) \<and> list_all ascii (stat_text label toks)"
    if "plain label" and "list_all plain toks" for label toks
    using that plain_no_blank [of _ newline] by (induction toks) (auto simp: stat_text_def ascii_def)
  have stats: "list_all (\<lambda>l. newline \<notin> set l \<and> list_all ascii l) (dpctl_stat_lines p)"
    using assms(1) by (simp add: dpctl_stat_lines_def Let_def printed_dpctl_ok_def stat plain_kv
        plain_simps)
  have "newline \<notin> set (dpctl_header_text (DC_Name (Value p)))
      \<and> list_all ascii (dpctl_header_text (DC_Name (Value p)))"
    using assms(1) by (auto simp: dpctl_header_text_def printed_dpctl_ok_def plain_no_blank ascii_def)
  with assms stats show ?thesis
    by (fastforce simp: printed_dpctl_lines_def printed_dpctl_ok_def ignored_line_def list_all_iff)
qed

section \<open>Properties\<close>

text \<open>The report as a text.\<close>

lemma dpctl_report_text:
  assumes "list_all printed_dpctl_ok ps" and "distinct (map (DC_Name \<circ> Value) ps)"
  shows "list_all ascii (dpctl_report ps)" and "dpctl_of_text (dpctl_report ps) = \<lparr>DPCTL_Datapaths = map (\<lambda>p. (DC_Name (Value p), Value p)) ps\<rparr>"
proof -
  let ?lines = "concat (map printed_dpctl_lines ps)"
  have lines: "\<forall>line \<in> set (?lines @ [[]]). newline \<notin> set line \<and> list_all ascii line"
    using assms(1) printed_dpctl_line_ok by (auto simp: list_all_iff [of printed_dpctl_ok])
  then have "list_all ascii (dpctl_report ps)"
    unfolding dpctl_report_def by (intro join_ascii) (auto simp: ascii_def)
  moreover have "split_on newline (dpctl_report ps) = ?lines @ [[]]"
    unfolding dpctl_report_def using lines by (intro split_on_join) auto
  moreover have "fst (foldl dpctl_line ([], None) (?lines @ [[]]))
      = map (\<lambda>p. (DC_Name (Value p), Value p)) ps"
    using dpctl_lines_printed [of ps "[]" None] assms
    by simp
  ultimately show "list_all ascii (dpctl_report ps)"
    and "dpctl_of_text (dpctl_report ps) = \<lparr>DPCTL_Datapaths = map (\<lambda>p. (DC_Name (Value p), Value p)) ps\<rparr>"
    by (simp_all add: dpctl_of_text_def)
qed

text \<open>Property C14. Round trip: the verbose report of any list of datapaths with distinct names
  parses to exactly their lookup, flow, mask and cache counters; ratios such as \<open>hit/pkt\<close> and
  any further indented lines (\<open>caches:\<close>, \<open>masks-cache:\<close>, ports) change nothing.\<close>

theorem dpctl_report_parsed:
  assumes "list_all printed_dpctl_ok ps" and "distinct (map (DC_Name \<circ> Value) ps)"
  shows "parse_dpctl (json_quote (dpctl_report ps))
    = Inr \<lparr>DPCTL_Datapaths = map (\<lambda>p. (DC_Name (Value p), Value p)) ps\<rparr>"
  using dpctl_p.parse_quote [OF dpctl_report_text(1) [OF assms]] dpctl_report_text(2) [OF assms] by simp

theorem dpctl_report_parsed_witness:
  "parse_dpctl (json_quote (dpctl_report
      [\<lparr>Value = \<lparr>DC_Name = ''system@ovs-system'',
          DC_Lookups = \<lparr>Hit = 21901868, Missed = 2331661, Lost = 0\<rparr>, DC_Flows = 122,
          DC_MasksHit = 52499122, DC_MasksTotal = 8, DC_CacheHit = 18277721\<rparr>,
        HitPerPkt = ''2.17'', HitRate = ''75.42%'',
        Extra = [''  caches:'', ''    masks-cache: size:256'', ''  port 3: eth0'']\<rparr>]))
   = Inr \<lparr>DPCTL_Datapaths = [(''system@ovs-system'', \<lparr>DC_Name = ''system@ovs-system'',
          DC_Lookups = \<lparr>Hit = 21901868, Missed = 2331661, Lost = 0\<rparr>, DC_Flows = 122,
          DC_MasksHit = 52499122, DC_MasksTotal = 8, DC_CacheHit = 18277721\<rparr>)]\<rparr>"
proof -
  have "trim_space ''  caches:'' = ''caches:''"
    "trim_space ''    masks-cache: size:256'' = ''masks-cache: size:256''"
    "trim_space ''  port 3: eth0'' = ''port 3: eth0''"
    by (simp_all add: trimmed_ascii ascii_def blank_def)
  then show ?thesis
    by (subst dpctl_report_parsed)
      (simp_all add: printed_dpctl_ok_def ignored_line_def plain_simps)
qed

end
