(* ===== verification/Upcall.thy ===== *)
theory Upcall
  imports Appctl
begin

text \<open>
  \<^verbatim>\<open>internal/unixctl/upcall.go\<close>: the parser of \<^verbatim>\<open>ovs-appctl upcall/show\<close>. As in \<open>Dpctl\<close> the
  pointer \<^verbatim>\<open>cur\<close> is represented by the key of the datapath in the result map.
\<close>

record upcall_datapath =
  U_Name :: string
  FlowsCurrent :: int64
  FlowsAvg :: int64
  FlowsMax :: int64
  FlowsLimit :: int64
  DumpDurationMs :: int64
  HandlerKeys :: "(int64, int64) gomap"

record upcall =
  Upcall_Datapaths :: "(string, upcall_datapath) gomap"

section \<open>Stat lines\<close>

text \<open>\<^verbatim>\<open>\(([a-z]+)\s+(\d+)\)\<close>\<close>

definition parenPairRE :: rx where
  "parenPairRE = [Lit (CHR ''(''), Cap cls_lower, Plus cls_space, Cap is_digit, Lit (CHR '')'')]"

text \<open>\<^verbatim>\<open>^(\d+):\s*\(keys\s+(\d+)\)\<close>\<close>

definition handlerLineRE :: rx where
  "handlerLineRE = [Cap is_digit, Lit (CHR 0x3A), Star cls_space]
     @ lits ''(keys'' @ [Plus cls_space, Cap is_digit, Lit (CHR '')'')]"

definition upcall_flow_pair :: "upcall_datapath \<Rightarrow> string list \<Rightarrow> upcall_datapath" where
  "upcall_flow_pair cur m =
     (case m of
        [m1, m2] \<Rightarrow>
          (case parse_int m2 of
             None \<Rightarrow> cur
           | Some n \<Rightarrow>
               if m1 = ''current'' then cur\<lparr>FlowsCurrent := n\<rparr>
               else if m1 = ''avg'' then cur\<lparr>FlowsAvg := n\<rparr>
               else if m1 = ''max'' then cur\<lparr>FlowsMax := n\<rparr>
               else if m1 = ''limit'' then cur\<lparr>FlowsLimit := n\<rparr>
               else cur)
      | _ \<Rightarrow> cur)"

definition upcall_stat :: "string \<Rightarrow> upcall_datapath \<Rightarrow> upcall_datapath" where
  "upcall_stat s cur =
     (if has_prefix s ''flows'' then
        foldl upcall_flow_pair cur (rx_find_all parenPairRE s)
      else if has_prefix s ''dump duration'' then
        (case str_cut (CHR 0x3A) s of
           None \<Rightarrow> cur
         | Some (_, rest) \<Rightarrow>
             (case parse_int (trim_suffix (trim_space rest) ''ms'') of
                None \<Rightarrow> cur
              | Some n \<Rightarrow> cur\<lparr>DumpDurationMs := n\<rparr>))
      else
        (case rx_submatch handlerLineRE s of
           Some [m1, m2] \<Rightarrow>
             (case (atoi m1, parse_int m2) of
                (Some i, Some keys) \<Rightarrow> cur\<lparr>HandlerKeys := map_put i keys (HandlerKeys cur)\<rparr>
              | _ \<Rightarrow> cur)
         | _ \<Rightarrow> cur))"

section \<open>The loop over the lines\<close>

type_synonym upcall_state = "(string, upcall_datapath) gomap \<times> string option"

definition new_upcall_datapath :: "string \<Rightarrow> upcall_datapath" where
  "new_upcall_datapath name =
     \<lparr>U_Name = name, FlowsCurrent = 0, FlowsAvg = 0, FlowsMax = 0, FlowsLimit = 0,
      DumpDurationMs = 0, HandlerKeys = []\<rparr>"

definition upcall_line :: "upcall_state \<Rightarrow> string \<Rightarrow> upcall_state" where
  "upcall_line = (\<lambda>(out, cur) line.
     (if trim_space line = [] then (out, cur)
      else if \<not> has_prefix line '' '' \<and> \<not> has_prefix line [tab]
        \<and> has_suffix (trim_space line) '':'' then
        (let name = trim_suffix (trim_space line) '':''
         in (map_put name (new_upcall_datapath name) out, Some name))
      else
        (case cur of
           None \<Rightarrow> (out, cur)
         | Some d \<Rightarrow> (map_adjust d (upcall_stat (trim_space line)) out, cur))))"

definition upcall_of_text :: "string \<Rightarrow> upcall" where
  "upcall_of_text text =
     \<lparr>Upcall_Datapaths = fst (foldl upcall_line ([], None) (split_on newline text))\<rparr>"

definition parse_upcall :: "string \<Rightarrow> parse_error + upcall" where
  "parse_upcall raw =
     (case json_unmarshal_string raw of
        None \<Rightarrow> Inl (Unmarshal_error ''upcall'')
      | Some text \<Rightarrow> Inr (upcall_of_text text))"

section \<open>Invariant\<close>

text \<open>Names are keys; flow counts, handler ids and key counts are never negative.\<close>

definition handler_ok :: "int64 \<times> int64 \<Rightarrow> bool" where
  "handler_ok = (\<lambda>(i, keys). 0 \<le> sint i \<and> 0 \<le> sint keys)"

definition upcall_datapath_ok :: "string \<times> upcall_datapath \<Rightarrow> bool" where
  "upcall_datapath_ok = (\<lambda>(k, d). U_Name d = k
     \<and> 0 \<le> sint (FlowsCurrent d) \<and> 0 \<le> sint (FlowsAvg d) \<and> 0 \<le> sint (FlowsMax d)
     \<and> 0 \<le> sint (FlowsLimit d) \<and> map_ok (HandlerKeys d) \<and> list_all handler_ok (HandlerKeys d))"

definition upcall_ok :: "upcall \<Rightarrow> bool" where
  "upcall_ok u \<longleftrightarrow> map_ok (Upcall_Datapaths u) \<and> list_all upcall_datapath_ok (Upcall_Datapaths u)"

lemma rx_find_all_Nil [simp]: "rx_find_all r [] = []"
  by (simp add: rx_find_all.simps)

lemma rx_find_all_Cons: "rx_find_all r (c # cs) =
    (case rx_match r (c # cs) of
       Some (gs, rest) \<Rightarrow>
         if length rest < length (c # cs) then gs # rx_find_all r rest else rx_find_all r cs
     | None \<Rightarrow> rx_find_all r cs)"
  by (subst rx_find_all.simps) simp

lemma rx_find_all_groups:
  "m \<in> set (rx_find_all r s) \<Longrightarrow> list_all2 (\<lambda>p g. g \<noteq> [] \<and> list_all p g) (rx_caps r) m"
proof (induction r s rule: rx_find_all.induct)
  case (1 r s)
  show ?case
  proof (cases s)
    case (Cons c cs)
    note prems = "1.prems" [unfolded Cons rx_find_all_Cons]
    show ?thesis
    proof (cases "rx_match r (c # cs)")
      case None
      with prems "1.IH"(1) Cons show ?thesis by simp
    next
      case (Some q)
      obtain gs rest where q: "q = (gs, rest)" by force
      with prems Some have "m = gs \<or> m \<in> set (rx_find_all r rest) \<and> length rest < length s
          \<or> m \<in> set (rx_find_all r cs) \<and> \<not> length rest < length s"
        using Cons by (auto split: if_splits)
      with "1.IH"(2,3) [OF Cons _ q [symmetric]] Some Cons q show ?thesis
        by (auto intro: rx_match_groups)
    qed
  qed (use "1.prems" in \<open>simp add: rx_find_all.simps\<close>)
qed

lemma flow_pair_ok:
  assumes "upcall_datapath_ok (k, d)" and "list_all2 (\<lambda>p g. g \<noteq> [] \<and> list_all p g) (rx_caps parenPairRE) m"
  shows "upcall_datapath_ok (k, upcall_flow_pair d m)"
proof -
  obtain m1 m2 where m: "m = [m1, m2]" and digits: "list_all is_digit m2"
    using assms(2) by (auto simp: parenPairRE_def list_all2_Cons1)
  show ?thesis
  proof (cases "parse_int m2")
    case (Some n)
    have "0 \<le> sint n"
      using digits Some by (rule parse_int_digits)
    with assms(1) Some show ?thesis
      by (simp add: m upcall_flow_pair_def upcall_datapath_ok_def)
  qed (use assms(1) in \<open>simp add: m upcall_flow_pair_def\<close>)
qed

lemma flow_pairs_ok:
  assumes "upcall_datapath_ok (k, d)" and "\<forall>m \<in> set ms. list_all2 (\<lambda>p g. g \<noteq> [] \<and> list_all p g) (rx_caps parenPairRE) m"
  shows "upcall_datapath_ok (k, foldl upcall_flow_pair d ms)"
  using assms by (induction ms arbitrary: d) (auto simp: flow_pair_ok)

lemma upcall_stat_ok:
  assumes "upcall_datapath_ok (k, d)"
  shows "upcall_datapath_ok (k, upcall_stat s d)"
proof -
  have "upcall_datapath_ok (k, foldl upcall_flow_pair d (rx_find_all parenPairRE s))"
    using assms rx_find_all_groups by (intro flow_pairs_ok) auto
  moreover have "upcall_datapath_ok (k, d\<lparr>DumpDurationMs := n\<rparr>)" for n
    using assms by (simp add: upcall_datapath_ok_def)
  moreover have "upcall_datapath_ok (k, d\<lparr>HandlerKeys := map_put i keys (HandlerKeys d)\<rparr>)"
    if "rx_submatch handlerLineRE s = Some [m1, m2]" "atoi m1 = Some i" "parse_int m2 = Some keys"
    for m1 m2 i keys
  proof -
    have "list_all is_digit m1" "list_all is_digit m2"
      using rx_submatch_groups [OF that(1)] by (auto simp: handlerLineRE_def)
    with that assms show ?thesis
      by (auto simp: upcall_datapath_ok_def atoi_def handler_ok_def
          intro!: list_all_put dest: parse_int_digits)
  qed
  ultimately show ?thesis
    using assms by (auto simp: upcall_stat_def split: option.splits list.splits prod.splits)
qed

lemma upcall_line_ok:
  assumes "map_ok (fst st) \<and> list_all upcall_datapath_ok (fst st)"
  shows "map_ok (fst (upcall_line st line)) \<and> list_all upcall_datapath_ok (fst (upcall_line st line))"
proof -
  have "upcall_datapath_ok (name, new_upcall_datapath name)" for name
    by (simp add: upcall_datapath_ok_def new_upcall_datapath_def)
  with assms show ?thesis
    by (cases st) (auto simp: upcall_line_def Let_def intro!: list_all_put list_all_adjust
        upcall_stat_ok split: option.splits)
qed

lemma upcall_of_text_ok: "upcall_ok (upcall_of_text text)"
  unfolding upcall_ok_def upcall_of_text_def upcall.simps
  by (rule foldl_invariant [where P = "\<lambda>st. map_ok (fst st) \<and> list_all upcall_datapath_ok (fst st)"])
    (rule upcall_line_ok, assumption, simp)

interpretation upcall_p: appctl_parser "''upcall''" parse_upcall upcall_of_text upcall_ok
  by unfold_locales (simp_all add: parse_upcall_def upcall_of_text_ok)

section \<open>The printed report\<close>

text \<open>
  What \<^verbatim>\<open>ovs-vswitchd\<close> prints for one datapath: the flow counts in parentheses, the dump
  duration with its unit, further lines the parser has no use for, and one line per handler.
\<close>

record printed_upcall =
  UValue :: upcall_datapath
  UExtra :: "string list"

definition flow_pair :: "string \<Rightarrow> int64 \<Rightarrow> string" where
  "flow_pair k n = ''('' @ k @ '' '' @ format_int n @ '')''"

definition flows_text :: "upcall_datapath \<Rightarrow> string" where
  "flows_text d = ''flows         : '' @ flow_pair ''current'' (FlowsCurrent d)
     @ '' '' @ flow_pair ''avg'' (FlowsAvg d) @ '' '' @ flow_pair ''max'' (FlowsMax d)
     @ '' '' @ flow_pair ''limit'' (FlowsLimit d)"

definition duration_text :: "upcall_datapath \<Rightarrow> string" where
  "duration_text d = ''dump duration : '' @ format_int (DumpDurationMs d) @ ''ms''"

definition handler_text :: "int64 \<times> int64 \<Rightarrow> string" where
  "handler_text h = format_int (fst h) @ '': (keys '' @ format_int (snd h) @ '')''"

definition printed_upcall_lines :: "printed_upcall \<Rightarrow> string list" where
  "printed_upcall_lines p = (let d = UValue p in
     (U_Name d @ '':'') # map ((@) ''  '')
       (flows_text d # duration_text d # UExtra p @ map handler_text (HandlerKeys d)))"

definition upcall_report :: "printed_upcall list \<Rightarrow> string" where
  "upcall_report ps = join [newline] (concat (map printed_upcall_lines ps) @ [[]])"

definition upcall_noise :: "string \<Rightarrow> bool" where
  "upcall_noise s \<longleftrightarrow> s = [] \<or> list_all ascii s \<and> newline \<notin> set s \<and> \<not> blank (hd s)
     \<and> \<not> blank (last s) \<and> \<not> is_digit (hd s)
     \<and> \<not> has_prefix s ''flows'' \<and> \<not> has_prefix s ''dump duration''"

definition printed_upcall_ok :: "printed_upcall \<Rightarrow> bool" where
  "printed_upcall_ok p \<longleftrightarrow> plain (U_Name (UValue p)) \<and> list_all upcall_noise (UExtra p)
     \<and> upcall_datapath_ok (U_Name (UValue p), UValue p)"

lemma find_all_skip: "CHR ''('' \<notin> set w \<Longrightarrow>
    rx_find_all parenPairRE (w @ s) = rx_find_all parenPairRE s"
  by (induction w) (auto simp: rx_find_all_Cons parenPairRE_def)

lemma rx_plus_space: "\<not> cls_space c \<Longrightarrow> rx_match r (c # s) = Some (gs, rest) \<Longrightarrow>
    rx_match (Plus cls_space # r) (CHR 0x20 # c # s) = Some (gs, rest)"
  using rx_plus_run [of cls_space "[CHR 0x20]" "c # s" r gs rest] by (simp add: cls_space_def)

lemma rx_star_space: "\<not> cls_space c \<Longrightarrow> rx_match r (c # s) = Some (gs, rest) \<Longrightarrow>
    rx_match (Star cls_space # r) (CHR 0x20 # c # s) = Some (gs, rest)"
  using rx_star_run [of cls_space "[CHR 0x20]" "c # s" r gs rest] by (simp add: cls_space_def)

lemma digits_then:
  assumes "0 \<le> sint n" and "\<not> is_digit c" and "rx_match r (c # s) = Some (gs, rest)"
  shows "rx_match (Cap is_digit # r) (format_int n @ c # s) = Some (format_int n # gs, rest)"
  using assms by (intro rx_cap_run) (auto simp: format_int_digits)

lemma format_int_Cons:
  assumes "0 \<le> sint n"
  obtains c cs where "format_int n = c # cs" and "is_digit c"
  using hd_format_digit [OF assms] by (cases "format_int n") auto

lemma space_then_digits:
  assumes "0 \<le> sint n" and "rx_match r (format_int n @ s) = Some (gs, rest)"
  shows "rx_match (Plus cls_space # r) (CHR 0x20 # format_int n @ s) = Some (gs, rest)"
proof -
  obtain c cs where c: "format_int n = c # cs" and d: "is_digit c"
    using assms(1) by (rule format_int_Cons)
  show ?thesis
    using rx_plus_space [of c r "cs @ s" gs rest] digit_nonspace [OF d] assms(2) by (simp add: c)
qed

lemma find_all_pair:
  assumes "list_all cls_lower k" and "k \<noteq> []" and n: "0 \<le> sint n"
  shows "rx_find_all parenPairRE (flow_pair k n @ s) = [k, format_int n] # rx_find_all parenPairRE s"
proof -
  have close: "\<not> is_digit (CHR '')'')" and open_sp: "\<not> cls_lower (CHR 0x20)"
    by (simp_all add: is_digit_def cls_lower_def)
  have "rx_match [Cap is_digit, Lit (CHR '')'')] (format_int n @ CHR '')'' # s)
      = Some ([format_int n], s)"
    by (rule digits_then [OF n close]) simp
  from space_then_digits [OF n this]
  have "rx_match (tl parenPairRE) (k @ CHR 0x20 # format_int n @ CHR '')'' # s)
      = Some ([k, format_int n], s)"
    unfolding parenPairRE_def list.sel
    by (intro rx_cap_run assms(1,2)) (use open_sp in simp_all)
  moreover have "rx_match parenPairRE (CHR ''('' # t) = rx_match (tl parenPairRE) t" for t
    by (simp add: parenPairRE_def)
  ultimately have "rx_match parenPairRE (flow_pair k n @ s) = Some ([k, format_int n], s)"
    by (simp add: flow_pair_def)
  moreover obtain c cs where "flow_pair k n @ s = c # cs" "length s < length (c # cs)"
    by (simp add: flow_pair_def)
  ultimately show ?thesis
    by (simp add: rx_find_all_Cons)
qed

lemma stat_flows:
  assumes "0 \<le> sint (FlowsCurrent d)" "0 \<le> sint (FlowsAvg d)" "0 \<le> sint (FlowsMax d)"
    "0 \<le> sint (FlowsLimit d)"
  shows "upcall_stat (flows_text d) x = x\<lparr>FlowsCurrent := FlowsCurrent d, FlowsAvg := FlowsAvg d,
      FlowsMax := FlowsMax d, FlowsLimit := FlowsLimit d\<rparr>"
proof -
  have words: "list_all cls_lower ''current''" "list_all cls_lower ''avg''"
    "list_all cls_lower ''max''" "list_all cls_lower ''limit''"
    by (simp_all add: cls_lower_def)
  have one: "rx_find_all parenPairRE (CHR 0x20 # s) = rx_find_all parenPairRE s" for s
    using find_all_skip [of "'' ''" s] by simp
  have "rx_find_all parenPairRE (flow_pair k n) = [[k, format_int n]]"
    if "list_all cls_lower k" "k \<noteq> []" "0 \<le> sint n" for k n
    using find_all_pair [OF that, of "[]"] by simp
  then have "rx_find_all parenPairRE (flows_text d) = [[''current'', format_int (FlowsCurrent d)],
      [''avg'', format_int (FlowsAvg d)], [''max'', format_int (FlowsMax d)],
      [''limit'', format_int (FlowsLimit d)]]"
    using assms words find_all_skip [of "''flows         : ''"]
    unfolding flows_text_def by (simp only: append_Cons append_Nil) (simp add: find_all_pair one)
  moreover have "has_prefix (flows_text d) ''flows''"
    by (simp add: flows_text_def)
  ultimately show ?thesis
    by (simp add: upcall_stat_def upcall_flow_pair_def)
qed

lemma stat_duration: "upcall_stat (duration_text d) x = x\<lparr>DumpDurationMs := DumpDurationMs d\<rparr>"
proof -
  let ?v = "format_int (DumpDurationMs d) @ ''ms''"
  have "str_cut (CHR 0x3A) (''dump duration '' @ CHR 0x3A # '' '' @ ?v) = Some (''dump duration '', '' '' @ ?v)"
    by (rule cut_append) simp
  moreover have "trim_space ('' '' @ ?v) = ?v"
    by (simp add: plain_simps)
  moreover have "\<not> has_prefix (duration_text d) ''flows''" "has_prefix (duration_text d) ''dump duration''"
    by (simp_all add: duration_text_def)
  moreover have "trim_suffix ?v ''ms'' = format_int (DumpDurationMs d)"
    by (rule trim_suffix_append)
  ultimately show ?thesis
    by (simp add: upcall_stat_def duration_text_def del: trim_suffix_append)
qed

lemma handler_no_match: "s = [] \<or> \<not> is_digit (hd s) \<Longrightarrow> rx_submatch handlerLineRE s = None"
  by (cases s) (auto simp: rx_submatch_def handlerLineRE_def)

lemma stat_noise: "upcall_noise s \<Longrightarrow> upcall_stat s x = x"
  by (auto simp: upcall_noise_def upcall_stat_def handler_no_match)

lemma handler_match:
  assumes "handler_ok h"
  shows "rx_submatch handlerLineRE (handler_text h) = Some [format_int (fst h), format_int (snd h)]"
proof -
  have i: "0 \<le> sint (fst h)" and k: "0 \<le> sint (snd h)"
    using assms by (simp_all add: handler_ok_def split_beta)
  have colon: "\<not> is_digit (CHR 0x3A)" and close: "\<not> is_digit (CHR '')'')"
    and paren: "\<not> cls_space (CHR ''('')"
    by (simp_all add: is_digit_def cls_space_def)
  have "rx_match [Cap is_digit, Lit (CHR '')'')] (format_int (snd h) @ CHR '')'' # [])
      = Some ([format_int (snd h)], [])"
    by (rule digits_then [OF k close]) simp
  from space_then_digits [OF k this]
  have "rx_match (lits ''(keys'' @ [Plus cls_space, Cap is_digit, Lit (CHR '')'')])
      (''(keys'' @ CHR 0x20 # format_int (snd h) @ CHR '')'' # []) = Some ([format_int (snd h)], [])"
    by (simp only: rx_lits)
  then have "rx_match (Star cls_space # lits ''(keys'' @ [Plus cls_space, Cap is_digit, Lit (CHR '')'')])
      (CHR 0x20 # ''(keys'' @ CHR 0x20 # format_int (snd h) @ CHR '')'' # []) = Some ([format_int (snd h)], [])"
    unfolding append_Cons by (rule rx_star_space [OF paren])
  then have "rx_match (Lit (CHR 0x3A) # Star cls_space # lits ''(keys'' @ [Plus cls_space, Cap is_digit, Lit (CHR '')'')])
      (CHR 0x3A # CHR 0x20 # ''(keys'' @ CHR 0x20 # format_int (snd h) @ CHR '')'' # [])
      = Some ([format_int (snd h)], [])"
    by (simp only: rx_match.simps rx_item.case list.case simp_thms if_True)
  then have "rx_match handlerLineRE (format_int (fst h) @ CHR 0x3A # CHR 0x20 # ''(keys'' @ CHR 0x20
        # format_int (snd h) @ CHR '')'' # []) = Some ([format_int (fst h), format_int (snd h)], [])"
    unfolding handlerLineRE_def append_Cons append_Nil by (rule digits_then [OF i colon])
  then show ?thesis
    by (simp add: rx_submatch_def handler_text_def)
qed

lemma stat_handler:
  assumes "handler_ok h"
  shows "upcall_stat (handler_text h) x
    = x\<lparr>HandlerKeys := map_put (fst h) (snd h) (HandlerKeys x)\<rparr>"
proof -
  obtain c cs where c: "format_int (fst h) = c # cs" and "is_digit c"
    using assms by (auto simp: handler_ok_def split_beta intro: format_int_Cons)
  then have "c \<noteq> CHR ''f''" "c \<noteq> CHR ''d''"
    by (auto simp: is_digit_def)
  then have "\<not> has_prefix (handler_text h) ''flows''" "\<not> has_prefix (handler_text h) ''dump duration''"
    by (simp_all add: handler_text_def c)
  then show ?thesis
    using handler_match [OF assms] by (simp add: upcall_stat_def)
qed

text \<open>Texts the report puts after its two spaces of indentation.\<close>

definition stat_ok :: "string \<Rightarrow> bool" where
  "stat_ok s \<longleftrightarrow> s = [] \<or> list_all ascii s \<and> newline \<notin> set s \<and> \<not> blank (hd s) \<and> \<not> blank (last s)"

lemma stat_ok_trim: "stat_ok s \<Longrightarrow> trim_space (''  '' @ s) = s"
  by (cases "s = []") (auto simp: stat_ok_def trimmed_ascii ascii_def blank_def)

lemma upcall_line_stat:
  assumes "stat_ok s" and "s \<noteq> []" and "d \<notin> set (map_keys out)"
  shows "upcall_line (out @ [(d, x)], Some d) (''  '' @ s) = (out @ [(d, upcall_stat s x)], Some d)"
  using assms stat_ok_trim [OF assms(1)] by (simp add: upcall_line_def)

lemma upcall_line_noise:
  assumes "upcall_noise s" and "d \<notin> set (map_keys out)"
  shows "upcall_line (out @ [(d, x)], Some d) (''  '' @ s) = (out @ [(d, x)], Some d)"
proof (cases "s = []")
  case True
  then show ?thesis
    using stat_ok_trim [of s] by (simp add: upcall_line_def stat_ok_def)
next
  case False
  moreover have "stat_ok s"
    using assms(1) by (auto simp: upcall_noise_def stat_ok_def)
  ultimately show ?thesis
    using assms stat_noise [OF assms(1), of x] upcall_line_stat [of s d out x] by simp
qed

lemma flow_pair_ascii [simp]: "list_all ascii k \<Longrightarrow> list_all ascii (flow_pair k n)"
  "newline \<notin> set k \<Longrightarrow> newline \<notin> set (flow_pair k n)" "flow_pair k n \<noteq> []"
  "last (flow_pair k n) = CHR '')''"
  by (simp_all add: flow_pair_def ascii_def)

lemma stat_ok_texts: "stat_ok (flows_text d)" "stat_ok (duration_text d)" "stat_ok (handler_text h)"
    "flows_text d \<noteq> []" "duration_text d \<noteq> []" "handler_text h \<noteq> []"
proof -
  have "\<not> blank (hd (format_int n))" for n
    using format_int_num [of n] format_int_nonempty [of n] by (cases "format_int n") auto
  then show "stat_ok (flows_text d)" "stat_ok (duration_text d)" "stat_ok (handler_text h)"
    by (auto simp: stat_ok_def flows_text_def duration_text_def handler_text_def ascii_def blank_def)
qed (simp_all add: flows_text_def duration_text_def handler_text_def)

lemma upcall_line_header:
  assumes "plain name" and "name \<notin> set (map_keys out)"
  shows "upcall_line (out, cur) (name @ '':'') = (out @ [(name, new_upcall_datapath name)], Some name)"
proof -
  obtain c cs where c: "name = c # cs"
    using assms(1) by (cases name) auto
  have "c \<noteq> CHR 0x20" "c \<noteq> tab"
    using plain_no_blank [OF assms(1), of "CHR 0x20"] plain_no_blank [OF assms(1), of tab]
    by (auto simp: c)
  then have "\<not> has_prefix (name @ '':'') '' ''" "\<not> has_prefix (name @ '':'') [tab]"
    by (simp_all add: c)
  moreover have "trim_space (name @ '':'') = name @ '':''"
    using assms(1) by (simp add: plain_simps)
  ultimately show ?thesis
    using assms(2) has_suffix_append [of name "'':''"] trim_suffix_append [of name "'':''"]
    by (simp add: upcall_line_def Let_def del: has_suffix_append trim_suffix_append)
qed

lemma upcall_noise_printed:
  assumes "list_all upcall_noise ss" and "d \<notin> set (map_keys out)"
  shows "foldl upcall_line (out @ [(d, x)], Some d) (map ((@) ''  '') ss) = (out @ [(d, x)], Some d)"
  using assms upcall_line_noise by (induction ss) simp_all

lemma upcall_handlers_printed:
  assumes "list_all handler_ok hs" and "d \<notin> set (map_keys out)"
  shows "foldl upcall_line (out @ [(d, x)], Some d) (map ((@) ''  '') (map handler_text hs))
    = (out @ [(d, x\<lparr>HandlerKeys := put_all hs (HandlerKeys x)\<rparr>)], Some d)"
  using assms(1)
proof (induction hs arbitrary: x)
  case (Cons h hs)
  have "upcall_line (out @ [(d, x)], Some d) (''  '' @ handler_text h)
      = (out @ [(d, x\<lparr>HandlerKeys := map_put (fst h) (snd h) (HandlerKeys x)\<rparr>)], Some d)"
    using Cons.prems upcall_line_stat [OF stat_ok_texts(3,6) assms(2)] by (simp add: stat_handler)
  with Cons show ?case
    by (cases h) simp
qed simp

lemma upcall_datapath_printed:
  assumes "printed_upcall_ok p" and "U_Name (UValue p) \<notin> set (map_keys out)"
  shows "foldl upcall_line (out, cur) (printed_upcall_lines p)
    = (out @ [(U_Name (UValue p), UValue p)], Some (U_Name (UValue p)))"
proof -
  let ?d = "UValue p" and ?n = "U_Name (UValue p)"
  have ok: "plain ?n" "list_all upcall_noise (UExtra p)" "map_ok (HandlerKeys ?d)"
      "list_all handler_ok (HandlerKeys ?d)" "0 \<le> sint (FlowsCurrent ?d)" "0 \<le> sint (FlowsAvg ?d)"
      "0 \<le> sint (FlowsMax ?d)" "0 \<le> sint (FlowsLimit ?d)"
    using assms(1) by (simp_all add: printed_upcall_ok_def upcall_datapath_ok_def)
  have "put_all (HandlerKeys ?d) [] = HandlerKeys ?d"
    using ok(3) by (simp add: map_ok_def)
  then show ?thesis
    using ok assms(2) upcall_line_header [OF ok(1) assms(2), of cur]
      upcall_line_stat [OF stat_ok_texts(1,4) assms(2)]
      upcall_line_stat [OF stat_ok_texts(2,5) assms(2)]
      upcall_noise_printed [OF ok(2) assms(2)] upcall_handlers_printed [OF ok(4) assms(2)]
    by (simp add: printed_upcall_lines_def Let_def stat_flows stat_duration new_upcall_datapath_def
        del: map_map)
qed

lemma upcall_lines_printed:
  assumes "list_all printed_upcall_ok ps"
    and "distinct (map_keys out @ map (U_Name \<circ> UValue) ps)"
  shows "fst (foldl upcall_line (out, cur) (concat (map printed_upcall_lines ps)))
    = out @ map (\<lambda>p. (U_Name (UValue p), UValue p)) ps"
  using assms
proof (induction ps arbitrary: out cur)
  case (Cons p ps)
  then show ?case
    by (simp add: upcall_datapath_printed)
qed simp

lemma printed_upcall_line_ok:
  assumes "printed_upcall_ok p" and "line \<in> set (printed_upcall_lines p)"
  shows "newline \<notin> set line \<and> list_all ascii line"
proof -
  have "newline \<notin> set s \<and> list_all ascii s" if "stat_ok s" for s
    using that by (auto simp: stat_ok_def)
  moreover have "stat_ok s" if "upcall_noise s" for s
    using that by (auto simp: upcall_noise_def stat_ok_def)
  moreover have "newline \<notin> set (U_Name (UValue p)) \<and> list_all ascii (U_Name (UValue p))"
    using assms(1) by (auto simp: printed_upcall_ok_def plain_no_blank)
  moreover have "list_all upcall_noise (UExtra p)"
    using assms(1) by (simp add: printed_upcall_ok_def)
  ultimately show ?thesis
    using assms(2) stat_ok_texts(1-3)
    by (auto simp: printed_upcall_lines_def Let_def list_all_iff [of upcall_noise] ascii_def)
qed

section \<open>Properties\<close>

text \<open>The report as a text.\<close>

lemma upcall_report_text:
  assumes "list_all printed_upcall_ok ps" and "distinct (map (U_Name \<circ> UValue) ps)"
  shows "list_all ascii (upcall_report ps)" and "upcall_of_text (upcall_report ps) = \<lparr>Upcall_Datapaths = map (\<lambda>p. (U_Name (UValue p), UValue p)) ps\<rparr>"
proof -
  let ?lines = "concat (map printed_upcall_lines ps)"
  have lines: "\<forall>line \<in> set (?lines @ [[]]). newline \<notin> set line \<and> list_all ascii line"
    using assms(1) printed_upcall_line_ok by (auto simp: list_all_iff [of printed_upcall_ok])
  then have "list_all ascii (upcall_report ps)"
    unfolding upcall_report_def by (intro join_ascii) (auto simp: ascii_def)
  moreover have "split_on newline (upcall_report ps) = ?lines @ [[]]"
    unfolding upcall_report_def using lines by (intro split_on_join) auto
  moreover have "upcall_line st [] = st" for st
    by (cases st) (simp add: upcall_line_def)
  ultimately show "list_all ascii (upcall_report ps)"
    and "upcall_of_text (upcall_report ps) = \<lparr>Upcall_Datapaths = map (\<lambda>p. (U_Name (UValue p), UValue p)) ps\<rparr>"
    using upcall_lines_printed [of ps "[]" None] assms
    by (simp_all add: upcall_of_text_def)
qed

text \<open>Property C15. Round trip: the report of any list of datapaths with distinct names parses to
  exactly their flow counts, dump duration and handler key counts, whatever other lines the
  switch prints between the duration and the handlers.\<close>

theorem upcall_report_parsed:
  assumes "list_all printed_upcall_ok ps" and "distinct (map (U_Name \<circ> UValue) ps)"
  shows "parse_upcall (json_quote (upcall_report ps))
    = Inr \<lparr>Upcall_Datapaths = map (\<lambda>p. (U_Name (UValue p), UValue p)) ps\<rparr>"
  using upcall_p.parse_quote [OF upcall_report_text(1) [OF assms]] upcall_report_text(2) [OF assms] by simp

theorem upcall_report_parsed_witness:
  "parse_upcall (json_quote (upcall_report
      [\<lparr>UValue = \<lparr>U_Name = ''system@ovs-system'', FlowsCurrent = 259, FlowsAvg = 287,
          FlowsMax = 2511, FlowsLimit = 200000, DumpDurationMs = 1,
          HandlerKeys = [(75, 24), (76, 29)]\<rparr>,
        UExtra = [''ufid enabled : true'', []]\<rparr>]))
   = Inr \<lparr>Upcall_Datapaths = [(''system@ovs-system'', \<lparr>U_Name = ''system@ovs-system'',
          FlowsCurrent = 259, FlowsAvg = 287, FlowsMax = 2511, FlowsLimit = 200000,
          DumpDurationMs = 1, HandlerKeys = [(75, 24), (76, 29)]\<rparr>)]\<rparr>"
  by (subst upcall_report_parsed)
    (simp_all add: printed_upcall_ok_def upcall_datapath_ok_def upcall_noise_def handler_ok_def
      plain_simps is_digit_def map_ok_def)

end
