(* ===== verification/Discover.thy ===== *)
theory Discover
  imports GoPath GoStrconv
begin

text \<open>
  \<^verbatim>\<open>internal/unixctl/discover.go\<close>: finding the control socket of a daemon from its pid file,
  or from the names in the run directory.
\<close>

datatype discover_error =
    Run_dir_empty
  | Daemon_empty
  | Glob_error string string
  | No_socket string string

definition socketFromPIDFile :: "filesystem \<Rightarrow> string \<Rightarrow> string \<Rightarrow> string option" where
  "socketFromPIDFile fs runDir daemon =
     (case fs_read fs (path_join [runDir, daemon @ ''.pid'']) of
        None \<Rightarrow> None
      | Some raw \<Rightarrow>
          (case atoi (trim_space raw) of
             None \<Rightarrow> None
           | Some pid \<Rightarrow> Some (path_join [runDir, daemon @ ''.'' @ format_int pid @ ''.ctl''])))"

definition discover_glob :: "filesystem \<Rightarrow> string \<Rightarrow> string \<Rightarrow> discover_error + string" where
  "discover_glob fs runDir daemon =
     (case path_glob fs (path_join [runDir, daemon @ ''.*.ctl'']) of
        None \<Rightarrow> Inl (Glob_error runDir daemon)
      | Some [] \<Rightarrow> Inl (No_socket daemon runDir)
      | Some (m # _) \<Rightarrow> Inr m)"

definition DiscoverSocket :: "filesystem \<Rightarrow> string \<Rightarrow> string \<Rightarrow> discover_error + string" where
  "DiscoverSocket fs runDir daemon =
     (if runDir = [] then Inl Run_dir_empty
      else if daemon = [] then Inl Daemon_empty
      else
        (case socketFromPIDFile fs runDir daemon of
           Some path \<Rightarrow>
             if fs_exists fs path then Inr path else discover_glob fs runDir daemon
         | None \<Rightarrow> discover_glob fs runDir daemon))"

section \<open>Which socket is found\<close>

text \<open>
  The names of control sockets of a daemon in a directory: \<open>daemon.X.ctl\<close> for any \<open>X\<close>.
\<close>

definition ctl_name :: "string \<Rightarrow> string \<Rightarrow> bool" where
  "ctl_name daemon n \<longleftrightarrow> has_prefix n (daemon @ ''.'') \<and> has_suffix n ''.ctl''
     \<and> length daemon + 5 \<le> length n \<and> slash \<notin> set n"

text \<open>Directories and daemon names without pattern characters and already in clean form.\<close>

definition clean_config :: "string list \<Rightarrow> string \<Rightarrow> bool" where
  "clean_config segs daemon \<longleftrightarrow> segs \<noteq> [] \<and> list_all segment segs \<and> \<not> has_meta (abs_path segs)
     \<and> daemon \<noteq> [] \<and> slash \<notin> set daemon \<and> \<not> has_meta daemon"

lemma daemon_segment:
  assumes "daemon \<noteq> []" and "slash \<notin> set daemon" and "slash \<notin> set s" and "2 \<le> length s"
  shows "segment (daemon @ s)"
  using assms by (auto simp: segment_def Cons_eq_append_conv append_eq_Cons_conv)

lemma join_daemon:
  assumes "clean_config segs daemon" and "slash \<notin> set s" and "2 \<le> length s"
  shows "path_join [abs_path segs, daemon @ s] = abs_path segs @ slash # daemon @ s"
proof -
  have "path_join [abs_path segs, daemon @ s] = abs_path (segs @ [daemon @ s])"
    using assms by (intro path_join_abs daemon_segment) (auto simp: clean_config_def)
  also have "\<dots> = abs_path segs @ slash # daemon @ s"
    using assms(1) by (simp add: abs_path_def join_snoc clean_config_def)
  finally show ?thesis .
qed

lemma ctl_match:
  assumes "slash \<notin> set daemon"
  shows "glob_match (map GLit (daemon @ ''.'') @ GStar # map GLit ''.ctl'') n \<longleftrightarrow> ctl_name daemon n"
proof -
  have "glob_match (map GLit (daemon @ ''.'') @ GStar # map GLit ''.ctl'') n
      \<longleftrightarrow> (\<exists>x. slash \<notin> set x \<and> n = (daemon @ ''.'') @ x @ ''.ctl'')"
    unfolding glob_match_literal glob_match_star_literal by blast
  also have "\<dots> \<longleftrightarrow> ctl_name daemon n"
  proof
    assume "ctl_name daemon n"
    then have pre: "prefix (daemon @ ''.'') n" and "\<exists>u. n = u @ ''.ctl''"
        and l: "length daemon + 5 \<le> length n" and s: "slash \<notin> set n"
      unfolding ctl_name_def has_suffix_iff by blast+
    then obtain u where u: "n = u @ ''.ctl''" by blast
    from pre obtain t where t: "n = (daemon @ ''.'') @ t"
      by (rule prefixE)
    from l u
    have "length (daemon @ ''.'') \<le> length u"
      by simp
    with t u obtain x where "u = (daemon @ ''.'') @ x"
      by (metis append_eq_append_conv_if append_take_drop_id)
    with u s show "\<exists>x. slash \<notin> set x \<and> n = (daemon @ ''.'') @ x @ ''.ctl''"
      by auto
  qed (use assms in \<open>auto simp: ctl_name_def has_suffix_iff prefix_def\<close>)
  finally show ?thesis .
qed

lemma ctl_segment: "ctl_name daemon n \<Longrightarrow> segment n"
  by (auto simp: ctl_name_def segment_def)

lemma ctl_glob:
  assumes c: "clean_config segs daemon"
  shows "path_glob fs (path_join [abs_path segs, daemon @ ''.*.ctl''])
    = Some (case fs (abs_path segs) of
        Some (Dir_node names) \<Rightarrow>
          map (\<lambda>n. abs_path segs @ slash # n) (filter (ctl_name daemon) (sort names))
      | _ \<Rightarrow> [])"
proof -
  let ?is = "map GLit (daemon @ ''.'') @ GStar # map GLit ''.ctl''"
  have d: "\<not> has_meta (abs_path segs)" "abs_path segs \<noteq> []" "slash \<notin> set (daemon @ ''.*.ctl'')"
    "has_meta (daemon @ ''.*.ctl'')" "\<not> has_meta (daemon @ ''.'')" "slash \<notin> set daemon"
    using c by (auto simp: clean_config_def abs_path_def has_meta_def meta_def)
  have "glob_parse ''*.ctl'' = Some (GStar # map GLit ''.ctl'')"
    by simp
  with glob_parse_literal [OF d(5), of "''*.ctl''"]
  have "glob_parse (daemon @ ''.*.ctl'') = Some ?is"
    by simp
  note glob = path_glob_plain_dir [OF d(1-4) this, of fs]
  have "glob_match ?is = ctl_name daemon"
    using ctl_match [OF d(6)] by (intro ext)
  moreover have "path_join [abs_path segs, n] = abs_path segs @ slash # n" if "ctl_name daemon n" for n
    using path_join_abs [of segs n] ctl_segment [OF that] c
    by (simp add: clean_config_def abs_path_def join_snoc)
  ultimately show ?thesis
    using glob join_daemon [OF c, of "''.*.ctl''"]
    by (auto split: option.split fs_node.split)
qed

text \<open>The sockets of the run directory, as the fallback sees them.\<close>

definition ctl_names :: "filesystem \<Rightarrow> string list \<Rightarrow> string \<Rightarrow> string list" where
  "ctl_names fs segs daemon =
     (case fs (abs_path segs) of Some (Dir_node names) \<Rightarrow> filter (ctl_name daemon) names | _ \<Rightarrow> [])"

lemma discover_glob_sorted:
  assumes "clean_config segs daemon"
  shows "discover_glob fs (abs_path segs) daemon =
    (case sort (ctl_names fs segs daemon) of
       [] \<Rightarrow> Inl (No_socket daemon (abs_path segs))
     | n # _ \<Rightarrow> Inr (abs_path segs @ slash # n))"
  using ctl_glob [OF assms, of fs]
  by (auto simp: discover_glob_def ctl_names_def filter_sort split: option.split fs_node.split list.split)

lemma sort_Cons_least: "sort xs = y # ys \<Longrightarrow> y \<in> set xs \<and> (\<forall>x \<in> set xs. y \<le> x)" for y :: "'a::linorder"
  by (metis list.set_intros(1) set_sort set_ConsD order_refl sorted_sort sorted_simps(2))

lemma pid_file_path:
  assumes "clean_config segs daemon" and "fs (abs_path segs @ slash # daemon @ ''.pid'') = Some (File_node (Some raw))"
    and "trim_space raw = format_int pid"
  shows "socketFromPIDFile fs (abs_path segs) daemon
    = Some (abs_path segs @ slash # daemon @ ''.'' @ format_int pid @ ''.ctl'')"
proof -
  have "slash \<notin> set (format_int pid)"
    by (rule format_int_notin) (simp add: num_char_def is_digit_def)
  then have "path_join [abs_path segs, daemon @ ''.'' @ format_int pid @ ''.ctl'']
      = abs_path segs @ slash # daemon @ ''.'' @ format_int pid @ ''.ctl''"
    using assms(1) by (intro join_daemon) auto
  moreover have "path_join [abs_path segs, daemon @ ''.pid''] = abs_path segs @ slash # daemon @ ''.pid''"
    using assms(1) by (intro join_daemon) auto
  ultimately show ?thesis
    using assms(2,3) by (simp add: socketFromPIDFile_def fs_read_def)
qed

section \<open>Properties\<close>

text \<open>Property C37. For a run directory given by a clean absolute path other than the root and a daemon
  name without a slash, neither with glob metacharacters: when the pid file holds a pid (any white space around it) and the socket of that pid exists,
  that socket is found, whatever other sockets are in the directory.\<close>

theorem discover_pid_socket:
  assumes "clean_config segs daemon"
    and "fs (abs_path segs @ slash # daemon @ ''.pid'') = Some (File_node (Some raw))"
    and "trim_space raw = format_int pid"
    and "fs (abs_path segs @ slash # daemon @ ''.'' @ format_int pid @ ''.ctl'') \<noteq> None"
  shows "DiscoverSocket fs (abs_path segs) daemon
    = Inr (abs_path segs @ slash # daemon @ ''.'' @ format_int pid @ ''.ctl'')"
proof -
  have "socketFromPIDFile fs (abs_path segs) daemon
      = Some (abs_path segs @ slash # daemon @ ''.'' @ format_int pid @ ''.ctl'')"
    using assms(1-3) by (rule pid_file_path)
  then show ?thesis
    using assms by (simp add: DiscoverSocket_def fs_exists_def clean_config_def abs_path_def)
qed

text \<open>Property C38. For a run directory given by a clean absolute path other than the root and a
  daemon name without a slash, neither with glob metacharacters: when the pid file names no socket that exists, the answer
  is the least name of the form \<open>daemon.X.ctl\<close> in the run directory, and an error exactly when there is none.\<close>

theorem discover_fallback_least:
  assumes "clean_config segs daemon"
    and "case socketFromPIDFile fs (abs_path segs) daemon of None \<Rightarrow> True | Some p \<Rightarrow> fs p = None"
  shows "case DiscoverSocket fs (abs_path segs) daemon of
      Inl e \<Rightarrow> e = No_socket daemon (abs_path segs) \<and> ctl_names fs segs daemon = []
    | Inr p \<Rightarrow> (\<exists>n \<in> set (ctl_names fs segs daemon). p = abs_path segs @ slash # n
        \<and> (\<forall>m \<in> set (ctl_names fs segs daemon). n \<le> m))"
proof -
  have "DiscoverSocket fs (abs_path segs) daemon = discover_glob fs (abs_path segs) daemon"
    using assms by (auto simp: DiscoverSocket_def clean_config_def abs_path_def fs_exists_def
        split: option.splits)
  moreover have "sort (ctl_names fs segs daemon) = [] \<Longrightarrow> ctl_names fs segs daemon = []"
    by (metis length_0_conv length_sort)
  ultimately show ?thesis
    using discover_glob_sorted [OF assms(1), of fs]
      sort_Cons_least [of "ctl_names fs segs daemon"]
    by (cases "sort (ctl_names fs segs daemon)") auto
qed

lemma example_config: "clean_config [''run''] ''d''"
  by (simp add: clean_config_def segment_def abs_path_def has_meta_def meta_def)

theorem discover_pid_socket_witness:
  "DiscoverSocket ((\<lambda>p. None)(''/run/d.pid'' \<mapsto> File_node (Some (''7'' @ [newline])),
      ''/run/d.7.ctl'' \<mapsto> Other_node, ''/run'' \<mapsto> Dir_node [''d.1.ctl'', ''d.7.ctl'', ''d.pid''])) ''/run'' ''d''
   = Inr ''/run/d.7.ctl''"
proof -
  have path: "abs_path [''run''] = ''/run''"
    by (simp add: abs_path_def)
  have seven: "format_int 7 = ''7''"
    by code_simp
  have "trim_space (''7'' @ [newline]) = ''7''"
    using trim_space_snoc_blank [of newline "''7''"] by (simp add: plain_simps)
  then show ?thesis
    using discover_pid_socket [OF example_config, of _ "''7'' @ [newline]" 7] by (simp add: path seven)
qed

theorem discover_fallback_least_witness:
  "case DiscoverSocket [''/run'' \<mapsto> Dir_node [''d.7.ctl'', ''x'', ''d.12.ctl'']] ''/run'' ''d'' of
     Inl e \<Rightarrow> False
   | Inr p \<Rightarrow> (\<exists>n \<in> {''d.7.ctl'', ''d.12.ctl''}. p = ''/run/'' @ n \<and> n \<le> ''d.7.ctl'' \<and> n \<le> ''d.12.ctl'')"
proof -
  let ?fs = "[''/run'' \<mapsto> Dir_node [''d.7.ctl'', ''x'', ''d.12.ctl'']]"
  have path: "abs_path [''run''] = ''/run''"
    by (simp add: abs_path_def)
  have names: "ctl_names ?fs [''run''] ''d'' = [''d.7.ctl'', ''d.12.ctl'']"
    by (simp add: ctl_names_def path ctl_name_def has_suffix_def)
  have "socketFromPIDFile ?fs ''/run'' ''d'' = None"
    using join_daemon [OF example_config, of "''.pid''"] by (simp add: socketFromPIDFile_def fs_read_def path)
  then show ?thesis
    using discover_fallback_least [OF example_config, of ?fs]
    by (auto simp: path names split: sum.splits)
qed

end
