(* ===== verification/UnixctlClient.thy ===== *)
theory UnixctlClient
  imports Discover
begin

text \<open>
  \<^verbatim>\<open>internal/unixctl/client.go\<close>: the JSON-RPC 1.0 client of a daemon's control socket. The
  client's state is explicit; what the outside world answers to one call (the file system, the
  dialled connection, the clock, the outcome of each read and write) is a record \<open>call_env\<close>,
  and a call returns the new state, the operations it performed on connections in order (a dial that opens
  none leaves no entry), and its result.
  The mutex makes calls atomic, so a sequence of calls is a sequence of these steps.
\<close>

section \<open>State\<close>

record client_config =
  SocketPath :: string
  RunDir :: string
  Daemon :: string
  DialTimeout :: int64
  CallTimeout :: int64
  Logger :: bool \<comment> \<open>a logger is set\<close>

record client =
  Cfg :: client_config
  Conn :: "nat option" \<comment> \<open>the connection\<close>
  Dec :: "nat option" \<comment> \<open>the connection the decoder reads\<close>
  Enc :: "nat option" \<comment> \<open>the connection the encoder writes\<close>
  NextID :: int64

record request =
  ReqMethod :: string
  ReqParams :: "string list"
  ReqID :: int64

record response =
  RespResult :: string \<comment> \<open>raw JSON\<close>
  RespError :: string \<comment> \<open>raw JSON, empty when the field is absent\<close>
  RespID :: int64

datatype client_new_error = Socket_required | Logger_required

datatype call_error =
    Discover_failed discover_error
  | Dial_failed string
  | Set_deadline_failed
  | Encode_failed string
  | Decode_failed string
  | Call_error string string

definition second_ns :: int64 where
  "second_ns = 1000000000"

definition client_new :: "client_config \<Rightarrow> client_new_error + client" where
  "client_new cfg =
     (if SocketPath cfg = [] \<and> (RunDir cfg = [] \<or> Daemon cfg = []) then Inl Socket_required
      else if \<not> Logger cfg then Inl Logger_required
      else
        (let cfg = (if DialTimeout cfg = 0 then cfg\<lparr>DialTimeout := 2 * second_ns\<rparr> else cfg);
             cfg = (if CallTimeout cfg = 0 then cfg\<lparr>CallTimeout := 5 * second_ns\<rparr> else cfg)
         in Inr \<lparr>Cfg = cfg, Conn = None, Dec = None, Enc = None, NextID = 0\<rparr>))"

section \<open>Calls\<close>

text \<open>Times are nanoseconds on the clock of \<^verbatim>\<open>time.Now\<close>.\<close>

record call_env =
  Fs :: filesystem
  Dial :: "string \<Rightarrow> nat option"
  Now :: int
  CtxDeadline :: "int option"
  DeadlineOk :: bool
  EncodeOk :: bool
  Decoded :: "response option"

datatype io =
    Dialed string int64 nat
  | Set_deadline nat int
  | Wrote nat request
  | Read_resp nat response
  | Closed nat

definition client_disconnect :: "client \<Rightarrow> client \<times> io list" where
  "client_disconnect c =
     (case Conn c of
        None \<Rightarrow> (c, [])
      | Some k \<Rightarrow> (c\<lparr>Conn := None, Dec := None, Enc := None\<rparr>, [Closed k]))"

definition dial_client :: "call_env \<Rightarrow> client \<Rightarrow> string \<Rightarrow> client \<times> io list \<times> call_error option" where
  "dial_client env c path =
     (case Dial env path of
        None \<Rightarrow> (c, [], Some (Dial_failed path))
      | Some k \<Rightarrow> (c\<lparr>Conn := Some k, Dec := Some k, Enc := Some k\<rparr>,
                   [Dialed path (DialTimeout (Cfg c)) k], None))"

definition ensure_connected :: "call_env \<Rightarrow> client \<Rightarrow> client \<times> io list \<times> call_error option" where
  "ensure_connected env c =
     (case Conn c of
        Some _ \<Rightarrow> (c, [], None)
      | None \<Rightarrow>
          if SocketPath (Cfg c) = [] then
            (case DiscoverSocket (Fs env) (RunDir (Cfg c)) (Daemon (Cfg c)) of
               Inl e \<Rightarrow> (c, [], Some (Discover_failed e))
             | Inr path \<Rightarrow> dial_client env c path)
          else dial_client env c (SocketPath (Cfg c)))"

definition call_deadline :: "call_env \<Rightarrow> client \<Rightarrow> int" where
  "call_deadline env c =
     (let deadline = Now env + sint (CallTimeout (Cfg c))
      in case CtxDeadline env of
           Some d \<Rightarrow> if d < deadline then d else deadline
         | None \<Rightarrow> deadline)"

definition call_failed :: "client \<Rightarrow> io list \<Rightarrow> call_error \<Rightarrow> client \<times> io list \<times> (call_error + string)" where
  "call_failed c ios e = (case client_disconnect c of (c', closed) \<Rightarrow> (c', ios @ closed, Inl e))"

definition response_failed :: "response \<Rightarrow> bool" where
  "response_failed r \<longleftrightarrow> 0 < length (RespError r) \<and> RespError r \<noteq> ''null''"

text \<open>The exchange over the open connection \<open>k\<close>.\<close>

definition client_exchange ::
    "call_env \<Rightarrow> string \<Rightarrow> string list option \<Rightarrow> nat \<Rightarrow> client \<Rightarrow> client \<times> io list \<times> (call_error + string)"
  where
  "client_exchange env method params k c0 =
     (let ps = (case params of None \<Rightarrow> [] | Some ps \<Rightarrow> ps);
          c = c0\<lparr>NextID := NextID c0 + 1\<rparr>;
          req = \<lparr>ReqMethod = method, ReqParams = ps, ReqID = NextID c\<rparr>;
          at = Set_deadline k (call_deadline env c)
      in if \<not> DeadlineOk env then call_failed c [at] Set_deadline_failed
         else if \<not> EncodeOk env then call_failed c [at, Wrote k req] (Encode_failed method)
         else
           (case Decoded env of
              None \<Rightarrow> call_failed c [at, Wrote k req] (Decode_failed method)
            | Some resp \<Rightarrow>
                (c, [at, Wrote k req, Read_resp k resp],
                 if response_failed resp then Inl (Call_error method (RespError resp))
                 else Inr (RespResult resp))))"

definition client_call ::
    "call_env \<Rightarrow> string \<Rightarrow> string list option \<Rightarrow> client \<Rightarrow> client \<times> io list \<times> (call_error + string)"
  where
  "client_call env method params c =
     (case ensure_connected env c of
        (c', dialled, Some e) \<Rightarrow> (c', dialled, Inl e)
      | (c', dialled, None) \<Rightarrow>
          (case client_exchange env method params (the (Conn c')) c' of
             (c'', ios, res) \<Rightarrow> (c'', dialled @ ios, res)))"

definition client_close :: "client \<Rightarrow> client \<times> io list" where
  "client_close c = client_disconnect c"

section \<open>Invariant\<close>

text \<open>The decoder and the encoder exist exactly with the connection, and belong to it.\<close>

definition client_wf :: "client \<Rightarrow> bool" where
  "client_wf c \<longleftrightarrow> Dec c = Conn c \<and> Enc c = Conn c"

lemma client_new_wf: "client_new cfg = Inr c \<Longrightarrow> client_wf c \<and> Conn c = None \<and> NextID c = 0"
  by (auto simp: client_new_def client_wf_def Let_def split: if_splits)

lemma client_disconnect_simps [simp]:
  "Conn (fst (client_disconnect c)) = None" "NextID (fst (client_disconnect c)) = NextID c"
  "Cfg (fst (client_disconnect c)) = Cfg c"
  "client_wf c \<Longrightarrow> client_wf (fst (client_disconnect c))"
  by (auto simp: client_disconnect_def client_wf_def split: option.splits)

text \<open>The errors after which the connection is reset.\<close>

definition transport_error :: "call_error \<Rightarrow> bool" where
  "transport_error e = (case e of Call_error _ _ \<Rightarrow> False | _ \<Rightarrow> True)"

lemma dial_client_cases:
  assumes "dial_client env c path = (d, ios, err)"
  obtains "d = c" "ios = []" "err = Some (Dial_failed path)"
  | k where "d = c\<lparr>Conn := Some k, Dec := Some k, Enc := Some k\<rparr>"
      "ios = [Dialed path (DialTimeout (Cfg c)) k]" "err = None"
  using assms by (auto simp: dial_client_def split: option.splits)

lemma ensure_connected_cases:
  assumes "ensure_connected env c = (d, ios, err)"
  obtains (failed) e where "d = c" "ios = []" "err = Some e" "transport_error e" "Conn c = None"
  | (kept) k where "d = c" "ios = []" "err = None" "Conn c = Some k"
  | (dialled) path k where "d = c\<lparr>Conn := Some k, Dec := Some k, Enc := Some k\<rparr>"
      "ios = [Dialed path (DialTimeout (Cfg c)) k]" "err = None" "Conn c = None"
proof (cases "Conn c")
  case (Some k)
  with assms kept show ?thesis by (simp add: ensure_connected_def)
next
  case None
  have via: thesis if "dial_client env c path = (d, ios, err)" for path
    using that None failed dialled by (cases rule: dial_client_cases) (auto simp: transport_error_def)
  with assms None failed show ?thesis
    by (auto simp: ensure_connected_def transport_error_def split: if_splits sum.splits)
qed

lemma client_call_cases:
  assumes "client_call env m ps c = (c', ios, res)"
  obtains (failed) e where "c' = c" "ios = []" "res = Inl e" "transport_error e" "Conn c = None"
  | (exchanged) d dialled k xs where "ensure_connected env c = (d, dialled, None)" "Conn d = Some k"
      "NextID d = NextID c" "Cfg d = Cfg c" "client_wf c \<Longrightarrow> client_wf d"
      "client_exchange env m ps k d = (c', xs, res)" "ios = dialled @ xs"
      "\<forall>x \<in> set dialled. \<exists>p t k. x = Dialed p t k"
proof -
  obtain d dialled err where e: "ensure_connected env c = (d, dialled, err)"
    by (cases "ensure_connected env c")
  from e show ?thesis
  proof (cases rule: ensure_connected_cases)
    case (failed er)
    with assms e that(1) show ?thesis by (auto simp: client_call_def)
  next
    case (kept k)
    obtain c2 xs r where x: "client_exchange env m ps k c = (c2, xs, r)"
      by (cases "client_exchange env m ps k c")
    with assms e kept have "c' = c2" "ios = xs" "res = r"
      by (simp_all add: client_call_def)
    with kept e x show ?thesis by (intro that(2)) auto
  next
    case (dialled path k)
    obtain c2 xs r where x: "client_exchange env m ps k d = (c2, xs, r)"
      by (cases "client_exchange env m ps k d")
    with assms e dialled have "c' = c2" "ios = Dialed path (DialTimeout (Cfg c)) k # xs" "res = r"
      by (simp_all add: client_call_def)
    with dialled e x show ?thesis by (intro that(2)) (auto simp: client_wf_def)
  qed
qed

text \<open>The exchange: what it keeps, and the operations it performs.\<close>

lemmas exchange_defs = client_exchange_def call_failed_def client_disconnect_def Let_def

lemma exchange_wf:
  assumes "client_exchange env m ps k c = (c', ios, res)" and "Conn c = Some k"
  shows "client_wf c \<Longrightarrow> client_wf c'" and "NextID c' = NextID c + 1" and "Cfg c' = Cfg c"
    and "(Conn c' = None) = (case res of Inl e \<Rightarrow> transport_error e | Inr _ \<Rightarrow> False)"
  using assms
  by (auto simp: exchange_defs client_wf_def transport_error_def split: option.splits if_splits)

lemma exchange_deadline:
  assumes "client_exchange env m ps k c = (c', ios, res)"
  shows "Set_deadline j t \<in> set ios \<longleftrightarrow> j = k \<and> t = call_deadline env c"
  using assms
  by (auto simp: exchange_defs call_deadline_def split: option.splits if_splits)

lemma client_call_wf:
  assumes "client_call env m ps c = (c', ios, res)" and "client_wf c"
  shows "client_wf c'"
  using assms by (cases rule: client_call_cases) (auto dest: exchange_wf(1))

lemma client_call_conn:
  assumes "client_call env m ps c = (c', ios, res)"
  shows "(Conn c' = None) = (case res of Inl e \<Rightarrow> transport_error e | Inr _ \<Rightarrow> False)"
  using assms by (cases rule: client_call_cases) (auto dest: exchange_wf(4))

text \<open>A call either fails before the request or uses up exactly one identifier.\<close>

lemma client_call_id:
  assumes "client_call env m ps c = (c', ios, res)"
  shows "NextID c' = NextID c + (if \<exists>k t. Set_deadline k t \<in> set ios then 1 else 0)"
  using assms
  by (cases rule: client_call_cases) (auto simp: exchange_wf(2) dest: exchange_deadline)

lemma client_call_deadline:
  assumes "client_call env m ps c = (c', ios, res)" and "Set_deadline k t \<in> set ios"
  shows "t = call_deadline env c"
  using assms
  by (cases rule: client_call_cases) (auto simp: call_deadline_def dest: exchange_deadline)

section \<open>A server that answers in order\<close>

text \<open>
  The other end: for every connection the identifiers of requests the server has not answered
  yet, and the replies the client has not read yet. The server may answer at any point, oldest
  request first, each reply with the identifier of its request. A new connection starts empty.
\<close>

record net =
  Pending :: "nat \<Rightarrow> int64 list"
  Unread :: "nat \<Rightarrow> response list"

inductive net_run :: "net \<Rightarrow> io list \<Rightarrow> net \<Rightarrow> bool" where
  net_done: "net_run n [] n"
| net_answer: "Pending n k = RespID r # is \<Longrightarrow>
    net_run (n\<lparr>Pending := (Pending n)(k := is), Unread := (Unread n)(k := Unread n k @ [r])\<rparr>) ios n' \<Longrightarrow>
    net_run n ios n'"
| net_dialed: "Pending n k = [] \<Longrightarrow> Unread n k = [] \<Longrightarrow> net_run n ios n' \<Longrightarrow>
    net_run n (Dialed p t k # ios) n'"
| net_deadline: "net_run n ios n' \<Longrightarrow> net_run n (Set_deadline k t # ios) n'"
| net_wrote: "net_run (n\<lparr>Pending := (Pending n)(k := Pending n k @ [ReqID q])\<rparr>) ios n' \<Longrightarrow>
    net_run n (Wrote k q # ios) n'"
| net_read: "Unread n k = r # rs \<Longrightarrow> net_run (n\<lparr>Unread := (Unread n)(k := rs)\<rparr>) ios n' \<Longrightarrow>
    net_run n (Read_resp k r # ios) n'"
| net_closed: "net_run n ios n' \<Longrightarrow> net_run n (Closed k # ios) n'"

text \<open>The identifiers a connection has in flight, in the order their replies will be read.\<close>

definition inflight :: "net \<Rightarrow> nat \<Rightarrow> int64 list" where
  "inflight n k = map RespID (Unread n k) @ Pending n k"

text \<open>What a sequence of operations does to them; \<^const>\<open>None\<close> if a reply could not be read.\<close>

primrec flights :: "io list \<Rightarrow> (nat \<Rightarrow> int64 list) \<Rightarrow> (nat \<Rightarrow> int64 list) option" where
  "flights [] f = Some f"
| "flights (x # ios) f =
     (case x of
        Dialed p t k \<Rightarrow> if f k = [] then flights ios f else None
      | Set_deadline k t \<Rightarrow> flights ios f
      | Wrote k q \<Rightarrow> flights ios (f(k := f k @ [ReqID q]))
      | Read_resp k r \<Rightarrow>
          (case f k of i # is \<Rightarrow> if i = RespID r then flights ios (f(k := is)) else None | [] \<Rightarrow> None)
      | Closed k \<Rightarrow> flights ios f)"

lemma net_run_flights: "net_run n ios n' \<Longrightarrow> flights ios (inflight n) = Some (inflight n')"
proof (induction rule: net_run.induct)
  case (net_answer n k r "is" ios n')
  have "inflight (n\<lparr>Pending := (Pending n)(k := is), Unread := (Unread n)(k := Unread n k @ [r])\<rparr>) = inflight n"
    using net_answer.hyps(1) by (auto simp: inflight_def)
  with net_answer.IH show ?case by simp
next
  case (net_wrote n k q ios n')
  have "inflight (n\<lparr>Pending := (Pending n)(k := Pending n k @ [ReqID q])\<rparr>)
      = (inflight n)(k := inflight n k @ [ReqID q])"
    by (auto simp: inflight_def)
  with net_wrote.IH show ?case by (simp only: flights.simps io.case)
next
  case (net_read n k r rs ios n')
  have "inflight n k = RespID r # (map RespID rs @ Pending n k)"
    and "inflight (n\<lparr>Unread := (Unread n)(k := rs)\<rparr>) = (inflight n)(k := map RespID rs @ Pending n k)"
    using net_read.hyps(1) by (auto simp: inflight_def)
  with net_read.IH show ?case by (simp only: flights.simps io.case list.case simp_thms if_True)
qed (simp_all add: inflight_def)

section \<open>Runs of the client against such a server\<close>

datatype rpc_event =
    Called string "io list" "call_error + string"
  | Closed_client
  | Server_step

type_synonym rpc_state = "client \<times> net"

inductive rpc_step :: "rpc_state \<Rightarrow> rpc_event \<Rightarrow> rpc_state \<Rightarrow> bool" where
  step_call: "client_call env m ps c = (c', ios, res) \<Longrightarrow> net_run n ios n' \<Longrightarrow>
    rpc_step (c, n) (Called m ios res) (c', n')"
| step_close: "client_close c = (c', ios) \<Longrightarrow> net_run n ios n' \<Longrightarrow>
    rpc_step (c, n) Closed_client (c', n')"
| step_server: "net_run n [] n' \<Longrightarrow> rpc_step (c, n) Server_step (c, n')"

inductive_cases rpc_call_cases: "rpc_step s (Called m ios res) s'"
inductive_simps rpc_close_simps: "rpc_step (c, n) Closed_client s'"

inductive rpc_run :: "rpc_state \<Rightarrow> rpc_event list \<Rightarrow> rpc_state \<Rightarrow> bool" where
  run_done: "rpc_run s [] s"
| run_step: "rpc_step s e s' \<Longrightarrow> rpc_run s' es s'' \<Longrightarrow> rpc_run s (e # es) s''"

text \<open>Between two calls nothing is in flight on the connection the client holds.\<close>

definition rpc_idle :: "rpc_state \<Rightarrow> bool" where
  "rpc_idle = (\<lambda>(c, n). client_wf c
     \<and> (case Conn c of None \<Rightarrow> True | Some k \<Rightarrow> inflight n k = []))"

definition own_reply :: "client \<Rightarrow> io list \<Rightarrow> bool" where
  "own_reply c ios \<longleftrightarrow> (\<forall>k r. Read_resp k r \<in> set ios \<longrightarrow> RespID r = NextID c)"

lemma exchange_idle:
  assumes "client_exchange env m ps k c = (c', ios, res)" and "Conn c = Some k"
    and "flights ios f = Some f'" and "f k = []"
  shows "(case Conn c' of None \<Rightarrow> True | Some k' \<Rightarrow> f' k' = []) \<and> own_reply c' ios"
  using assms
  by (auto simp: client_exchange_def call_failed_def client_disconnect_def Let_def own_reply_def
      split: option.splits if_splits)

lemma flights_append: "flights (xs @ ys) f = Option.bind (flights xs f) (flights ys)"
  by (induction xs arbitrary: f) (auto split: io.split list.splits)

lemma ensure_connected_idle:
  assumes "ensure_connected env c = (c', ios, None)"
    and "case Conn c of None \<Rightarrow> True | Some k \<Rightarrow> f k = []" and "flights ios f = Some f'"
  shows "f' = f \<and> (\<exists>k. Conn c' = Some k \<and> f k = []) \<and> NextID c' = NextID c
    \<and> (\<forall>k r. Read_resp k r \<notin> set ios)"
  using assms
  by (auto simp: ensure_connected_def dial_client_def split: option.splits if_splits sum.splits)

lemma ensure_connected_fails:
  "ensure_connected env c = (c', ios, Some e) \<Longrightarrow> Conn c' = None \<and> ios = []"
  by (auto simp: ensure_connected_def dial_client_def split: option.splits if_splits sum.splits)

lemma call_idle:
  assumes call: "client_call env m ps c = (c', ios, res)"
    and idle: "case Conn c of None \<Rightarrow> True | Some k \<Rightarrow> f k = []" and f: "flights ios f = Some f'"
  shows "(case Conn c' of None \<Rightarrow> True | Some k \<Rightarrow> f' k = []) \<and> own_reply c' ios"
proof -
  obtain d dialled err where e: "ensure_connected env c = (d, dialled, err)"
    by (cases "ensure_connected env c")
  show ?thesis
  proof (cases err)
    case None
    obtain c2 xs r where x: "client_exchange env m ps (the (Conn d)) d = (c2, xs, r)"
      by (cases "client_exchange env m ps (the (Conn d)) d")
    with call e None have res: "c' = c2" "ios = dialled @ xs"
      by (simp_all add: client_call_def)
    with f obtain g where g: "flights dialled f = Some g" "flights xs g = Some f'"
      by (auto simp: flights_append Option.bind_eq_Some_conv)
    have conn: "g = f" "\<exists>k. Conn d = Some k \<and> f k = []" "\<forall>k r. Read_resp k r \<notin> set dialled"
      using ensure_connected_idle [OF e [unfolded None] idle g(1)] by auto
    then obtain k where k: "Conn d = Some k" "f k = []" by blast
    have "(case Conn c2 of None \<Rightarrow> True | Some k' \<Rightarrow> f' k' = []) \<and> own_reply c2 xs"
      using exchange_idle [of env m ps k d c2 xs r f f'] x g(2) conn(1) k by simp
    with conn(3) show ?thesis
      by (auto simp: res own_reply_def)
  next
    case (Some er)
    with e call have "c' = d" "ios = []" "Conn d = None"
      using ensure_connected_fails [of env c d dialled er] by (auto simp: client_call_def)
    then show ?thesis by (simp add: own_reply_def)
  qed
qed

lemma rpc_step_idle: "rpc_step s e s' \<Longrightarrow> rpc_idle s \<Longrightarrow> rpc_idle s'"
proof (induction rule: rpc_step.induct)
  case (step_call env m ps c c' ios res n n')
  have "client_wf c'"
    using client_call_wf [OF step_call.hyps(1)] step_call.prems by (simp add: rpc_idle_def)
  then show ?case
    using call_idle [OF step_call.hyps(1) _ net_run_flights [OF step_call.hyps(2)]] step_call.prems
    by (simp add: rpc_idle_def)
next
  case (step_close c c' ios n n')
  have "client_wf c'" and "Conn c' = None"
    using step_close client_disconnect_simps(1,4) [of c]
    by (simp_all add: rpc_idle_def client_close_def)
  then show ?case by (simp add: rpc_idle_def)
next
  case (step_server n n' c)
  have "inflight n' = inflight n"
    using net_run_flights [OF step_server.hyps] by simp
  with step_server.prems show ?case by (simp add: rpc_idle_def split: option.splits)
qed

lemma rpc_run_idle: "rpc_run s es s' \<Longrightarrow> rpc_idle s \<Longrightarrow> rpc_idle s'"
  by (induction rule: rpc_run.induct) (auto dest: rpc_step_idle)

section \<open>Properties\<close>

text \<open>Property C11. The client checks no identifier, and needs none: in every run of calls and
  closes from a fresh client, whatever fails on the way and whenever the server answers, every
  reply a call reads is the reply to the request of that same call.\<close>

theorem rpc_reply_matches_request:
  assumes "client_new cfg = Inr c" and "rpc_run (c, n) es (c', n')"
    and "client_call env m ps c' = (c'', ios, res)" and "net_run n' ios n''"
  shows "\<forall>k r. Read_resp k r \<in> set ios \<longrightarrow> RespID r = NextID c''"
proof -
  have "rpc_idle (c, n)"
    using client_new_wf [OF assms(1)] by (simp add: rpc_idle_def)
  with assms(2) have "rpc_idle (c', n')"
    by (rule rpc_run_idle)
  then have "own_reply c'' ios"
    using call_idle [OF assms(3) _ net_run_flights [OF assms(4)]] by (simp add: rpc_idle_def)
  then show ?thesis
    by (simp add: own_reply_def)
qed

text \<open>After a call the connection is open exactly when the server answered: a
  transport failure resets it, an error reply of the server keeps it; the state stays
  consistent, and the identifier advances exactly when a request was built.\<close>

lemma client_call_connection:
  "case client_call env m ps c of (c', ios, res) \<Rightarrow>
     (Conn c' = None) = (case res of Inl e \<Rightarrow> transport_error e | Inr _ \<Rightarrow> False)
     \<and> (client_wf c \<longrightarrow> client_wf c')
     \<and> NextID c' = NextID c + (if \<exists>k t. Set_deadline k t \<in> set ios then 1 else 0)"
proof -
  obtain c' ios res where call: "client_call env m ps c = (c', ios, res)"
    by (cases "client_call env m ps c")
  then show ?thesis
    using client_call_conn [OF call] client_call_id [OF call] client_call_wf [OF call] by simp
qed

text \<open>
  Operations that may block, each with its limit: a dial has the dial timeout, and a write or a read is on
  a connection whose deadline was set before, in the same call, no later than \<open>limit\<close>.
\<close>

primrec io_limited :: "int \<Rightarrow> int64 \<Rightarrow> nat option \<Rightarrow> io list \<Rightarrow> bool" where
  "io_limited limit timeout armed [] = True"
| "io_limited limit timeout armed (x # xs) =
     (case x of
        Dialed p t k \<Rightarrow> t = timeout \<and> io_limited limit timeout None xs
      | Set_deadline k t \<Rightarrow> t \<le> limit \<and> io_limited limit timeout (Some k) xs
      | Wrote k r \<Rightarrow> armed = Some k \<and> io_limited limit timeout armed xs
      | Read_resp k r \<Rightarrow> armed = Some k \<and> io_limited limit timeout armed xs
      | Closed k \<Rightarrow> io_limited limit timeout None xs)"

lemma exchange_limited:
  assumes "client_exchange env m ps k c = (c', ios, res)"
    and "limit = call_deadline env c"
  shows "io_limited limit timeout None ios \<and> length ios \<le> 3"
  using assms
  by (auto simp: client_exchange_def call_failed_def client_disconnect_def call_deadline_def Let_def
      split: option.splits if_splits prod.splits)

text \<open>Property C22. No call blocks for ever: a call performs at most four operations on the network, its dial
  has the dial timeout, and every write and every read is on a connection whose deadline was set in the
  same call, to the call timeout from now or the context's deadline if that is earlier.\<close>

theorem client_call_bounded:
  assumes "client_call env m ps c = (c', ios, res)"
  shows "length ios \<le> 4
    \<and> io_limited (case CtxDeadline env of
          None \<Rightarrow> Now env + sint (CallTimeout (Cfg c))
        | Some d \<Rightarrow> min d (Now env + sint (CallTimeout (Cfg c)))) (DialTimeout (Cfg c)) None ios"
    (is "_ \<and> io_limited ?limit _ _ _")
  using assms
proof (cases rule: client_call_cases)
  case (exchanged d dialled k xs)
  have "?limit = call_deadline env d"
    using exchanged(4) by (auto simp: call_deadline_def Let_def min_def split: option.split)
  then have "io_limited ?limit (DialTimeout (Cfg c)) None xs" and "length xs \<le> 3"
    using exchange_limited [OF exchanged(6)] by simp_all
  moreover have "dialled = [] \<or> (\<exists>p k. dialled = [Dialed p (DialTimeout (Cfg c)) k])"
    using exchanged(1) by (cases rule: ensure_connected_cases) auto
  ultimately show ?thesis
    using exchanged(7) by auto
qed simp

section \<open>Example: a call that times out, then one that succeeds\<close>

definition ex_config :: client_config where
  "ex_config = \<lparr>SocketPath = ''/s'', RunDir = [], Daemon = [], DialTimeout = 0, CallTimeout = 0,
     Logger = True\<rparr>"

definition ex_client :: "int64 \<Rightarrow> nat option \<Rightarrow> client" where
  "ex_client i k = \<lparr>Cfg = ex_config\<lparr>DialTimeout := 2 * second_ns, CallTimeout := 5 * second_ns\<rparr>,
     Conn = k, Dec = k, Enc = k, NextID = i\<rparr>"

definition ex_env :: "nat \<Rightarrow> response option \<Rightarrow> call_env" where
  "ex_env k r = \<lparr>Fs = (\<lambda>_. None), Dial = (\<lambda>_. Some k), Now = 100, CtxDeadline = Some 200,
     DeadlineOk = True, EncodeOk = True, Decoded = r\<rparr>"

definition ex_reply :: response where
  "ex_reply = \<lparr>RespResult = ''{}'', RespError = ''null'', RespID = 2\<rparr>"

definition ex_net :: "int64 list \<Rightarrow> net" where
  "ex_net is = \<lparr>Pending = (\<lambda>_. [])(0 := is), Unread = (\<lambda>_. [])\<rparr>"

definition ex_request :: "int64 \<Rightarrow> request" where
  "ex_request i = \<lparr>ReqMethod = ''upcall/show'', ReqParams = [], ReqID = i\<rparr>"

lemmas ex_defs = ex_config_def ex_client_def ex_env_def ex_reply_def ex_net_def ex_request_def

lemma ex_new: "client_new ex_config = Inr (ex_client 0 None)"
  by (simp add: client_new_def ex_defs)

lemma ex_first: "client_call (ex_env 0 None) ''upcall/show'' None (ex_client 0 None)
  = (ex_client 1 None, [Dialed ''/s'' (2 * second_ns) 0, Set_deadline 0 200, Wrote 0 (ex_request 1), Closed 0],
     Inl (Decode_failed ''upcall/show''))"
  by (simp add: client_call_def ensure_connected_def dial_client_def exchange_defs ex_defs
      call_deadline_def second_ns_def)

lemma ex_second: "client_call (ex_env 1 (Some ex_reply)) ''upcall/show'' None (ex_client 1 None)
  = (ex_client 2 (Some 1), [Dialed ''/s'' (2 * second_ns) 1, Set_deadline 1 200, Wrote 1 (ex_request 2),
      Read_resp 1 ex_reply], Inr ''{}'')"
  by (simp add: client_call_def ensure_connected_def dial_client_def exchange_defs ex_defs
      call_deadline_def response_failed_def second_ns_def)

lemma ex_net_first: "net_run (ex_net [])
    [Dialed ''/s'' (2 * second_ns) 0, Set_deadline 0 200, Wrote 0 (ex_request 1), Closed 0] (ex_net [1])"
proof -
  have "(ex_net [])\<lparr>Pending := (Pending (ex_net []))(0 := Pending (ex_net []) 0 @ [ReqID (ex_request 1)])\<rparr>
      = ex_net [1]"
    by (simp add: ex_net_def ex_request_def)
  then show ?thesis
    by (intro net_dialed net_deadline net_wrote net_closed)
      (simp_all add: net_done, simp_all add: ex_net_def)
qed

lemma ex_net_second: "net_run (ex_net [1])
    [Dialed ''/s'' (2 * second_ns) 1, Set_deadline 1 200, Wrote 1 (ex_request 2), Read_resp 1 ex_reply]
    (ex_net [1])"
proof -
  let ?w = "(ex_net [1])\<lparr>Pending := (Pending (ex_net [1]))(1 := Pending (ex_net [1]) 1 @ [ReqID (ex_request 2)])\<rparr>"
  let ?a = "?w\<lparr>Pending := (Pending ?w)(1 := []), Unread := (Unread ?w)(1 := Unread ?w 1 @ [ex_reply])\<rparr>"
  have "?a\<lparr>Unread := (Unread ?a)(1 := [])\<rparr> = ex_net [1]"
    by (simp add: ex_net_def fun_eq_iff)
  then have "net_run ?a [Read_resp 1 ex_reply] (ex_net [1])"
    by (intro net_read [where rs = "[]"]) (simp_all add: net_done, simp add: ex_net_def)
  then have "net_run ?w [Read_resp 1 ex_reply] (ex_net [1])"
    by (rule net_answer [rotated]) (simp add: ex_net_def ex_request_def ex_reply_def)
  then show ?thesis
    by (intro net_dialed net_deadline net_wrote) (simp_all add: ex_net_def)
qed

lemma ex_run: "rpc_run (ex_client 0 None, ex_net [])
    [Called ''upcall/show'' [Dialed ''/s'' (2 * second_ns) 0, Set_deadline 0 200,
       Wrote 0 (ex_request 1), Closed 0] (Inl (Decode_failed ''upcall/show''))]
    (ex_client 1 None, ex_net [1])"
  using step_call [OF ex_first ex_net_first] run_done by (rule run_step)

theorem rpc_reply_matches_request_witness: "RespID ex_reply = NextID (ex_client 2 (Some 1))"
  using rpc_reply_matches_request [OF ex_new ex_run ex_second ex_net_second] by simp

theorem client_call_connection_witness:
  "client_call (ex_env 0 None) ''upcall/show'' None (ex_client 0 None)
     = (ex_client 1 None, [Dialed ''/s'' (2 * second_ns) 0, Set_deadline 0 200, Wrote 0 (ex_request 1), Closed 0],
        Inl (Decode_failed ''upcall/show''))
   \<and> client_wf (ex_client 1 None) \<and> NextID (ex_client 1 None) = 1"
proof -
  have "client_wf (ex_client 0 None)" and "NextID (ex_client 0 None) = 0"
    by (simp_all add: client_wf_def ex_client_def)
  then show ?thesis
    using client_call_connection [where env = "ex_env 0 None" and m = "''upcall/show''"
      and ps = None and c = "ex_client 0 None"]
    unfolding ex_first by simp
qed

theorem client_call_bounded_witness:
  "io_limited 200 (2 * second_ns) None
     [Dialed ''/s'' (2 * second_ns) 0, Set_deadline 0 200, Wrote 0 (ex_request 1), Closed 0]"
  using client_call_bounded [OF ex_first] by (simp add: ex_defs second_ns_def)

end
