(* ===== verification/Connections.thy ===== *)
theory Connections
  imports UnixctlClient
begin

text \<open>
  The life of the connections of \<^verbatim>\<open>client.go\<close>: calls and closes in any order, as the mutex of the client
  serialises them, and an observer of the socket operations that accepts only an orderly use of
  connections.
\<close>

section \<open>Sequences of operations\<close>

datatype client_op =
    Op_call call_env string "string list option"
  | Op_close

definition client_do :: "client_op \<Rightarrow> client \<Rightarrow> client \<times> io list" where
  "client_do op c =
     (case op of
        Op_call env m ps \<Rightarrow> (case client_call env m ps c of (c', ios, res) \<Rightarrow> (c', ios))
      | Op_close \<Rightarrow> client_close c)"

primrec client_ops :: "client_op list \<Rightarrow> client \<Rightarrow> client \<times> io list" where
  "client_ops [] c = (c, [])"
| "client_ops (op # ops) c =
     (case client_do op c of (c', ios) \<Rightarrow> (case client_ops ops c' of (c'', ios') \<Rightarrow> (c'', ios @ ios')))"

section \<open>The observer\<close>

text \<open>
  The open connection after a list of operations; \<open>None\<close> when a second connection is dialled while one
  is open, or a connection is used or closed that is not open.
\<close>

primrec open_conn :: "nat option \<Rightarrow> io list \<Rightarrow> nat option option" where
  "open_conn cur [] = Some cur"
| "open_conn cur (x # xs) =
     (case x of
        Dialed p t k \<Rightarrow> if cur = None then open_conn (Some k) xs else None
      | Closed k \<Rightarrow> if cur = Some k then open_conn None xs else None
      | Set_deadline k t \<Rightarrow> if cur = Some k then open_conn cur xs else None
      | Wrote k r \<Rightarrow> if cur = Some k then open_conn cur xs else None
      | Read_resp k r \<Rightarrow> if cur = Some k then open_conn cur xs else None)"

lemma open_conn_append:
  "open_conn cur (xs @ ys) = (case open_conn cur xs of None \<Rightarrow> None | Some c \<Rightarrow> open_conn c ys)"
  by (induction xs arbitrary: cur) (auto split: io.split)

lemma disconnect_open: "client_disconnect c = (c', ios) \<Longrightarrow> open_conn (Conn c) ios = Some (Conn c') \<and> Conn c' = None"
  by (auto simp: client_disconnect_def split: option.splits)

lemma exchange_open:
  assumes "client_exchange env m ps k c = (c', ios, res)" and "Conn c = Some k"
  shows "open_conn (Some k) ios = Some (Conn c')"
  using assms
  by (auto simp: client_exchange_def call_failed_def client_disconnect_def Let_def
      split: option.splits if_splits)

lemma call_open:
  assumes "client_call env m ps c = (c', ios, res)"
  shows "open_conn (Conn c) ios = Some (Conn c')"
  using assms
proof (cases rule: client_call_cases)
  case (exchanged d dialled k xs)
  have "open_conn (Conn c) dialled = Some (Conn d)"
    using exchanged(1) by (cases rule: ensure_connected_cases) auto
  then show ?thesis
    using exchange_open [OF exchanged(6,2)] exchanged(2,7) by (simp add: open_conn_append)
qed simp

text \<open>Without a dial that succeeds, a client without a connection stays without.\<close>

lemma call_no_dial:
  assumes "client_call env m ps c = (c', ios, res)" and "Conn c = None" and "\<And>p. Dial env p = None"
  shows "Conn c' = None"
  using assms
  by (auto simp: client_call_def ensure_connected_def dial_client_def split: if_splits sum.splits)

lemma do_open: "client_do op c = (c', ios) \<Longrightarrow> open_conn (Conn c) ios = Some (Conn c')"
  using call_open disconnect_open
  by (auto simp: client_do_def client_close_def split: client_op.splits prod.splits)

lemma client_ops_open: "client_ops ops c = (c', ios) \<Longrightarrow> open_conn (Conn c) ios = Some (Conn c')"
proof (induction ops arbitrary: c ios)
  case (Cons op ops)
  then obtain c1 ios1 ios2 where "client_do op c = (c1, ios1)" "client_ops ops c1 = (c', ios2)"
      "ios = ios1 @ ios2"
    by (auto split: prod.splits)
  with Cons.IH [of c1 ios2] do_open [of op c c1 ios1] show ?case
    by (simp add: open_conn_append)
qed simp

lemma client_ops_append:
  "client_ops (ops @ ops') c = (case client_ops ops c of (c', ios) \<Rightarrow>
     case client_ops ops' c' of (c'', ios') \<Rightarrow> (c'', ios @ ios'))"
  by (induction ops arbitrary: c) (simp_all split: prod.split)

definition cannot_dial :: "client_op \<Rightarrow> bool" where
  "cannot_dial op = (case op of Op_call env m ps \<Rightarrow> Dial env = (\<lambda>p. None) | Op_close \<Rightarrow> True)"

lemma do_no_dial: "client_do op c = (c', ios) \<Longrightarrow> Conn c = None \<Longrightarrow> cannot_dial op \<Longrightarrow> Conn c' = None"
  using call_no_dial disconnect_open
  by (auto simp: client_do_def client_close_def cannot_dial_def split: client_op.splits prod.splits)

lemma client_ops_no_dial:
  "client_ops ops c = (c', ios) \<Longrightarrow> Conn c = None \<Longrightarrow> list_all cannot_dial ops \<Longrightarrow> Conn c' = None"
proof (induction ops arbitrary: c ios)
  case (Cons op ops)
  then obtain c1 ios1 ios2 where "client_do op c = (c1, ios1)" "client_ops ops c1 = (c', ios2)"
    by (auto split: prod.splits)
  with Cons.IH [of c1 ios2] Cons.prems(2,3) do_no_dial [of op c c1 ios1] show ?case
    by simp
qed simp

section \<open>Properties\<close>

text \<open>Property C21. No connection leaks: whatever calls and closes a client performs, at most one connection is open
  at any time, none is used or closed after it was closed, and the one that is open at the end is the
  client's own; and once the client is closed when nothing can be dialled any more (the context of the
  calls is cancelled first, as at shutdown), none is left open, whatever calls are still under way.\<close>

theorem connections_accounted:
  assumes "client_new cfg = Inr c" and "client_ops (before @ after) c = (c', ios)"
  shows "open_conn None ios = Some (Conn c')
    \<and> (\<forall>rest. after = Op_close # rest \<and> list_all cannot_dial rest \<longrightarrow> open_conn None ios = Some None)"
proof -
  have "Conn c = None"
    using client_new_wf [OF assms(1)] by simp
  then have track: "open_conn None ios = Some (Conn c')"
    using client_ops_open [OF assms(2)] by simp
  have "Conn c' = None" if rest: "after = Op_close # rest" "list_all cannot_dial rest" for rest
  proof -
    obtain c1 ios1 where first: "client_ops before c = (c1, ios1)"
      by force
    obtain c2 ios2 where closed: "client_close c1 = (c2, ios2)"
      by force
    then have "Conn c2 = None"
      using disconnect_open by (simp add: client_close_def)
    moreover obtain ios3 where "client_ops rest c2 = (c', ios3)"
      using assms(2) by (auto simp: client_ops_append first closed rest(1) client_do_def split: prod.splits)
    ultimately show ?thesis
      using client_ops_no_dial rest(2) by blast
  qed
  with track show ?thesis by auto
qed

theorem connections_accounted_witness:
  "open_conn None (snd (client_ops [Op_call (ex_env 3 (Some ex_reply)) ''upcall/show'' None, Op_close,
      Op_call ((ex_env 4 None)\<lparr>Dial := \<lambda>p. None\<rparr>) ''upcall/show'' None] (ex_client 0 None))) = Some None"
proof -
  let ?before = "[Op_call (ex_env 3 (Some ex_reply)) ''upcall/show'' None]"
  let ?rest = "[Op_call ((ex_env 4 None)\<lparr>Dial := \<lambda>p. None\<rparr>) ''upcall/show'' None]"
  obtain c' ios where run: "client_ops (?before @ Op_close # ?rest) (ex_client 0 None) = (c', ios)"
    by force
  have "list_all cannot_dial ?rest"
    by (simp add: cannot_dial_def)
  then have "open_conn None ios = Some None"
    using connections_accounted [OF ex_new run] by blast
  with run show ?thesis by simp
qed

end
