(* ===== verification/Scraper.thy ===== *)
theory Scraper
  imports Prelude
begin

text \<open>
  \<^verbatim>\<open>internal/scrape/scraper.go\<close> and \<^verbatim>\<open>internal/scrape/outcome.go\<close>, generic in the snapshot
  type as the code is. The refresh function is an argument: it takes what the outside world
  answers and the state it closes over, and returns that state and a snapshot or an error. A
  time is in nanoseconds, 0 for the zero \<^verbatim>\<open>time.Time\<close>.
\<close>

record scrape_config =
  ConfName :: string
  ConfInterval :: int64
  HasRefresh :: bool
  HasLogger :: bool
  HasTracer :: bool

datatype scrape_new_error = Name_required | Refresh_required | Logger_missing

record 'e outcome =
  OTime :: int
  ODuration :: int64
  OSuccess :: bool
  OErr :: "'e option"

text \<open>The two atomic pointers and the configuration.\<close>

record ('e, 'a) scraper =
  ScConfig :: scrape_config
  ScSnap :: "'a option"
  ScOutcome :: "'e outcome option"

definition scraper_new :: "scrape_config \<Rightarrow> scrape_new_error + ('e, 'a) scraper" where
  "scraper_new cfg =
     (if ConfName cfg = [] then Inl Name_required
      else if \<not> HasRefresh cfg then Inl Refresh_required
      else if \<not> HasLogger cfg then Inl Logger_missing
      else Inr \<lparr>ScConfig = (if ConfInterval cfg = 0 then cfg\<lparr>ConfInterval := 15 * 1000000000\<rparr> else cfg),
                ScSnap = None, ScOutcome = None\<rparr>)"

definition zero_outcome :: "'e outcome" where
  "zero_outcome = \<lparr>OTime = 0, ODuration = 0, OSuccess = False, OErr = None\<rparr>"

definition scraper_snapshot :: "('e, 'a) scraper \<Rightarrow> 'a option" where
  "scraper_snapshot s = ScSnap s"

definition scraper_outcome :: "('e, 'a) scraper \<Rightarrow> 'e outcome" where
  "scraper_outcome s = (case ScOutcome s of Some o' \<Rightarrow> o' | None \<Rightarrow> zero_outcome)"

text \<open>\<^verbatim>\<open>time.Since\<close>: a \<^verbatim>\<open>Duration\<close> saturates at the ends of \<^verbatim>\<open>int64\<close>.\<close>

definition max_duration :: int where
  "max_duration = 2 ^ 63 - 1"

definition since :: "int \<Rightarrow> int \<Rightarrow> int64" where
  "since now t = word_of_int (max (- max_duration - 1) (min max_duration (now - t)))"

datatype 'e stale_error =
    No_attempt
  | Last_failed "'e option"
  | Too_old int64 int64

definition scraper_stale :: "int \<Rightarrow> int64 \<Rightarrow> ('e, 'a) scraper \<Rightarrow> 'e stale_error option" where
  "scraper_stale now maxAge s =
     (let out = scraper_outcome s
      in if OTime out = 0 then Some No_attempt
         else if \<not> OSuccess out then Some (Last_failed (OErr out))
         else
           (let age = since now (OTime out)
            in if maxAge <s age then Some (Too_old age maxAge) else None))"

section \<open>One refresh\<close>

datatype 'e scrape_log =
    Span_start string
  | Span_error 'e
  | Span_end
  | Log_warn string int64 'e
  | Log_debug string int64

record 'w tick =
  World :: 'w
  Start :: int
  Finish :: int

type_synonym ('w, 'c, 'e, 'a) refresh_fun = "'w \<Rightarrow> 'c \<Rightarrow> 'c \<times> ('e + 'a option)"

text \<open>Spans are recorded only with a tracer; without one \<^verbatim>\<open>noopTracer\<close> drops them.\<close>

definition spans :: "('e, 'a) scraper \<Rightarrow> 'e option \<Rightarrow> 'e scrape_log list" where
  "spans s err =
     (if HasTracer (ScConfig s) then
        [Span_start (ConfName (ScConfig s))]
          @ (case err of None \<Rightarrow> [] | Some e \<Rightarrow> [Span_error e]) @ [Span_end]
      else [])"

definition scraper_refresh ::
    "('w, 'c, 'e, 'a) refresh_fun \<Rightarrow> 'w tick \<Rightarrow> 'c \<Rightarrow> ('e, 'a) scraper
      \<Rightarrow> 'c \<times> ('e, 'a) scraper \<times> 'e scrape_log list \<times> 'e option" where
  "scraper_refresh refresh t c s =
     (case refresh (World t) c of
        (c', r) \<Rightarrow>
          let err = (case r of Inl e \<Rightarrow> Some e | Inr _ \<Rightarrow> None);
              out = \<lparr>OTime = Start t, ODuration = since (Finish t) (Start t), OSuccess = (err = None),
                     OErr = err\<rparr>;
              s' = s\<lparr>ScOutcome := Some out\<rparr>
          in (case r of
                Inl e \<Rightarrow>
                  (c', s', spans s err @ [Log_warn (ConfName (ScConfig s)) (ODuration out) e], Some e)
              | Inr snap \<Rightarrow>
                  (c', s'\<lparr>ScSnap := snap\<rparr>,
                   spans s err @ [Log_debug (ConfName (ScConfig s)) (ODuration out)], None)))"

section \<open>The ticker loop\<close>

datatype 'w run_event = Tick "'w tick" | Cancelled

datatype run_end = Running | Returned | Panicked

fun scraper_loop ::
    "('w, 'c, 'e, 'a) refresh_fun \<Rightarrow> 'w run_event list \<Rightarrow> 'c \<Rightarrow> ('e, 'a) scraper
      \<Rightarrow> 'c \<times> ('e, 'a) scraper \<times> run_end" where
  "scraper_loop refresh [] c s = (c, s, Running)"
| "scraper_loop refresh (Cancelled # evs) c s = (c, s, Returned)"
| "scraper_loop refresh (Tick t # evs) c s =
     (case scraper_refresh refresh t c s of
        (c', s', _, _) \<Rightarrow> scraper_loop refresh evs c' s')"

text \<open>The first refresh is immediate; \<^verbatim>\<open>time.NewTicker\<close> panics for an interval that is not positive.\<close>

definition scraper_run ::
    "('w, 'c, 'e, 'a) refresh_fun \<Rightarrow> 'w tick \<Rightarrow> 'w run_event list \<Rightarrow> 'c \<Rightarrow> ('e, 'a) scraper
      \<Rightarrow> 'c \<times> ('e, 'a) scraper \<times> run_end" where
  "scraper_run refresh t evs c s =
     (case scraper_refresh refresh t c s of
        (c', s', _, _) \<Rightarrow>
          if sint (ConfInterval (ScConfig s')) \<le> 0 then (c', s', Panicked)
          else scraper_loop refresh evs c' s')"

section \<open>What the loop leaves behind\<close>

text \<open>The ticks handled before the cancellation, and the results of their refreshes.\<close>

fun ticks_of :: "'w run_event list \<Rightarrow> 'w tick list" where
  "ticks_of [] = []"
| "ticks_of (Cancelled # evs) = []"
| "ticks_of (Tick t # evs) = t # ticks_of evs"

primrec tick_results :: "('w, 'c, 'e, 'a) refresh_fun \<Rightarrow> 'w tick list \<Rightarrow> 'c \<Rightarrow> ('e + 'a option) list" where
  "tick_results refresh [] c = []"
| "tick_results refresh (t # ts) c = snd (refresh (World t) c) # tick_results refresh ts (fst (refresh (World t) c))"

primrec ticks_state ::
    "('w, 'c, 'e, 'a) refresh_fun \<Rightarrow> 'w tick list \<Rightarrow> 'c \<Rightarrow> ('e, 'a) scraper \<Rightarrow> 'c \<times> ('e, 'a) scraper" where
  "ticks_state refresh [] c s = (c, s)"
| "ticks_state refresh (t # ts) c s =
     (case scraper_refresh refresh t c s of (c', s', _, _) \<Rightarrow> ticks_state refresh ts c' s')"

definition outcome_of :: "'w tick \<Rightarrow> ('e + 'a option) \<Rightarrow> 'e outcome" where
  "outcome_of t r =
     \<lparr>OTime = Start t, ODuration = since (Finish t) (Start t), OSuccess = isl r = False,
      OErr = (case r of Inl e \<Rightarrow> Some e | Inr _ \<Rightarrow> None)\<rparr>"

text \<open>The last value published, if any refresh succeeded.\<close>

definition last_success :: "'a option \<Rightarrow> ('e + 'a option) list \<Rightarrow> 'a option" where
  "last_success ini rs = last (ini # map projr (filter (\<lambda>r. \<not> isl r) rs))"

lemma last_success_Nil [simp]: "last_success ini [] = ini"
  by (simp add: last_success_def)

lemma last_success_Cons [simp]:
  "last_success ini (r # rs) = last_success (case r of Inl _ \<Rightarrow> ini | Inr v \<Rightarrow> v) rs"
  by (cases r) (simp_all add: last_success_def)

lemma length_tick_results [simp]: "length (tick_results refresh ts c) = length ts"
  by (induction ts arbitrary: c) auto

definition result_error :: "'e + 'a option \<Rightarrow> 'e option" where
  "result_error r = (case r of Inl e \<Rightarrow> Some e | Inr _ \<Rightarrow> None)"

definition refreshed :: "'w tick \<Rightarrow> 'e + 'a option \<Rightarrow> ('e, 'a) scraper \<Rightarrow> ('e, 'a) scraper" where
  "refreshed t r s = s\<lparr>ScOutcome := Some (outcome_of t r),
     ScSnap := (case r of Inl _ \<Rightarrow> ScSnap s | Inr v \<Rightarrow> v)\<rparr>"

definition refresh_log :: "'w tick \<Rightarrow> 'e + 'a option \<Rightarrow> ('e, 'a) scraper \<Rightarrow> 'e scrape_log list" where
  "refresh_log t r s = spans s (result_error r) @
     [case r of Inl e \<Rightarrow> Log_warn (ConfName (ScConfig s)) (since (Finish t) (Start t)) e
      | Inr _ \<Rightarrow> Log_debug (ConfName (ScConfig s)) (since (Finish t) (Start t))]"

lemma scraper_refresh_state:
  "scraper_refresh refresh t c s =
     (let (c', r) = refresh (World t) c in (c', refreshed t r s, refresh_log t r s, result_error r))"
  by (cases s; cases "refresh (World t) c"; cases "snd (refresh (World t) c)")
    (auto simp: scraper_refresh_def outcome_of_def refreshed_def refresh_log_def result_error_def Let_def)

lemma refreshed_simps [simp]:
  "ScConfig (refreshed t r s) = ScConfig s"
  "ScOutcome (refreshed t r s) = Some (outcome_of t r)"
  "ScSnap (refreshed t r s) = (case r of Inl _ \<Rightarrow> ScSnap s | Inr v \<Rightarrow> v)"
  by (simp_all add: refreshed_def)

lemma ticks_state_result:
  "snd (ticks_state refresh ts c s) =
     s\<lparr>ScOutcome := (if ts = [] then ScOutcome s
          else Some (outcome_of (last ts) (last (tick_results refresh ts c)))),
       ScSnap := last_success (ScSnap s) (tick_results refresh ts c)\<rparr>"
proof (induction ts arbitrary: c s)
  case (Cons t ts)
  obtain c' r where r: "refresh (World t) c = (c', r)" by force
  have ne: "ts \<noteq> [] \<Longrightarrow> tick_results refresh ts c' \<noteq> []"
    by (metis length_0_conv length_tick_results)
  then show ?case
    using Cons.IH [of c' "refreshed t r s"] by (simp add: r scraper_refresh_state refreshed_def)
qed simp

lemma scraper_loop_state:
  "scraper_loop refresh evs c s =
     (fst (ticks_state refresh (ticks_of evs) c s), snd (ticks_state refresh (ticks_of evs) c s),
      if Cancelled \<in> set evs then Returned else Running)"
proof (induction refresh evs c s rule: scraper_loop.induct)
  case (3 refresh t evs c s)
  then show ?case by (auto simp: scraper_refresh_state Let_def split: prod.split)
qed simp_all

lemma scraper_run_state:
  assumes "scraper_run refresh t evs c s = (c', s', e)" and "0 < sint (ConfInterval (ScConfig s))"
  shows "s' = snd (ticks_state refresh (t # ticks_of evs) c s)"
    and "e = (if Cancelled \<in> set evs then Returned else Running)"
proof -
  obtain d r where r: "refresh (World t) c = (d, r)" by force
  with assms show "s' = snd (ticks_state refresh (t # ticks_of evs) c s)"
    and "e = (if Cancelled \<in> set evs then Returned else Running)"
    by (auto simp: scraper_run_def scraper_loop_state scraper_refresh_state)
qed

lemma since_zero [simp]: "since t t = 0"
  by (simp add: since_def max_duration_def)

lemma sint_word_of_int: "- (2 ^ 63) \<le> k \<Longrightarrow> k < 2 ^ 63 \<Longrightarrow> sint (word_of_int k :: int64) = k"
  by (simp add: signed_of_int signed_take_bit_int_eq_self)

lemma since_exact: "\<bar>now - t\<bar> \<le> max_duration \<Longrightarrow> sint (since now t) = now - t"
  unfolding since_def by (subst sint_word_of_int) (auto simp: max_duration_def)

section \<open>Sources of snapshots\<close>

text \<open>What a scraper's owner promises: a refresh without an error yields a snapshot, and a good one.\<close>

locale refresh_source =
  fixes refresh :: "('w, 'c, 'e, 'a) refresh_fun"
    and good :: "'a \<Rightarrow> bool"
  assumes refresh_good: "refresh w c = (c', Inr v) \<Longrightarrow> \<exists>a. v = Some a \<and> good a"
begin

lemma last_success_good:
  "pred_option good ini \<Longrightarrow> pred_option good (last_success ini (tick_results refresh ts c))"
proof (induction ts arbitrary: ini c)
  case (Cons t ts)
  obtain c' r where r: "refresh (World t) c = (c', r)" by force
  have "pred_option good (case r of Inl _ \<Rightarrow> ini | Inr v \<Rightarrow> v)"
    using Cons.prems refresh_good [of "World t" c c'] r by (cases r) auto
  then have "pred_option good (last_success (case r of Inl _ \<Rightarrow> ini | Inr v \<Rightarrow> v) (tick_results refresh ts c'))"
    by (rule Cons.IH)
  then show ?case by (simp add: r)
qed simp

lemma last_success_present:
  assumes "ts \<noteq> []" and "\<not> isl (last (tick_results refresh ts c))"
  shows "last_success ini (tick_results refresh ts c) \<noteq> None"
  using assms
proof (induction ts arbitrary: ini c)
  case (Cons t ts)
  obtain c' r where r: "refresh (World t) c = (c', r)" by force
  have ne: "ts \<noteq> [] \<Longrightarrow> tick_results refresh ts c' \<noteq> []"
    by (metis length_0_conv length_tick_results)
  show ?case
  proof (cases "ts = []")
    case True
    with Cons.prems r refresh_good [of "World t" c c'] show ?thesis
      by (cases r) auto
  next
    case False
    then have "last_success (case r of Inl _ \<Rightarrow> ini | Inr v \<Rightarrow> v) (tick_results refresh ts c') \<noteq> None"
      using Cons.IH [OF False] Cons.prems(2) ne by (simp add: r)
    then show ?thesis by (simp add: r)
  qed
qed simp

text \<open>A scraper that is not stale has a snapshot, and it is good.\<close>

lemma fresh_has_snapshot:
  assumes "scraper_run refresh t evs c s = (c', s', e)" and "0 < sint (ConfInterval (ScConfig s))"
    and "pred_option good (ScSnap s)" and "scraper_stale now maxAge s' = None"
  shows "\<exists>a. scraper_snapshot s' = Some a \<and> good a"
proof -
  let ?rs = "tick_results refresh (t # ticks_of evs) c"
  have s': "ScSnap s' = last_success (ScSnap s) ?rs"
      "ScOutcome s' = Some (outcome_of (last (t # ticks_of evs)) (last ?rs))"
    using scraper_run_state(1) [OF assms(1,2)] ticks_state_result [of refresh "t # ticks_of evs" c s]
    by simp_all
  have "\<not> isl (last ?rs)"
    using assms(4) s'(2) by (auto simp: scraper_stale_def scraper_outcome_def outcome_of_def Let_def
        split: if_splits)
  then have "ScSnap s' \<noteq> None"
    unfolding s'(1) by (intro last_success_present) simp
  moreover have "pred_option good (ScSnap s')"
    unfolding s'(1) using assms(3) by (rule last_success_good)
  ultimately show ?thesis
    by (auto simp: scraper_snapshot_def)
qed

end

section \<open>Readers between the two stores\<close>

text \<open>
  \<^verbatim>\<open>Refresh\<close> stores the outcome first and the snapshot second, and the collectors and the
  readiness check read the two pointers at any moment. The second component of a memory is the
  snapshot that a running refresh has yet to store; the third collects what refreshes returned.
\<close>

datatype ('e, 'a) memory_event =
    Outcome_stored "'e outcome" "'e + 'a option"
  | Snapshot_stored
  | Snapshot_loaded "'a option"

type_synonym ('e, 'a) sc_memory = "('e, 'a) scraper \<times> 'a option option \<times> 'a option list"

inductive memory_step :: "('e, 'a) sc_memory \<Rightarrow> ('e, 'a) memory_event \<Rightarrow> ('e, 'a) sc_memory \<Rightarrow> bool" where
  store_failed: "memory_step (s, None, vs) (Outcome_stored o' (Inl e)) (s\<lparr>ScOutcome := Some o'\<rparr>, None, vs)"
| store_outcome: "memory_step (s, None, vs) (Outcome_stored o' (Inr v)) (s\<lparr>ScOutcome := Some o'\<rparr>, Some v, vs @ [v])"
| store_snapshot: "memory_step (s, Some v, vs) Snapshot_stored (s\<lparr>ScSnap := v\<rparr>, None, vs)"
| load_snapshot: "memory_step (s, p, vs) (Snapshot_loaded (scraper_snapshot s)) (s, p, vs)"

inductive_cases memory_load_cases: "memory_step (s, p, vs) (Snapshot_loaded v) m"

inductive memory_run :: "('e, 'a) sc_memory \<Rightarrow> ('e, 'a) memory_event list \<Rightarrow> ('e, 'a) sc_memory \<Rightarrow> bool" where
  memory_done: "memory_run m [] m"
| memory_more: "memory_step m ev m' \<Longrightarrow> memory_run m' evs m'' \<Longrightarrow> memory_run m (ev # evs) m''"

text \<open>The snapshot pointer holds the latest value returned, or the one before it during a store.\<close>

definition readers_ok :: "('e, 'a) sc_memory \<Rightarrow> bool" where
  "readers_ok = (\<lambda>(s, p, vs). case p of
       None \<Rightarrow> ScSnap s = last (None # vs)
     | Some v \<Rightarrow> vs \<noteq> [] \<and> v = last vs \<and> ScSnap s = last (None # butlast vs))"

lemma memory_step_ok: "memory_step m ev m' \<Longrightarrow> readers_ok m \<Longrightarrow> readers_ok m'"
  by (induction rule: memory_step.induct) (auto simp: readers_ok_def split: if_splits option.splits)

lemma memory_run_ok: "memory_run m evs m' \<Longrightarrow> readers_ok m \<Longrightarrow> readers_ok m'"
  by (induction rule: memory_run.induct) (auto dest: memory_step_ok)

text \<open>The two stores of a refresh, taken together, are the state change of \<^const>\<open>scraper_refresh\<close>.\<close>

lemma refresh_refines_stores:
  assumes "refresh (World t) c = (c', r)" and "scraper_refresh refresh t c s = (c'', s', log, err)"
  shows "\<exists>vs' evs. memory_run (s, None, vs) evs (s', None, vs')"
proof (cases r)
  case (Inl e)
  then have "s' = s\<lparr>ScOutcome := Some (outcome_of t r)\<rparr>"
    using assms by (auto simp: scraper_refresh_def outcome_of_def Let_def)
  then show ?thesis
    using store_failed memory_done memory_more by metis
next
  case (Inr v)
  then have "s' = s\<lparr>ScOutcome := Some (outcome_of t r)\<rparr>\<lparr>ScSnap := v\<rparr>"
    using assms by (auto simp: scraper_refresh_def outcome_of_def Let_def)
  then show ?thesis
    using store_outcome store_snapshot memory_done memory_more by metis
qed

section \<open>The snapshot as a register\<close>

text \<open>
  The abstract specification of the snapshot: one register that is published to and read in one
  step each. The events of the memory are mapped to it: a publication is the store of the
  snapshot, the store of the outcome before it is not visible.
\<close>

datatype 'a reg_event = Publish "'a option" | Read "'a option"

inductive reg_run :: "'a option \<Rightarrow> 'a reg_event list \<Rightarrow> 'a option \<Rightarrow> bool" where
  reg_done: "reg_run x [] x"
| reg_publish: "reg_run v es y \<Longrightarrow> reg_run x (Publish v # es) y"
| reg_read: "reg_run x es y \<Longrightarrow> reg_run x (Read x # es) y"

fun reg_events :: "'a option option \<Rightarrow> ('e, 'a) memory_event list \<Rightarrow> 'a reg_event list" where
  "reg_events p [] = []"
| "reg_events p (Outcome_stored o' r # evs) = reg_events (case r of Inl _ \<Rightarrow> p | Inr v \<Rightarrow> Some v) evs"
| "reg_events p (Snapshot_stored # evs) = map Publish (case p of None \<Rightarrow> [] | Some v \<Rightarrow> [v]) @ reg_events None evs"
| "reg_events p (Snapshot_loaded v # evs) = Read v # reg_events p evs"

fun published :: "'a reg_event list \<Rightarrow> 'a option list" where
  "published [] = []"
| "published (Publish v # es) = v # published es"
| "published (Read v # es) = published es"

definition pending_value :: "'a option option \<Rightarrow> 'a option list" where
  "pending_value p = (case p of None \<Rightarrow> [] | Some v \<Rightarrow> [v])"

text \<open>One step keeps the two machines together.\<close>

lemma memory_run_simulates:
  assumes "memory_run m evs m'"
  shows "reg_run (ScSnap (fst m)) (reg_events (fst (snd m)) evs) (ScSnap (fst m'))"
    and "snd (snd m) = pub @ pending_value (fst (snd m)) \<Longrightarrow>
      snd (snd m') = pub @ published (reg_events (fst (snd m)) evs) @ pending_value (fst (snd m'))"
proof -
  have "reg_run (ScSnap (fst m)) (reg_events (fst (snd m)) evs) (ScSnap (fst m'))
    \<and> (\<forall>pub. snd (snd m) = pub @ pending_value (fst (snd m)) \<longrightarrow>
      snd (snd m') = pub @ published (reg_events (fst (snd m)) evs) @ pending_value (fst (snd m')))"
    using assms
  proof (induction rule: memory_run.induct)
    case (memory_more m ev m' evs m'')
    from memory_more.hyps(1) memory_more.IH show ?case
      by (cases rule: memory_step.cases)
        (auto simp: pending_value_def scraper_snapshot_def intro: reg_publish reg_read)
  qed (simp add: reg_done)
  then show "reg_run (ScSnap (fst m)) (reg_events (fst (snd m)) evs) (ScSnap (fst m'))"
    and "snd (snd m) = pub @ pending_value (fst (snd m)) \<Longrightarrow>
      snd (snd m') = pub @ published (reg_events (fst (snd m)) evs) @ pending_value (fst (snd m'))"
    by auto
qed

section \<open>Properties\<close>

text \<open>Property C10. After any sequence of ticks the snapshot is what the last successful refresh returned,
  or the one from before the run if every refresh failed; the outcome is that of the last tick handled, and
  nothing after the cancellation is handled.\<close>

theorem scraper_run_keeps_last_success:
  assumes "scraper_run refresh t evs c s = (c', s', e)" and "0 < sint (ConfInterval (ScConfig s))"
  shows "scraper_snapshot s' = last_success (ScSnap s) (tick_results refresh (t # ticks_of evs) c)
    \<and> scraper_outcome s' = outcome_of (last (t # ticks_of evs))
        (last (tick_results refresh (t # ticks_of evs) c))
    \<and> e = (if Cancelled \<in> set evs then Returned else Running)"
  using scraper_run_state [OF assms] ticks_state_result [of refresh "t # ticks_of evs" c s]
  by (simp add: scraper_snapshot_def scraper_outcome_def)

text \<open>The staleness verdict: no error exactly when there was an attempt, the last one
  succeeded, and it started no longer ago than the given age.\<close>

lemma scraper_stale_verdict:
  "scraper_stale now maxAge s = None \<longleftrightarrow>
     (\<exists>out. ScOutcome s = Some out \<and> OTime out \<noteq> 0 \<and> OSuccess out
        \<and> sint (since now (OTime out)) \<le> sint maxAge)"
  by (auto simp: scraper_stale_def scraper_outcome_def zero_outcome_def Let_def word_sless_alt
      split: option.splits)

text \<open>A reader running between the two stores of a refresh sees the value of the last
  successful refresh or of the one before it, never that of a failed one or an older one.\<close>

lemma snapshot_readers_see_recent:
  assumes "scraper_new cfg = Inr s" and "memory_run (s, None, []) evs (s', p, vs)"
    and "memory_step (s', p, vs) (Snapshot_loaded v) m"
  shows "v = last (None # vs) \<or> v = last (None # butlast vs)"
proof -
  have "readers_ok (s, None, [])"
    using assms(1) by (auto simp: readers_ok_def scraper_new_def split: if_splits)
  then have "readers_ok (s', p, vs)"
    using assms(2) memory_run_ok by blast
  moreover have "v = ScSnap s'"
    using assms(3) by (auto elim: memory_load_cases simp: scraper_snapshot_def)
  ultimately show ?thesis
    by (auto simp: readers_ok_def split: option.splits)
qed

text \<open>Property C18. The two stores of a refresh refine one atomic register: every run of the memory, with
  readers at any point, is a run of the register whose reads are the loads and whose publications are
  the values of the successful refreshes, each once and in order, except one still to be stored.\<close>

theorem memory_refines_register:
  assumes "scraper_new cfg = Inr s" and "memory_run (s, None, []) evs (s', p, vs)"
  shows "reg_run None (reg_events None evs) (ScSnap s')
    \<and> vs = published (reg_events None evs) @ pending_value p"
proof -
  have "ScSnap s = None"
    using assms(1) by (auto simp: scraper_new_def split: if_splits)
  then show ?thesis
    using memory_run_simulates(1) [OF assms(2)] memory_run_simulates(2) [OF assms(2), of "[]"]
    by (simp add: pending_value_def)
qed

section \<open>Examples\<close>

definition ex_scraper_config :: scrape_config where
  "ex_scraper_config = \<lparr>ConfName = ''ovs'', ConfInterval = 0, HasRefresh = True, HasLogger = True,
     HasTracer = True\<rparr>"

text \<open>A source whose world is the result of the next refresh.\<close>

definition ex_refresh :: "(string + nat option) \<Rightarrow> unit \<Rightarrow> unit \<times> (string + nat option)" where
  "ex_refresh w c = (c, w)"

definition ex_tick :: "string + nat option \<Rightarrow> int \<Rightarrow> (string + nat option) tick" where
  "ex_tick w t = \<lparr>World = w, Start = t, Finish = t + 5\<rparr>"

definition ex_scraper :: "(string, nat) scraper" where
  "ex_scraper = \<lparr>ScConfig = ex_scraper_config\<lparr>ConfInterval := 15 * 1000000000\<rparr>, ScSnap = None,
     ScOutcome = None\<rparr>"

lemma ex_scraper_new: "scraper_new ex_scraper_config = Inr ex_scraper"
  by (simp add: scraper_new_def ex_scraper_config_def ex_scraper_def)

theorem scraper_run_keeps_last_success_witness:
  "scraper_snapshot (fst (snd (scraper_run ex_refresh (ex_tick (Inl ''down'') 10)
      [Tick (ex_tick (Inr (Some 7)) 20), Tick (ex_tick (Inl ''lost'') 30), Cancelled,
       Tick (ex_tick (Inr (Some 9)) 40)] () ex_scraper))) = Some 7"
proof -
  let ?evs = "[Tick (ex_tick (Inr (Some 7)) 20), Tick (ex_tick (Inl ''lost'') 30), Cancelled,
       Tick (ex_tick (Inr (Some 9)) 40)]"
  obtain c' s' e where run: "scraper_run ex_refresh (ex_tick (Inl ''down'') 10) ?evs () ex_scraper = (c', s', e)"
    by (metis prod_cases3)
  have "0 < sint (ConfInterval (ScConfig ex_scraper))"
    by (simp add: ex_scraper_def)
  then show ?thesis
    using scraper_run_keeps_last_success [OF run]
    by (simp only: run fst_conv snd_conv) (simp add: ex_refresh_def ex_tick_def ex_scraper_def)
qed

theorem snapshot_readers_see_recent_witness:
  "scraper_snapshot ex_scraper = last (None # [Some 7])
    \<or> scraper_snapshot ex_scraper = last (None # butlast [Some (7::nat)])"
proof -
  let ?o = "outcome_of (ex_tick (Inr (Some 7)) 20) (Inr (Some 7) :: string + nat option)"
  let ?s = "ex_scraper\<lparr>ScOutcome := Some ?o\<rparr>"
  have run: "memory_run (ex_scraper, None, []) [Outcome_stored ?o (Inr (Some 7))] (?s, Some (Some 7), [Some 7])"
    using store_outcome [of ex_scraper "[]" ?o "Some 7"] memory_done by (auto intro: memory_more)
  have "memory_step (?s, Some (Some 7), [Some 7]) (Snapshot_loaded (scraper_snapshot ?s)) (?s, Some (Some 7), [Some 7])"
    by (rule load_snapshot)
  from snapshot_readers_see_recent [OF ex_scraper_new run this]
  show ?thesis by (simp add: scraper_snapshot_def)
qed

theorem memory_refines_register_witness:
  "reg_run None [Publish (Some 7), Read (Some 7)] (Some (7::nat))"
proof -
  let ?o = "outcome_of (ex_tick (Inr (Some 7)) 20) (Inr (Some 7) :: string + nat option)"
  let ?s = "ex_scraper\<lparr>ScOutcome := Some ?o\<rparr>"
  let ?t = "?s\<lparr>ScSnap := Some 7\<rparr>"
  have "memory_run (?t, None, [Some 7]) [Snapshot_loaded (Some 7)] (?t, None, [Some 7])"
    using load_snapshot [of ?t None "[Some 7]"] memory_done by (auto simp: scraper_snapshot_def intro: memory_more)
  then have "memory_run (?s, Some (Some 7), [Some 7]) [Snapshot_stored, Snapshot_loaded (Some 7)] (?t, None, [Some 7])"
    using store_snapshot [of ?s "Some 7" "[Some 7]"] by (rule memory_more [rotated])
  then have "memory_run (ex_scraper, None, []) [Outcome_stored ?o (Inr (Some 7)), Snapshot_stored, Snapshot_loaded (Some 7)]
      (?t, None, [Some 7])"
    using store_outcome [of ex_scraper "[]" ?o "Some 7"] by (auto intro: memory_more [rotated])
  from memory_refines_register [OF ex_scraper_new this] show ?thesis
    by simp
qed

end
