(* ===== verification/Refresh.thy ===== *)
theory Refresh
  imports UnixctlClient Scraper Coverage Memory Dpif Dpctl Upcall
begin

text \<open>
  \<^verbatim>\<open>internal/datasource/refresh.go\<close> and \<^verbatim>\<open>internal/unixctl/snapshot.go\<close>: one refresh calls the
  five appctl methods in order through the client and assembles what could be parsed. The
  closure \<^verbatim>\<open>call\<close> updates its captured variables, which are the fields of \<open>refresh_state\<close>.
\<close>

record ovs_snapshot =
  SnapCoverage :: "coverage option"
  SnapMemory :: "memory option"
  SnapDPIF :: "dpif option"
  SnapDPCTL :: "dpctl option"
  SnapUpcall :: "upcall option"

definition empty_snapshot :: ovs_snapshot where
  "empty_snapshot = \<lparr>SnapCoverage = None, SnapMemory = None, SnapDPIF = None, SnapDPCTL = None,
     SnapUpcall = None\<rparr>"

datatype refresh_error = All_failed nat

record refresh_state =
  RClient :: client
  Snap :: ovs_snapshot
  Attempts :: nat
  Failures :: nat
  RTrace :: "(string \<times> io list) list"

type_synonym store = "string \<Rightarrow> ovs_snapshot \<Rightarrow> ovs_snapshot \<times> parse_error option"

text \<open>The store functions: a field is set only when its reply parses.\<close>

definition store_with ::
    "(string \<Rightarrow> parse_error + 'a) \<Rightarrow> ('a \<Rightarrow> ovs_snapshot \<Rightarrow> ovs_snapshot) \<Rightarrow> store" where
  "store_with parse set_field raw snap =
     (case parse raw of
        Inl e \<Rightarrow> (snap, Some e)
      | Inr v \<Rightarrow> (set_field v snap, None))"

definition store_coverage :: store where
  "store_coverage = store_with parse_coverage (\<lambda>v s. s\<lparr>SnapCoverage := Some v\<rparr>)"

definition store_memory :: store where
  "store_memory = store_with parse_memory (\<lambda>v s. s\<lparr>SnapMemory := Some v\<rparr>)"

definition store_dpif :: store where
  "store_dpif = store_with parse_dpif (\<lambda>v s. s\<lparr>SnapDPIF := Some v\<rparr>)"

definition store_dpctl :: store where
  "store_dpctl = store_with parse_dpctl (\<lambda>v s. s\<lparr>SnapDPCTL := Some v\<rparr>)"

definition store_upcall :: store where
  "store_upcall = store_with parse_upcall (\<lambda>v s. s\<lparr>SnapUpcall := Some v\<rparr>)"

text \<open>\<^verbatim>\<open>call\<close>: the outside world answers the \<open>i\<close>-th call of the refresh with \<open>envs i\<close>.\<close>

definition refresh_call :: "(nat \<Rightarrow> call_env) \<Rightarrow> refresh_state \<Rightarrow> string \<times> store \<Rightarrow> refresh_state" where
  "refresh_call envs st m =
     (case client_call (envs (Attempts st)) (fst m) None (RClient st) of
        (c, ios, res) \<Rightarrow>
          let st = st\<lparr>RClient := c, Attempts := Attempts st + 1, RTrace := RTrace st @ [(fst m, ios)]\<rparr>
          in (case res of
                Inl e \<Rightarrow> st\<lparr>Failures := Failures st + 1\<rparr>
              | Inr raw \<Rightarrow>
                  (case snd m raw (Snap st) of
                     (snap, None) \<Rightarrow> st\<lparr>Snap := snap\<rparr>
                   | (snap, Some e) \<Rightarrow> st\<lparr>Snap := snap, Failures := Failures st + 1\<rparr>)))"

definition ovs_methods :: "(string \<times> store) list" where
  "ovs_methods =
     [(''coverage/show'', store_coverage), (''memory/show'', store_memory),
      (''dpif/show'', store_dpif), (''dpctl/show'', store_dpctl), (''upcall/show'', store_upcall)]"

definition refresh_init :: "client \<Rightarrow> refresh_state" where
  "refresh_init c = \<lparr>RClient = c, Snap = empty_snapshot, Attempts = 0, Failures = 0, RTrace = []\<rparr>"

definition ovs_refresh ::
    "(nat \<Rightarrow> call_env) \<Rightarrow> client \<Rightarrow> client \<times> (refresh_error + ovs_snapshot)" where
  "ovs_refresh envs c =
     (let st = foldl (refresh_call envs) (refresh_init c) ovs_methods
      in (RClient st,
          if 0 < Attempts st \<and> Failures st = Attempts st then Inl (All_failed (Failures st))
          else Inr (Snap st)))"

section \<open>What a refresh returns\<close>

text \<open>The results of the five calls, each made in the state the one before it left.\<close>

primrec call_results :: "(nat \<Rightarrow> call_env) \<Rightarrow> nat \<Rightarrow> string list \<Rightarrow> client \<Rightarrow> (call_error + string) list" where
  "call_results envs i [] c = []"
| "call_results envs i (m # ms) c =
     (case client_call (envs i) m None c of
        (c', ios, res) \<Rightarrow> res # call_results envs (Suc i) ms c')"

primrec calls_client :: "(nat \<Rightarrow> call_env) \<Rightarrow> nat \<Rightarrow> string list \<Rightarrow> client \<Rightarrow> client" where
  "calls_client envs i [] c = c"
| "calls_client envs i (m # ms) c = calls_client envs (Suc i) ms (fst (client_call (envs i) m None c))"

text \<open>A reply as a snapshot field.\<close>

definition field_of :: "(string \<Rightarrow> parse_error + 'a) \<Rightarrow> call_error + string \<Rightarrow> 'a option" where
  "field_of parse res =
     (case res of
        Inl e \<Rightarrow> None
      | Inr raw \<Rightarrow> (case parse raw of Inl e \<Rightarrow> None | Inr v \<Rightarrow> Some v))"

definition failed :: "'a option \<Rightarrow> nat" where
  "failed x = (if x = None then 1 else 0)"

lemma refresh_call_store:
  assumes "client_call (envs (Attempts st)) m None (RClient st) = (c, ios, res)"
  shows "refresh_call envs st (m, store_with parse set_field) =
    st\<lparr>RClient := c, Attempts := Attempts st + 1, RTrace := RTrace st @ [(m, ios)],
      Snap := (case field_of parse res of None \<Rightarrow> Snap st | Some v \<Rightarrow> set_field v (Snap st)),
      Failures := Failures st + failed (field_of parse res)\<rparr>"
  using assms
  by (cases st) (auto simp: refresh_call_def store_with_def field_of_def failed_def split: sum.split)

definition snapshot_of :: "(call_error + string) list \<Rightarrow> ovs_snapshot" where
  "snapshot_of rs =
     \<lparr>SnapCoverage = field_of parse_coverage (rs ! 0), SnapMemory = field_of parse_memory (rs ! 1),
      SnapDPIF = field_of parse_dpif (rs ! 2), SnapDPCTL = field_of parse_dpctl (rs ! 3),
      SnapUpcall = field_of parse_upcall (rs ! 4)\<rparr>"

definition snapshot_empty :: "ovs_snapshot \<Rightarrow> bool" where
  "snapshot_empty s \<longleftrightarrow> SnapCoverage s = None \<and> SnapMemory s = None \<and> SnapDPIF s = None
     \<and> SnapDPCTL s = None \<and> SnapUpcall s = None"

definition snapshot_ok :: "ovs_snapshot \<Rightarrow> bool" where
  "snapshot_ok s \<longleftrightarrow> pred_option coverage_ok (SnapCoverage s)
     \<and> pred_option memory_ok (SnapMemory s)
     \<and> pred_option dpif_ok (SnapDPIF s) \<and> pred_option dpctl_ok (SnapDPCTL s)
     \<and> pred_option upcall_ok (SnapUpcall s)"

lemma ovs_refresh_results:
  "ovs_refresh envs c =
     (calls_client envs 0 (map fst ovs_methods) c,
      let snap = snapshot_of (call_results envs 0 (map fst ovs_methods) c)
      in if snapshot_empty snap then Inl (All_failed 5) else Inr snap)"
proof -
  obtain c1 i1 r1 where r1: "client_call (envs 0) ''coverage/show'' None c = (c1, i1, r1)"
    by (metis prod_cases3)
  obtain c2 i2 r2 where r2: "client_call (envs (Suc 0)) ''memory/show'' None c1 = (c2, i2, r2)"
    by (metis prod_cases3)
  obtain c3 i3 r3 where r3: "client_call (envs 2) ''dpif/show'' None c2 = (c3, i3, r3)"
    by (metis prod_cases3)
  obtain c4 i4 r4 where r4: "client_call (envs 3) ''dpctl/show'' None c3 = (c4, i4, r4)"
    by (metis prod_cases3)
  obtain c5 i5 r5 where r5: "client_call (envs 4) ''upcall/show'' None c4 = (c5, i5, r5)"
    by (metis prod_cases3)
  note calls = r1 r2 r3 r4 r5
  have nums: "Suc (Suc 0) = 2" "Suc 2 = 3" "Suc 3 = 4"
    by simp_all
  let ?rs = "[r1, r2, r3, r4, r5]"
  have rs: "call_results envs 0 (map fst ovs_methods) c = ?rs"
    and c5: "calls_client envs 0 (map fst ovs_methods) c = c5"
    by (simp_all add: ovs_methods_def calls nums)
  let ?st = "foldl (refresh_call envs) (refresh_init c) ovs_methods"
  have st: "RClient ?st = c5" "Attempts ?st = 5" "Snap ?st = snapshot_of ?rs"
    "Failures ?st = failed (field_of parse_coverage r1) + failed (field_of parse_memory r2)
      + failed (field_of parse_dpif r3) + failed (field_of parse_dpctl r4)
      + failed (field_of parse_upcall r5)"
    by (simp_all add: ovs_methods_def refresh_init_def store_coverage_def store_memory_def
        store_dpif_def store_dpctl_def store_upcall_def calls nums refresh_call_store
        snapshot_of_def empty_snapshot_def split: option.splits)
  have "Failures ?st = 5 \<longleftrightarrow> snapshot_empty (snapshot_of ?rs)"
    by (auto simp: st(4) failed_def snapshot_empty_def snapshot_of_def)
  with st(1-3) show ?thesis
    unfolding rs c5 by (simp add: ovs_refresh_def Let_def)
qed

lemma field_ok:
  assumes "\<And>raw v. parse raw = Inr v \<Longrightarrow> ok v"
  shows "pred_option ok (field_of parse res)"
  using assms by (auto simp: field_of_def split: sum.split)

lemma snapshot_of_ok: "snapshot_ok (snapshot_of rs)"
  unfolding snapshot_ok_def snapshot_of_def ovs_snapshot.simps
  by (intro conjI field_ok cov.parse_inv mem.parse_inv dpif_p.parse_inv dpctl_p.parse_inv
      upcall_p.parse_inv)

lemma ovs_refresh_ok: "ovs_refresh envs c = (c', Inr snap) \<Longrightarrow> snapshot_ok snap"
  by (auto simp: ovs_refresh_results Let_def snapshot_of_ok split: if_splits)

text \<open>As the refresh function of a scraper: a pointer to the snapshot, or an error.\<close>

definition ovs_refresh_fun :: "(nat \<Rightarrow> call_env, client, refresh_error, ovs_snapshot) refresh_fun" where
  "ovs_refresh_fun envs c = (case ovs_refresh envs c of (c', r) \<Rightarrow> (c', map_sum id Some r))"

interpretation ovs_source: refresh_source ovs_refresh_fun snapshot_ok
proof unfold_locales
  fix envs c c' v
  assume "ovs_refresh_fun envs c = (c', Inr v)"
  then obtain snap where "ovs_refresh envs c = (c', Inr snap)" and "v = Some snap"
    by (auto simp: ovs_refresh_fun_def map_sum_def split: prod.splits sum.splits)
  then show "\<exists>a. v = Some a \<and> snapshot_ok a"
    using ovs_refresh_ok by auto
qed

section \<open>Properties\<close>

text \<open>Property C8. A refresh is best effort: it makes the five calls in order, each in the state
  the previous one left, every field of the
  snapshot holds exactly what its own reply parses to, and the refresh fails exactly when no
  field could be filled.\<close>

theorem ovs_refresh_best_effort:
  "ovs_refresh envs c =
     (let ms = [''coverage/show'', ''memory/show'', ''dpif/show'', ''dpctl/show'', ''upcall/show''];
          snap = snapshot_of (call_results envs 0 ms c)
      in (calls_client envs 0 ms c,
          if snapshot_empty snap then Inl (All_failed 5) else Inr snap))"
proof -
  have "map fst ovs_methods
      = [''coverage/show'', ''memory/show'', ''dpif/show'', ''dpctl/show'', ''upcall/show'']"
    by (simp add: ovs_methods_def)
  then show ?thesis
    using ovs_refresh_results [of envs c] by (simp only: Let_def)
qed

text \<open>Every snapshot a refresh publishes is well formed: the maps have distinct keys
  that are the names of their values, and no count that the switch prints as a count is
  negative.\<close>

lemma ovs_refresh_well_formed:
  "case ovs_refresh envs c of
     (c', Inl e) \<Rightarrow> e = All_failed 5
   | (c', Inr snap) \<Rightarrow> snapshot_ok snap \<and> \<not> snapshot_empty snap"
  by (simp add: ovs_refresh_results Let_def snapshot_of_ok)

end
