(* ===== verification/Recovery.thy ===== *)
theory Recovery
  imports Refresh
begin

text \<open>
  Liveness of the refresh: what one refresh achieves once the switch answers again, whatever state
  earlier failures left the client in. Nothing in the client has to be reset by hand: a call that fails at
  the transport leaves a client that dials again.
\<close>

section \<open>A switch that answers\<close>

definition socket_found :: "call_env \<Rightarrow> client_config \<Rightarrow> string option" where
  "socket_found env cfg =
     (if SocketPath cfg = [] then
        (case DiscoverSocket (Fs env) (RunDir cfg) (Daemon cfg) of Inl e \<Rightarrow> None | Inr p \<Rightarrow> Some p)
      else Some (SocketPath cfg))"

text \<open>The socket is there and can be dialled, and the exchange ends with a reply whose result is \<open>raw\<close>.\<close>

definition answers :: "call_env \<Rightarrow> client_config \<Rightarrow> string \<Rightarrow> bool" where
  "answers env cfg raw \<longleftrightarrow>
     (case socket_found env cfg of None \<Rightarrow> False | Some p \<Rightarrow> Dial env p \<noteq> None)
     \<and> DeadlineOk env \<and> EncodeOk env
     \<and> (case Decoded env of None \<Rightarrow> False | Some r \<Rightarrow> \<not> response_failed r \<and> RespResult r = raw)"

lemma ensure_connected_answers:
  assumes "answers env (Cfg c) raw"
  shows "\<exists>c' ios. ensure_connected env c = (c', ios, None)"
  using assms
  by (auto simp: answers_def socket_found_def ensure_connected_def dial_client_def split: option.splits sum.splits if_splits)

lemma client_call_answers:
  assumes "answers env (Cfg c) raw"
  shows "snd (snd (client_call env m ps c)) = Inr raw"
proof -
  obtain c' ios where "ensure_connected env c = (c', ios, None)"
    using ensure_connected_answers [OF assms] by blast
  moreover have "snd (snd (client_exchange env m ps k c')) = Inr raw" for k
    using assms by (auto simp: answers_def client_exchange_def Let_def split: option.splits)
  ultimately show ?thesis
    by (simp add: client_call_def split_beta)
qed

lemma client_exchange_cfg: "Cfg (fst (client_exchange env m ps k c)) = Cfg c"
  by (simp add: client_exchange_def call_failed_def Let_def split_beta split: option.split)

lemma client_call_cfg: "Cfg (fst (client_call env m ps c)) = Cfg c"
proof -
  obtain c' ios e where conn: "ensure_connected env c = (c', ios, e)"
    by (metis prod_cases3)
  then have "Cfg c' = Cfg c"
    by (auto simp: ensure_connected_def dial_client_def split: option.splits sum.splits if_splits)
  then show ?thesis
    using client_exchange_cfg [of env m ps "the (Conn c')" c']
    by (simp add: client_call_def conn split_beta split: option.split)
qed

text \<open>From a given call on the switch answers, the \<open>i\<close>-th call with \<open>raws i\<close>.\<close>

lemma call_results_answers:
  assumes "k < length ms" and "answers (envs (j + k)) (Cfg c) raw"
  shows "call_results envs j ms c ! k = Inr raw"
  using assms
proof (induction ms arbitrary: j k c)
  case (Cons m ms)
  obtain c' ios res where call: "client_call (envs j) m None c = (c', ios, res)"
    by (metis prod_cases3)
  have cfg: "Cfg c' = Cfg c"
    using client_call_cfg [of "envs j" m None c] by (simp add: call)
  show ?case
  proof (cases k)
    case 0
    then show ?thesis
      using Cons.prems client_call_answers [of "envs j" c raw m None] by (simp add: call)
  next
    case (Suc k')
    then show ?thesis
      using Cons.prems Cons.IH [of k' "Suc j" c'] cfg by (simp add: call)
  qed
qed simp

lemma answered_result:
  assumes "answers (envs k) (Cfg c) raw" and "k < 5"
  shows "call_results envs 0 (map fst ovs_methods) c ! k = Inr raw"
  using assms by (intro call_results_answers) (simp_all add: ovs_methods_def)

section \<open>A switch that came back\<close>

text \<open>
  After a restart of the switch, \<open>alive\<close> tells the connections to the new process from those to the old
  one. The environment of a call belongs to such a switch if its socket can be found and dialled, and if
  the exchange succeeds on a connection that is alive and fails at the transport on one that is not. So the
  outcome depends on the connection the call uses: the one the client holds, or else the one it dials.
\<close>

definition dialled_conn :: "call_env \<Rightarrow> client_config \<Rightarrow> nat option" where
  "dialled_conn env cfg = (case socket_found env cfg of None \<Rightarrow> None | Some p \<Rightarrow> Dial env p)"

definition used_conn :: "call_env \<Rightarrow> client \<Rightarrow> nat option" where
  "used_conn env c = (case Conn c of None \<Rightarrow> dialled_conn env (Cfg c) | Some k \<Rightarrow> Some k)"

definition exchange_answered :: "call_env \<Rightarrow> string \<Rightarrow> bool" where
  "exchange_answered env raw \<longleftrightarrow> DeadlineOk env \<and> EncodeOk env
     \<and> (case Decoded env of None \<Rightarrow> False | Some r \<Rightarrow> \<not> response_failed r \<and> RespResult r = raw)"

definition exchange_broken :: "call_env \<Rightarrow> bool" where
  "exchange_broken env \<longleftrightarrow> \<not> DeadlineOk env \<or> \<not> EncodeOk env \<or> Decoded env = None"

definition restarted :: "(nat \<Rightarrow> bool) \<Rightarrow> call_env \<Rightarrow> client \<Rightarrow> string \<Rightarrow> bool" where
  "restarted alive env c raw \<longleftrightarrow>
     (case dialled_conn env (Cfg c) of None \<Rightarrow> False | Some k \<Rightarrow> alive k)
     \<and> (case used_conn env c of
          None \<Rightarrow> False
        | Some k \<Rightarrow> if alive k then exchange_answered env raw else exchange_broken env)"

text \<open>A client whose connection, if it holds one, is to the old process.\<close>

definition holds_dead :: "(nat \<Rightarrow> bool) \<Rightarrow> client \<Rightarrow> bool" where
  "holds_dead alive c = (case Conn c of None \<Rightarrow> False | Some k \<Rightarrow> \<not> alive k)"

definition holds_live :: "(nat \<Rightarrow> bool) \<Rightarrow> client \<Rightarrow> bool" where
  "holds_live alive c = (case Conn c of None \<Rightarrow> False | Some k \<Rightarrow> alive k)"

lemma ensure_connected_dials:
  assumes "dialled_conn env (Cfg c) = Some k" and "Conn c = None"
  shows "\<exists>ios. ensure_connected env c = (c\<lparr>Conn := Some k, Dec := Some k, Enc := Some k\<rparr>, ios, None)"
  using assms
  by (auto simp: dialled_conn_def socket_found_def ensure_connected_def dial_client_def
      split: option.splits sum.splits if_splits)

lemma exchange_answered_result:
  assumes "exchange_answered env raw" and "holds_live alive c"
  shows "snd (snd (client_exchange env m ps k c)) = Inr raw \<and> holds_live alive (fst (client_exchange env m ps k c))"
  using assms by (auto simp: exchange_answered_def client_exchange_def Let_def holds_live_def split: option.splits)

lemma live_call:
  assumes "restarted alive env c raw" and "\<not> holds_dead alive c"
  shows "snd (snd (client_call env m ps c)) = Inr raw \<and> holds_live alive (fst (client_call env m ps c))"
proof (cases "Conn c")
  case None
  then obtain k where k: "dialled_conn env (Cfg c) = Some k" "alive k" "exchange_answered env raw"
    using assms(1) by (auto simp: restarted_def used_conn_def split: option.splits)
  let ?d = "c\<lparr>Conn := Some k, Dec := Some k, Enc := Some k\<rparr>"
  obtain ios where "ensure_connected env c = (?d, ios, None)"
    using ensure_connected_dials [OF k(1) None] by blast
  moreover have "holds_live alive ?d"
    using k(2) by (simp add: holds_live_def)
  ultimately show ?thesis
    using exchange_answered_result [OF k(3), of alive ?d m ps k] by (simp add: client_call_def split_beta)
next
  case (Some k)
  then have k: "holds_live alive c" "exchange_answered env raw"
    using assms by (auto simp: restarted_def used_conn_def holds_dead_def holds_live_def split: option.splits)
  have "ensure_connected env c = (c, [], None)"
    by (simp add: ensure_connected_def Some)
  then show ?thesis
    using exchange_answered_result [OF k(2,1), of m ps k] Some by (simp add: client_call_def split_beta)
qed

text \<open>The call that meets the old connection fails, and drops it.\<close>

lemma dead_call:
  assumes "restarted alive env c raw" and "holds_dead alive c"
  shows "\<exists>e. snd (snd (client_call env m ps c)) = Inl e" and "Conn (fst (client_call env m ps c)) = None"
proof -
  obtain k where k: "Conn c = Some k" "exchange_broken env"
    using assms by (auto simp: restarted_def used_conn_def holds_dead_def split: option.splits)
  then show "\<exists>e. snd (snd (client_call env m ps c)) = Inl e" "Conn (fst (client_call env m ps c)) = None"
    by (auto simp: client_call_def ensure_connected_def exchange_broken_def exchange_defs split_beta
        split: option.splits)
qed

lemma live_not_dead: "holds_live alive c \<Longrightarrow> \<not> holds_dead alive c"
  by (simp add: holds_live_def holds_dead_def split: option.splits)

text \<open>Calls one after the other, each in the environment of the switch that came back.\<close>

definition restarted_calls ::
    "(nat \<Rightarrow> bool) \<Rightarrow> (nat \<Rightarrow> call_env) \<Rightarrow> nat \<Rightarrow> string list \<Rightarrow> client \<Rightarrow> string list \<Rightarrow> bool" where
  "restarted_calls alive envs j ms c raws \<longleftrightarrow>
     (\<forall>i \<in> {..<length ms}. restarted alive (envs (j + i)) (calls_client envs j (take i ms) c) (raws ! i))"

lemma restarted_calls_Cons:
  "restarted_calls alive envs j (m # ms) c (raw # raws) \<longleftrightarrow>
     restarted alive (envs j) c raw
     \<and> restarted_calls alive envs (Suc j) ms (fst (client_call (envs j) m None c)) raws"
  by (auto simp: restarted_calls_def lessThan_Suc_eq_insert_0)

lemma live_calls:
  assumes "restarted_calls alive envs j ms c raws" and "\<not> holds_dead alive c" and "length raws = length ms"
  shows "call_results envs j ms c = map Inr raws
    \<and> (ms \<noteq> [] \<longrightarrow> holds_live alive (calls_client envs j ms c))"
  using assms
proof (induction ms arbitrary: j c raws)
  case (Cons m ms)
  then obtain raw raws' where raws: "raws = raw # raws'"
    by (cases raws) simp_all
  let ?c = "fst (client_call (envs j) m None c)"
  have now: "snd (snd (client_call (envs j) m None c)) = Inr raw" "holds_live alive ?c"
    using live_call [of alive "envs j" c raw m None] Cons.prems(1,2) by (simp_all add: raws restarted_calls_Cons)
  have "restarted_calls alive envs (Suc j) ms ?c raws'" "length raws' = length ms"
    using Cons.prems(1,3) by (simp_all add: raws restarted_calls_Cons)
  from Cons.IH [OF this(1) live_not_dead [OF now(2)] this(2)] show ?case
    using now by (cases "ms = []") (simp_all add: raws split_beta)
qed simp

text \<open>If the client held the old connection, only the first of the calls is lost.\<close>

lemma restarted_results:
  assumes "restarted_calls alive envs j (m # ms) c (raw # raws)" and "length raws = length ms" and "ms \<noteq> []"
  shows "\<exists>first. call_results envs j (m # ms) c = first # map Inr raws
    \<and> (if holds_dead alive c then isl first else first = Inr raw)
    \<and> holds_live alive (calls_client envs j (m # ms) c)"
proof (cases "holds_dead alive c")
  case True
  let ?c = "fst (client_call (envs j) m None c)"
  note call = assms(1) [unfolded restarted_calls_Cons]
  have "\<not> holds_dead alive ?c"
    using dead_call(2) [of alive "envs j" c raw m None] call True by (simp add: holds_dead_def)
  with live_calls [of alive envs "Suc j" ms ?c raws] show ?thesis
    using dead_call(1) [of alive "envs j" c raw m None] call assms(2,3) True by (auto simp: split_beta)
next
  case False
  then show ?thesis
    using live_calls [OF assms(1)] assms(2) by simp
qed

section \<open>Properties\<close>

text \<open>Property C9. Recovery after a restart of the switch: whatever connection the client holds, when the
  five calls of a refresh meet a switch whose socket can be found and dialled, whose reports parse, and
  which answers on the connections to it while every exchange on another connection fails, the refresh
  succeeds with the reports of the last four calls, and with the first one too unless the client held a
  connection to the old process; and it ends with a connection to the new one.\<close>

theorem refresh_recovers:
  assumes "restarted_calls alive envs 0
      [''coverage/show'', ''memory/show'', ''dpif/show'', ''dpctl/show'', ''upcall/show''] c
      [vraw, mraw, fraw, craw, uraw]"
    and "parse_coverage vraw = Inr cov" and "parse_memory mraw = Inr mem" and "parse_dpif fraw = Inr dpif"
    and "parse_dpctl craw = Inr dpctl" and "parse_upcall uraw = Inr upcall"
  shows "snd (ovs_refresh envs c) =
      Inr \<lparr>SnapCoverage = (if holds_dead alive c then None else Some cov), SnapMemory = Some mem,
           SnapDPIF = Some dpif, SnapDPCTL = Some dpctl, SnapUpcall = Some upcall\<rparr>
    \<and> holds_live alive (fst (ovs_refresh envs c))"
proof -
  have ms: "map fst ovs_methods
      = [''coverage/show'', ''memory/show'', ''dpif/show'', ''dpctl/show'', ''upcall/show'']"
    by (simp add: ovs_methods_def)
  obtain first where rs: "call_results envs 0 (map fst ovs_methods) c = first # map Inr [mraw, fraw, craw, uraw]"
      and first: "if holds_dead alive c then isl first else first = Inr vraw"
      and live: "holds_live alive (calls_client envs 0 (map fst ovs_methods) c)"
    using restarted_results [OF assms(1)] unfolding ms by auto
  have "field_of parse_coverage first = (if holds_dead alive c then None else Some cov)"
    using first assms(2) by (auto simp: field_of_def isl_def)
  then have "snapshot_of (call_results envs 0 (map fst ovs_methods) c) =
      \<lparr>SnapCoverage = (if holds_dead alive c then None else Some cov), SnapMemory = Some mem,
       SnapDPIF = Some dpif, SnapDPCTL = Some dpctl, SnapUpcall = Some upcall\<rparr>"
    unfolding rs snapshot_of_def using assms(3-6) by (simp add: field_of_def)
  with live show ?thesis
    by (simp add: ovs_refresh_results snapshot_empty_def)
qed

section \<open>Recovery after any history\<close>

lemma calls_client_cfg: "Cfg (calls_client envs i ms c) = Cfg c"
  by (induction ms arbitrary: i c) (simp_all add: client_call_cfg)

lemma ovs_refresh_fun_cfg: "Cfg (fst (ovs_refresh_fun envs c)) = Cfg c"
  by (simp add: ovs_refresh_fun_def ovs_refresh_results calls_client_cfg)

lemma ticks_state_cfg: "Cfg (fst (ticks_state ovs_refresh_fun ts c s)) = Cfg c"
proof (induction ts arbitrary: c s)
  case (Cons t ts)
  then show ?case
    using ovs_refresh_fun_cfg [of "World t" c] by (simp add: scraper_refresh_state Let_def split_beta)
qed simp

lemma ticks_state_append:
  "ticks_state refresh (ts @ us) c s = (case ticks_state refresh ts c s of (c1, s1) \<Rightarrow> ticks_state refresh us c1 s1)"
  by (induction ts arbitrary: c s) (simp_all add: split_beta)

lemma ticks_of_last: "Cancelled \<notin> set evs \<Longrightarrow> ticks_of (evs @ [Tick t]) = ticks_of evs @ [t]"
  by (induction evs rule: ticks_of.induct) simp_all

text \<open>The switch answers the last four calls of a refresh with reports that parse.\<close>

definition switch_back :: "(nat \<Rightarrow> call_env) \<Rightarrow> client_config \<Rightarrow> bool" where
  "switch_back envs cfg \<longleftrightarrow>
     (\<exists>raw v. answers (envs 1) cfg raw \<and> parse_memory raw = Inr v)
     \<and> (\<exists>raw v. answers (envs 2) cfg raw \<and> parse_dpif raw = Inr v)
     \<and> (\<exists>raw v. answers (envs 3) cfg raw \<and> parse_dpctl raw = Inr v)
     \<and> (\<exists>raw v. answers (envs 4) cfg raw \<and> parse_upcall raw = Inr v)"

definition four_reports :: "ovs_snapshot \<Rightarrow> bool" where
  "four_reports snap \<longleftrightarrow> SnapMemory snap \<noteq> None \<and> SnapDPIF snap \<noteq> None \<and> SnapDPCTL snap \<noteq> None
     \<and> SnapUpcall snap \<noteq> None"

lemma switch_back_refresh:
  assumes "switch_back envs (Cfg c)"
  shows "\<exists>c' snap. ovs_refresh_fun envs c = (c', Inr (Some snap)) \<and> four_reports snap"
proof -
  let ?snap = "snapshot_of (call_results envs 0 (map fst ovs_methods) c)"
  have "four_reports ?snap"
    using assms answered_result [of envs 1 c] answered_result [of envs 2 c] answered_result [of envs 3 c]
      answered_result [of envs 4 c]
    by (auto simp: switch_back_def four_reports_def snapshot_of_def field_of_def)
  then show ?thesis
    by (auto simp: ovs_refresh_fun_def ovs_refresh_results Let_def snapshot_empty_def four_reports_def)
qed

text \<open>What the last refresh of a run returns is what the scraper holds, whatever happened before it.\<close>

lemma last_refresh_run:
  assumes "scraper_run ovs_refresh_fun t0 (evs @ [Tick t]) c s = (c', s', e)"
    and "0 < sint (ConfInterval (ScConfig s))" and "Cancelled \<notin> set evs"
    and last: "\<And>c1. Cfg c1 = Cfg c \<Longrightarrow> \<exists>c2 snap. ovs_refresh_fun (World t) c1 = (c2, Inr (Some snap)) \<and> P snap"
  shows "\<exists>snap. ScSnap s' = Some snap \<and> P snap
    \<and> ScOutcome s' = Some (outcome_of t (Inr (Some snap) :: refresh_error + ovs_snapshot option))"
proof -
  obtain c1 s1 where before: "ticks_state ovs_refresh_fun (t0 # ticks_of evs) c s = (c1, s1)"
    by force
  then have "Cfg c1 = Cfg c"
    using ticks_state_cfg [of "t0 # ticks_of evs" c s] by simp
  then obtain c2 snap where call: "ovs_refresh_fun (World t) c1 = (c2, Inr (Some snap))" "P snap"
    using last by blast
  have "s' = snd (ticks_state ovs_refresh_fun ((t0 # ticks_of evs) @ [t]) c s)"
    using scraper_run_state(1) [OF assms(1,2)] by (simp add: ticks_of_last [OF assms(3)])
  then have "s' = refreshed t (Inr (Some snap)) s1"
    unfolding ticks_state_append before by (simp add: scraper_refresh_state call)
  then show ?thesis
    using call(2) by simp
qed

lemma switch_back_run:
  assumes "scraper_run ovs_refresh_fun t0 (evs @ [Tick t]) c s = (c', s', e)"
    and "0 < sint (ConfInterval (ScConfig s))" and "Cancelled \<notin> set evs" and "switch_back (World t) (Cfg c)"
  shows "\<exists>snap. ScSnap s' = Some snap \<and> four_reports snap
    \<and> ScOutcome s' = Some (outcome_of t (Inr (Some snap) :: refresh_error + ovs_snapshot option))"
  using switch_back_refresh assms(4) by (intro last_refresh_run [OF assms(1-3)]) metis

section \<open>Examples\<close>

text \<open>A switch that answers every call with an empty report.\<close>

definition ex_up_env :: call_env where
  "ex_up_env = ex_env 1 (Some \<lparr>RespResult = json_quote [], RespError = ''null'', RespID = 1\<rparr>)"

lemma ex_up_answers: "answers ex_up_env (Cfg (ex_client i k)) (json_quote [])"
  by (simp add: answers_def socket_found_def ex_up_env_def ex_defs response_failed_def)

lemma empty_reports:
  "parse_memory (json_quote []) = Inr (memory_of_text [])" "parse_dpif (json_quote []) = Inr (dpif_of_text [])"
  "parse_dpctl (json_quote []) = Inr (dpctl_of_text [])" "parse_upcall (json_quote []) = Inr (upcall_of_text [])"
  using mem.parse_quote [of "[]"] dpif_p.parse_quote [of "[]"] dpctl_p.parse_quote [of "[]"]
    upcall_p.parse_quote [of "[]"] by simp_all

text \<open>Connection 3 is to a process that is gone, connection 1 is dialled.\<close>

definition ex_restart :: "nat \<Rightarrow> call_env" where
  "ex_restart i = (if i = 0 then ex_env 1 None else ex_up_env)"

definition ex_alive :: "nat \<Rightarrow> bool" where
  "ex_alive k \<longleftrightarrow> k = 1"

lemma ex_restart_calls:
  "client_call (ex_restart 0) m None (ex_client 0 (Some 3))
     = (ex_client 1 None, [Set_deadline 3 200, Wrote 3 \<lparr>ReqMethod = m, ReqParams = [], ReqID = 1\<rparr>, Closed 3],
        Inl (Decode_failed m))"
  "fst (client_call (ex_restart (Suc i)) m None (ex_client n k)) = ex_client (n + 1) (case k of None \<Rightarrow> Some 1 | Some j \<Rightarrow> Some j)"
  by (simp_all add: ex_restart_def ex_up_env_def client_call_def ensure_connected_def dial_client_def exchange_defs
      ex_defs call_deadline_def second_ns_def response_failed_def split: option.split)

lemma ex_restart_up:
  "restarted ex_alive (ex_restart (Suc i)) (ex_client n None) (json_quote [])"
  "restarted ex_alive (ex_restart (Suc i)) (ex_client n (Some (Suc 0))) (json_quote [])"
  by (simp_all add: restarted_def dialled_conn_def used_conn_def socket_found_def exchange_answered_def ex_alive_def
      ex_restart_def ex_up_env_def ex_defs response_failed_def)

lemma ex_restarted:
  "restarted_calls ex_alive ex_restart 0
     [''coverage/show'', ''memory/show'', ''dpif/show'', ''dpctl/show'', ''upcall/show''] (ex_client 0 (Some 3))
     [json_quote [], json_quote [], json_quote [], json_quote [], json_quote []]"
proof -
  have "restarted ex_alive (ex_restart 0) (ex_client 0 (Some 3)) (json_quote [])"
    by (simp add: restarted_def dialled_conn_def used_conn_def socket_found_def exchange_broken_def ex_alive_def
        ex_restart_def ex_defs)
  moreover have "restarted_calls ex_alive ex_restart j [] c []" for j c
    by (simp add: restarted_calls_def)
  ultimately show ?thesis
    by (simp add: restarted_calls_Cons ex_restart_calls ex_restart_up)
qed

theorem refresh_recovers_witness:
  "snd (ovs_refresh ex_restart (ex_client 0 (Some 3))) =
      Inr \<lparr>SnapCoverage = None, SnapMemory = Some (memory_of_text []), SnapDPIF = Some (dpif_of_text []),
           SnapDPCTL = Some (dpctl_of_text []), SnapUpcall = Some (upcall_of_text [])\<rparr>"
proof -
  have "parse_coverage (json_quote []) = Inr (coverage_of_text [])"
    using cov.parse_quote [of "[]"] by simp
  from refresh_recovers [OF ex_restarted this empty_reports] show ?thesis
    by (simp add: holds_dead_def ex_alive_def ex_client_def)
qed

end
