(* ===== verification/VswitchSchema.thy ===== *)
theory VswitchSchema
  imports Prelude
begin

text \<open>
  \<^verbatim>\<open>internal/ovsdb/ovsmodel/model.go\<close>, the literal \<^verbatim>\<open>schema\<close>: the tables and columns of the Open_vSwitch
  database, version 8.3.1, in the order of the literal. An omitted \<^verbatim>\<open>min\<close> or \<^verbatim>\<open>max\<close> is 1; \<open>None\<close> as the
  greatest number of elements is \<^verbatim>\<open>"unlimited"\<close>. The columns of the long tables are listed in parts.
\<close>

section \<open>Schemas\<close>

datatype atom_type = Integer_atom | Boolean_atom | String_atom | Uuid_atom

record base_type =
  Atom :: atom_type
  Enum :: "string list" \<comment> \<open>empty when any value is allowed\<close>
  MinInteger :: "int option"
  MaxInteger :: "int option"
  RefTable :: "string option"
  RefWeak :: bool

record column_type =
  KeyType :: base_type
  ValueType :: "base_type option"
  MinCount :: nat
  MaxCount :: "nat option"

record column =
  ColumnName :: string
  ColumnType :: column_type
  Ephemeral :: bool
  Mutable :: bool

record table_schema =
  Columns :: "column list"
  Indexes :: "string list list"
  IsRoot :: bool

record database_schema =
  SchemaName :: string
  SchemaVersion :: string
  Tables :: "(string \<times> table_schema) list"

text \<open>The base types and the column types that occur.\<close>

definition base_of :: "atom_type \<Rightarrow> base_type" where
  "base_of a = \<lparr>Atom = a, Enum = [], MinInteger = None, MaxInteger = None, RefTable = None, RefWeak = False\<rparr>"

definition integer_base :: base_type where "integer_base = base_of Integer_atom"
definition boolean_base :: base_type where "boolean_base = base_of Boolean_atom"
definition string_base :: base_type where "string_base = base_of String_atom"

definition between :: "int option \<Rightarrow> int option \<Rightarrow> base_type" where
  "between lo hi = integer_base\<lparr>MinInteger := lo, MaxInteger := hi\<rparr>"

definition enumeration :: "string list \<Rightarrow> base_type" where
  "enumeration vs = string_base\<lparr>Enum := vs\<rparr>"

definition ref :: "string \<Rightarrow> base_type" where
  "ref t = (base_of Uuid_atom)\<lparr>RefTable := Some t\<rparr>"

definition weak_ref :: "string \<Rightarrow> base_type" where
  "weak_ref t = (ref t)\<lparr>RefWeak := True\<rparr>"

definition scalar :: "base_type \<Rightarrow> column_type" where
  "scalar b = \<lparr>KeyType = b, ValueType = None, MinCount = 1, MaxCount = Some 1\<rparr>"

definition optional :: "base_type \<Rightarrow> column_type" where
  "optional b = \<lparr>KeyType = b, ValueType = None, MinCount = 0, MaxCount = Some 1\<rparr>"

definition many :: "nat \<Rightarrow> nat option \<Rightarrow> base_type \<Rightarrow> column_type" where
  "many lo hi b = \<lparr>KeyType = b, ValueType = None, MinCount = lo, MaxCount = hi\<rparr>"

definition mapping_of :: "base_type \<Rightarrow> base_type \<Rightarrow> column_type" where
  "mapping_of k v = \<lparr>KeyType = k, ValueType = Some v, MinCount = 0, MaxCount = None\<rparr>"

definition column :: "string \<Rightarrow> column_type \<Rightarrow> column" where
  "column n t = \<lparr>ColumnName = n, ColumnType = t, Ephemeral = False, Mutable = True\<rparr>"

definition ephemeral :: "column \<Rightarrow> column" where "ephemeral c = c\<lparr>Ephemeral := True\<rparr>"

definition immutable :: "column \<Rightarrow> column" where "immutable c = c\<lparr>Mutable := False\<rparr>"

section \<open>The tables\<close>

definition table_AutoAttach :: table_schema where
  "table_AutoAttach = \<lparr>Columns =
     [column ''mappings'' (mapping_of (between (Some 0) (Some 16777215)) (between (Some 0) (Some 4095))),
      column ''system_description'' (scalar string_base), column ''system_name'' (scalar string_base)],
     Indexes = [], IsRoot = False\<rparr>"

definition Bridge_columns_1 :: "column list" where
  "Bridge_columns_1 =
     [column ''auto_attach'' (optional (ref ''AutoAttach'')),
      column ''controller'' (many 0 None (ref ''Controller'')),
      ephemeral (column ''datapath_id'' (optional string_base)),
      column ''datapath_type'' (scalar string_base), column ''datapath_version'' (scalar string_base),
      column ''external_ids'' (mapping_of string_base string_base),
      column ''fail_mode'' (optional (enumeration [''standalone'', ''secure''])),
      column ''flood_vlans'' (many 0 (Some 4096) (between (Some 0) (Some 4095))),
      column ''flow_tables'' (mapping_of (between (Some 0) (Some 254)) (ref ''Flow_Table'')),
      column ''ipfix'' (optional (ref ''IPFIX'')), column ''mcast_snooping_enable'' (scalar boolean_base),
      column ''mirrors'' (many 0 None (ref ''Mirror''))]"

definition Bridge_columns_2 :: "column list" where
  "Bridge_columns_2 =
     [immutable (column ''name'' (scalar string_base)), column ''netflow'' (optional (ref ''NetFlow'')),
      column ''other_config'' (mapping_of string_base string_base),
      column ''ports'' (many 0 None (ref ''Port'')),
      column ''protocols'' (many 0 None (enumeration [''OpenFlow10'', ''OpenFlow11'', ''OpenFlow12'',
         ''OpenFlow13'', ''OpenFlow14'', ''OpenFlow15''])),
      column ''rstp_enable'' (scalar boolean_base),
      ephemeral (column ''rstp_status'' (mapping_of string_base string_base)),
      column ''sflow'' (optional (ref ''sFlow'')),
      ephemeral (column ''status'' (mapping_of string_base string_base)),
      column ''stp_enable'' (scalar boolean_base)]"

definition table_Bridge :: table_schema where
  "table_Bridge = \<lparr>Columns =
     Bridge_columns_1 @ Bridge_columns_2,
     Indexes = [[''name'']], IsRoot = False\<rparr>"

definition table_CT_Timeout_Policy :: table_schema where
  "table_CT_Timeout_Policy = \<lparr>Columns =
     [column ''external_ids'' (mapping_of string_base string_base),
      column ''timeouts'' (mapping_of (enumeration [''tcp_syn_sent'', ''tcp_syn_recv'', ''tcp_established'',
         ''tcp_fin_wait'', ''tcp_close_wait'', ''tcp_last_ack'', ''tcp_time_wait'', ''tcp_close'',
         ''tcp_syn_sent2'', ''tcp_retransmit'', ''tcp_unack'', ''udp_first'', ''udp_single'', ''udp_multiple'',
         ''icmp_first'', ''icmp_reply'']) (between (Some 0) (Some 4294967295)))],
     Indexes = [], IsRoot = False\<rparr>"

definition table_CT_Zone :: table_schema where
  "table_CT_Zone = \<lparr>Columns =
     [column ''external_ids'' (mapping_of string_base string_base),
      column ''timeout_policy'' (optional (ref ''CT_Timeout_Policy''))],
     Indexes = [], IsRoot = False\<rparr>"

definition Controller_columns_1 :: "column list" where
  "Controller_columns_1 =
     [column ''connection_mode'' (optional (enumeration [''in-band'', ''out-of-band''])),
      column ''controller_burst_limit'' (optional (between (Some 25) None)),
      column ''controller_queue_size'' (optional (between (Some 1) (Some 512))),
      column ''controller_rate_limit'' (optional (between (Some 100) None)),
      column ''enable_async_messages'' (optional boolean_base),
      column ''external_ids'' (mapping_of string_base string_base),
      column ''inactivity_probe'' (optional integer_base),
      ephemeral (column ''is_connected'' (scalar boolean_base)),
      column ''local_gateway'' (optional string_base)]"

definition Controller_columns_2 :: "column list" where
  "Controller_columns_2 =
     [column ''local_ip'' (optional string_base), column ''local_netmask'' (optional string_base),
      column ''max_backoff'' (optional (between (Some 1000) None)),
      column ''other_config'' (mapping_of string_base string_base),
      ephemeral (column ''role'' (optional (enumeration [''other'', ''master'', ''slave'']))),
      ephemeral (column ''status'' (mapping_of string_base string_base)),
      column ''target'' (scalar string_base),
      column ''type'' (optional (enumeration [''primary'', ''service'']))]"

definition table_Controller :: table_schema where
  "table_Controller = \<lparr>Columns =
     Controller_columns_1 @ Controller_columns_2,
     Indexes = [], IsRoot = False\<rparr>"

definition table_Datapath :: table_schema where
  "table_Datapath = \<lparr>Columns =
     [column ''capabilities'' (mapping_of string_base string_base),
      column ''ct_zones'' (mapping_of (between (Some 0) (Some 65535)) (ref ''CT_Zone'')),
      column ''datapath_version'' (scalar string_base),
      column ''external_ids'' (mapping_of string_base string_base)],
     Indexes = [], IsRoot = False\<rparr>"

definition table_Flow_Sample_Collector_Set :: table_schema where
  "table_Flow_Sample_Collector_Set = \<lparr>Columns =
     [column ''bridge'' (scalar (ref ''Bridge'')),
      column ''external_ids'' (mapping_of string_base string_base),
      column ''id'' (scalar (between (Some 0) (Some 4294967295))),
      column ''ipfix'' (optional (ref ''IPFIX''))],
     Indexes = [[''id'', ''bridge'']], IsRoot = True\<rparr>"

definition table_Flow_Table :: table_schema where
  "table_Flow_Table = \<lparr>Columns =
     [column ''external_ids'' (mapping_of string_base string_base),
      column ''flow_limit'' (optional (between (Some 0) None)), column ''groups'' (many 0 None string_base),
      column ''name'' (optional string_base),
      column ''overflow_policy'' (optional (enumeration [''refuse'', ''evict''])),
      column ''prefixes'' (many 0 (Some 3) string_base)],
     Indexes = [], IsRoot = False\<rparr>"

definition table_IPFIX :: table_schema where
  "table_IPFIX = \<lparr>Columns =
     [column ''cache_active_timeout'' (optional (between (Some 0) (Some 4200))),
      column ''cache_max_flows'' (optional (between (Some 0) (Some 4294967295))),
      column ''external_ids'' (mapping_of string_base string_base),
      column ''obs_domain_id'' (optional (between (Some 0) (Some 4294967295))),
      column ''obs_point_id'' (optional (between (Some 0) (Some 4294967295))),
      column ''other_config'' (mapping_of string_base string_base),
      column ''sampling'' (optional (between (Some 1) (Some 4294967295))),
      column ''targets'' (many 0 None string_base)],
     Indexes = [], IsRoot = False\<rparr>"

definition Interface_columns_1 :: "column list" where
  "Interface_columns_1 =
     [ephemeral (column ''admin_state'' (optional (enumeration [''up'', ''down'']))),
      column ''bfd'' (mapping_of string_base string_base),
      ephemeral (column ''bfd_status'' (mapping_of string_base string_base)),
      ephemeral (column ''cfm_fault'' (optional boolean_base)),
      ephemeral (column ''cfm_fault_status'' (many 0 None string_base)),
      column ''cfm_flap_count'' (optional integer_base),
      ephemeral (column ''cfm_health'' (optional (between (Some 0) (Some 100)))),
      column ''cfm_mpid'' (optional integer_base),
      ephemeral (column ''cfm_remote_mpids'' (many 0 None integer_base)),
      ephemeral (column ''cfm_remote_opstate'' (optional (enumeration [''up'', ''down''])))]"

definition Interface_columns_2 :: "column list" where
  "Interface_columns_2 =
     [ephemeral (column ''duplex'' (optional (enumeration [''half'', ''full'']))),
      column ''error'' (optional string_base), column ''external_ids'' (mapping_of string_base string_base),
      ephemeral (column ''ifindex'' (optional (between (Some 0) (Some 4294967295)))),
      column ''ingress_policing_burst'' (scalar (between (Some 0) None)),
      column ''ingress_policing_kpkts_burst'' (scalar (between (Some 0) None)),
      column ''ingress_policing_kpkts_rate'' (scalar (between (Some 0) None)),
      column ''ingress_policing_rate'' (scalar (between (Some 0) None)),
      ephemeral (column ''lacp_current'' (optional boolean_base)),
      ephemeral (column ''link_resets'' (optional integer_base)),
      ephemeral (column ''link_speed'' (optional integer_base)),
      ephemeral (column ''link_state'' (optional (enumeration [''up'', ''down''])))]"

definition Interface_columns_3 :: "column list" where
  "Interface_columns_3 =
     [column ''lldp'' (mapping_of string_base string_base), column ''mac'' (optional string_base),
      ephemeral (column ''mac_in_use'' (optional string_base)),
      ephemeral (column ''mtu'' (optional integer_base)),
      column ''mtu_request'' (optional (between (Some 1) None)),
      immutable (column ''name'' (scalar string_base)), column ''ofport'' (optional integer_base),
      column ''ofport_request'' (optional (between (Some 1) (Some 65279))),
      column ''options'' (mapping_of string_base string_base),
      column ''other_config'' (mapping_of string_base string_base),
      ephemeral (column ''statistics'' (mapping_of string_base integer_base)),
      ephemeral (column ''status'' (mapping_of string_base string_base)),
      column ''type'' (scalar string_base)]"

definition table_Interface :: table_schema where
  "table_Interface = \<lparr>Columns =
     Interface_columns_1 @ Interface_columns_2 @ Interface_columns_3,
     Indexes = [[''name'']], IsRoot = False\<rparr>"

definition table_Manager :: table_schema where
  "table_Manager = \<lparr>Columns =
     [column ''connection_mode'' (optional (enumeration [''in-band'', ''out-of-band''])),
      column ''external_ids'' (mapping_of string_base string_base),
      column ''inactivity_probe'' (optional integer_base),
      ephemeral (column ''is_connected'' (scalar boolean_base)),
      column ''max_backoff'' (optional (between (Some 1000) None)),
      column ''other_config'' (mapping_of string_base string_base),
      ephemeral (column ''status'' (mapping_of string_base string_base)),
      column ''target'' (scalar string_base)],
     Indexes = [[''target'']], IsRoot = False\<rparr>"

definition table_Mirror :: table_schema where
  "table_Mirror = \<lparr>Columns =
     [column ''external_ids'' (mapping_of string_base string_base), column ''name'' (scalar string_base),
      column ''output_port'' (optional (weak_ref ''Port'')),
      column ''output_vlan'' (optional (between (Some 1) (Some 4095))),
      column ''select_all'' (scalar boolean_base),
      column ''select_dst_port'' (many 0 None (weak_ref ''Port'')),
      column ''select_src_port'' (many 0 None (weak_ref ''Port'')),
      column ''select_vlan'' (many 0 (Some 4096) (between (Some 0) (Some 4095))),
      column ''snaplen'' (optional (between (Some 14) (Some 65535))),
      ephemeral (column ''statistics'' (mapping_of string_base integer_base))],
     Indexes = [], IsRoot = False\<rparr>"

definition table_NetFlow :: table_schema where
  "table_NetFlow = \<lparr>Columns =
     [column ''active_timeout'' (scalar (between (Some (- 1)) None)),
      column ''add_id_to_interface'' (scalar boolean_base),
      column ''engine_id'' (optional (between (Some 0) (Some 255))),
      column ''engine_type'' (optional (between (Some 0) (Some 255))),
      column ''external_ids'' (mapping_of string_base string_base),
      column ''targets'' (many 1 None string_base)],
     Indexes = [], IsRoot = False\<rparr>"

definition Open_vSwitch_columns_1 :: "column list" where
  "Open_vSwitch_columns_1 =
     [column ''bridges'' (many 0 None (ref ''Bridge'')), column ''cur_cfg'' (scalar integer_base),
      column ''datapath_types'' (many 0 None string_base),
      column ''datapaths'' (mapping_of string_base (ref ''Datapath'')),
      column ''db_version'' (optional string_base), column ''dpdk_initialized'' (scalar boolean_base),
      column ''dpdk_version'' (optional string_base),
      column ''external_ids'' (mapping_of string_base string_base),
      column ''iface_types'' (many 0 None string_base)]"

definition Open_vSwitch_columns_2 :: "column list" where
  "Open_vSwitch_columns_2 =
     [column ''manager_options'' (many 0 None (ref ''Manager'')), column ''next_cfg'' (scalar integer_base),
      column ''other_config'' (mapping_of string_base string_base),
      column ''ovs_version'' (optional string_base), column ''ssl'' (optional (ref ''SSL'')),
      ephemeral (column ''statistics'' (mapping_of string_base string_base)),
      column ''system_type'' (optional string_base), column ''system_version'' (optional string_base)]"

definition table_Open_vSwitch :: table_schema where
  "table_Open_vSwitch = \<lparr>Columns =
     Open_vSwitch_columns_1 @ Open_vSwitch_columns_2,
     Indexes = [], IsRoot = True\<rparr>"

definition Port_columns_1 :: "column list" where
  "Port_columns_1 =
     [column ''bond_active_slave'' (optional string_base), column ''bond_downdelay'' (scalar integer_base),
      column ''bond_fake_iface'' (scalar boolean_base),
      column ''bond_mode'' (optional (enumeration [''balance-tcp'', ''balance-slb'', ''active-backup''])),
      column ''bond_updelay'' (scalar integer_base),
      column ''cvlans'' (many 0 (Some 4096) (between (Some 0) (Some 4095))),
      column ''external_ids'' (mapping_of string_base string_base),
      column ''fake_bridge'' (scalar boolean_base), column ''interfaces'' (many 1 None (ref ''Interface'')),
      column ''lacp'' (optional (enumeration [''active'', ''passive'', ''off''])),
      column ''mac'' (optional string_base), immutable (column ''name'' (scalar string_base)),
      column ''other_config'' (mapping_of string_base string_base),
      column ''protected'' (scalar boolean_base)]"

definition Port_columns_2 :: "column list" where
  "Port_columns_2 =
     [column ''qos'' (optional (ref ''QoS'')),
      ephemeral (column ''rstp_statistics'' (mapping_of string_base integer_base)),
      ephemeral (column ''rstp_status'' (mapping_of string_base string_base)),
      ephemeral (column ''statistics'' (mapping_of string_base integer_base)),
      ephemeral (column ''status'' (mapping_of string_base string_base)),
      column ''tag'' (optional (between (Some 0) (Some 4095))),
      column ''trunks'' (many 0 (Some 4096) (between (Some 0) (Some 4095))),
      column ''vlan_mode'' (optional (enumeration [''trunk'', ''access'', ''native-tagged'',
         ''native-untagged'', ''dot1q-tunnel'']))]"

definition table_Port :: table_schema where
  "table_Port = \<lparr>Columns =
     Port_columns_1 @ Port_columns_2,
     Indexes = [[''name'']], IsRoot = False\<rparr>"

definition table_QoS :: table_schema where
  "table_QoS = \<lparr>Columns =
     [column ''external_ids'' (mapping_of string_base string_base),
      column ''other_config'' (mapping_of string_base string_base),
      column ''queues'' (mapping_of (between (Some 0) (Some 4294967295)) (ref ''Queue'')),
      column ''type'' (scalar string_base)],
     Indexes = [], IsRoot = True\<rparr>"

definition table_Queue :: table_schema where
  "table_Queue = \<lparr>Columns =
     [column ''dscp'' (optional (between (Some 0) (Some 63))),
      column ''external_ids'' (mapping_of string_base string_base),
      column ''other_config'' (mapping_of string_base string_base)],
     Indexes = [], IsRoot = True\<rparr>"

definition table_SSL :: table_schema where
  "table_SSL = \<lparr>Columns =
     [column ''bootstrap_ca_cert'' (scalar boolean_base), column ''ca_cert'' (scalar string_base),
      column ''certificate'' (scalar string_base),
      column ''external_ids'' (mapping_of string_base string_base),
      column ''private_key'' (scalar string_base)],
     Indexes = [], IsRoot = False\<rparr>"

definition table_sFlow :: table_schema where
  "table_sFlow = \<lparr>Columns =
     [column ''agent'' (optional string_base), column ''external_ids'' (mapping_of string_base string_base),
      column ''header'' (optional integer_base), column ''polling'' (optional integer_base),
      column ''sampling'' (optional integer_base), column ''targets'' (many 1 None string_base)],
     Indexes = [], IsRoot = False\<rparr>"

definition schema :: database_schema where
  "schema = \<lparr>SchemaName = ''Open_vSwitch'', SchemaVersion = ''8.3.1'', Tables =
     [(''AutoAttach'', table_AutoAttach), (''Bridge'', table_Bridge),
      (''CT_Timeout_Policy'', table_CT_Timeout_Policy), (''CT_Zone'', table_CT_Zone),
      (''Controller'', table_Controller), (''Datapath'', table_Datapath),
      (''Flow_Sample_Collector_Set'', table_Flow_Sample_Collector_Set), (''Flow_Table'', table_Flow_Table),
      (''IPFIX'', table_IPFIX), (''Interface'', table_Interface), (''Manager'', table_Manager),
      (''Mirror'', table_Mirror), (''NetFlow'', table_NetFlow), (''Open_vSwitch'', table_Open_vSwitch),
      (''Port'', table_Port), (''QoS'', table_QoS), (''Queue'', table_Queue), (''SSL'', table_SSL),
      (''sFlow'', table_sFlow)]\<rparr>"

end
