(* ===== verification/OvsModel.thy ===== *)
theory OvsModel
  imports VswitchSchema
begin

text \<open>
  \<^verbatim>\<open>internal/ovsdb/ovsmodel\<close>: the Go structs the library decodes the rows of each table into, with their
  tags, and the model \<^verbatim>\<open>FullDatabaseModel\<close> that \<^verbatim>\<open>Connect\<close> hands to the library. What they can hold
  of a database is the subject of \<open>Database\<close>.
\<close>

section \<open>Structs\<close>

text \<open>An alias is a name for \<^verbatim>\<open>string\<close>.\<close>

datatype go_atom = G_int | G_bool | G_string | G_alias string

datatype go_type = Plain go_atom | Pointer go_atom | Slice go_atom | Map go_atom go_atom

text \<open>The rules of a \<^verbatim>\<open>validate\<close> tag, in order.\<close>

datatype tag_rule = Omitempty | Dive | Keys | Endkeys | Tag_min int | Tag_max int | Oneof "string list"

record struct_field =
  FieldName :: string
  FieldType :: go_type
  OvsdbTag :: string
  Validate :: "tag_rule list"

record row_struct =
  StructName :: string
  StructTable :: string
  Aliases :: "(string \<times> (string \<times> string) list) list" \<comment> \<open>each with its constants and their values\<close>
  Fields :: "struct_field list"

definition field :: "string \<Rightarrow> go_type \<Rightarrow> string \<Rightarrow> tag_rule list \<Rightarrow> struct_field" where
  "field n t tag rules = \<lparr>FieldName = n, FieldType = t, OvsdbTag = tag, Validate = rules\<rparr>"

definition unbounded :: int where "unbounded = 9223372036854775806"

section \<open>The structs of the tables\<close>

definition struct_AutoAttach :: row_struct where
  "struct_AutoAttach = \<lparr>StructName = ''AutoAttach'', StructTable = ''AutoAttach'',
     Aliases =
     [],
     Fields =
     [field ''UUID'' (Plain G_string) ''_uuid'' [],
      field ''Mappings'' (Map G_int G_int) ''mappings'' [Dive, Keys, Tag_min 0, Tag_max 16777215, Endkeys,
         Tag_min 0, Tag_max 4095],
      field ''SystemDescription'' (Plain G_string) ''system_description'' [Tag_max unbounded],
      field ''SystemName'' (Plain G_string) ''system_name'' [Tag_max unbounded]]\<rparr>"

definition struct_Bridge :: row_struct where
  "struct_Bridge = \<lparr>StructName = ''Bridge'', StructTable = ''Bridge'',
     Aliases =
     [(''BridgeFailMode'', [(''BridgeFailModeStandalone'', ''standalone''), (''BridgeFailModeSecure'',
        ''secure'')]),
      (''BridgeProtocols'', [(''BridgeProtocolsOpenflow10'', ''OpenFlow10''), (''BridgeProtocolsOpenflow11'',
         ''OpenFlow11''), (''BridgeProtocolsOpenflow12'', ''OpenFlow12''), (''BridgeProtocolsOpenflow13'',
         ''OpenFlow13''), (''BridgeProtocolsOpenflow14'', ''OpenFlow14''), (''BridgeProtocolsOpenflow15'',
         ''OpenFlow15'')])],
     Fields =
     [field ''UUID'' (Plain G_string) ''_uuid'' [],
      field ''AutoAttach'' (Pointer G_string) ''auto_attach'' [],
      field ''Controller'' (Slice G_string) ''controller'' [],
      field ''DatapathID'' (Pointer G_string) ''datapath_id'' [Omitempty, Tag_max unbounded],
      field ''DatapathType'' (Plain G_string) ''datapath_type'' [Tag_max unbounded],
      field ''DatapathVersion'' (Plain G_string) ''datapath_version'' [Tag_max unbounded],
      field ''ExternalIDs'' (Map G_string G_string) ''external_ids'' [Dive, Keys, Tag_max unbounded, Endkeys,
         Tag_max unbounded],
      field ''FailMode'' (Pointer (G_alias ''BridgeFailMode'')) ''fail_mode'' [Omitempty, Tag_max unbounded,
         Oneof [''standalone'', ''secure'']],
      field ''FloodVLANs'' (Slice G_int) ''flood_vlans'' [Tag_max 4096, Dive, Tag_min 0, Tag_max 4095],
      field ''FlowTables'' (Map G_int G_string) ''flow_tables'' [Dive, Keys, Tag_min 0, Tag_max 254],
      field ''IPFIX'' (Pointer G_string) ''ipfix'' [],
      field ''McastSnoopingEnable'' (Plain G_bool) ''mcast_snooping_enable'' [],
      field ''Mirrors'' (Slice G_string) ''mirrors'' [],
      field ''Name'' (Plain G_string) ''name'' [Tag_max unbounded],
      field ''Netflow'' (Pointer G_string) ''netflow'' [],
      field ''OtherConfig'' (Map G_string G_string) ''other_config'' [Dive, Keys, Tag_max unbounded, Endkeys,
         Tag_max unbounded],
      field ''Ports'' (Slice G_string) ''ports'' [],
      field ''Protocols'' (Slice (G_alias ''BridgeProtocols'')) ''protocols'' [Dive, Tag_max unbounded,
         Oneof [''OpenFlow10'', ''OpenFlow11'', ''OpenFlow12'', ''OpenFlow13'', ''OpenFlow14'',
         ''OpenFlow15'']],
      field ''RSTPEnable'' (Plain G_bool) ''rstp_enable'' [],
      field ''RSTPStatus'' (Map G_string G_string) ''rstp_status'' [Dive, Keys, Tag_max unbounded, Endkeys,
         Tag_max unbounded],
      field ''Sflow'' (Pointer G_string) ''sflow'' [],
      field ''Status'' (Map G_string G_string) ''status'' [Dive, Keys, Tag_max unbounded, Endkeys,
         Tag_max unbounded],
      field ''STPEnable'' (Plain G_bool) ''stp_enable'' []]\<rparr>"

definition struct_CTTimeoutPolicy :: row_struct where
  "struct_CTTimeoutPolicy = \<lparr>StructName = ''CTTimeoutPolicy'', StructTable = ''CT_Timeout_Policy'',
     Aliases =
     [(''CTTimeoutPolicyTimeouts'', [(''CTTimeoutPolicyTimeoutsTCPSynSent'', ''tcp_syn_sent''),
        (''CTTimeoutPolicyTimeoutsTCPSynRecv'', ''tcp_syn_recv''), (''CTTimeoutPolicyTimeoutsTCPEstablished'',
        ''tcp_established''), (''CTTimeoutPolicyTimeoutsTCPFinWait'', ''tcp_fin_wait''),
        (''CTTimeoutPolicyTimeoutsTCPCloseWait'', ''tcp_close_wait''), (''CTTimeoutPolicyTimeoutsTCPLastAck'',
        ''tcp_last_ack''), (''CTTimeoutPolicyTimeoutsTCPTimeWait'', ''tcp_time_wait''),
        (''CTTimeoutPolicyTimeoutsTCPClose'', ''tcp_close''), (''CTTimeoutPolicyTimeoutsTCPSynSent2'',
        ''tcp_syn_sent2''), (''CTTimeoutPolicyTimeoutsTCPRetransmit'', ''tcp_retransmit''),
        (''CTTimeoutPolicyTimeoutsTCPUnack'', ''tcp_unack''), (''CTTimeoutPolicyTimeoutsUDPFirst'',
        ''udp_first''), (''CTTimeoutPolicyTimeoutsUDPSingle'', ''udp_single''),
        (''CTTimeoutPolicyTimeoutsUDPMultiple'', ''udp_multiple''), (''CTTimeoutPolicyTimeoutsICMPFirst'',
        ''icmp_first''), (''CTTimeoutPolicyTimeoutsICMPReply'', ''icmp_reply'')])],
     Fields =
     [field ''UUID'' (Plain G_string) ''_uuid'' [],
      field ''ExternalIDs'' (Map G_string G_string) ''external_ids'' [Dive, Keys, Tag_max unbounded, Endkeys,
         Tag_max unbounded],
      field ''Timeouts'' (Map G_string G_int) ''timeouts'' [Dive, Keys, Tag_max unbounded,
         Oneof [''tcp_syn_sent'', ''tcp_syn_recv'', ''tcp_established'', ''tcp_fin_wait'', ''tcp_close_wait'',
         ''tcp_last_ack'', ''tcp_time_wait'', ''tcp_close'', ''tcp_syn_sent2'', ''tcp_retransmit'',
         ''tcp_unack'', ''udp_first'', ''udp_single'', ''udp_multiple'', ''icmp_first'', ''icmp_reply''],
         Endkeys, Tag_min 0, Tag_max 4294967295]]\<rparr>"

definition struct_CTZone :: row_struct where
  "struct_CTZone = \<lparr>StructName = ''CTZone'', StructTable = ''CT_Zone'',
     Aliases =
     [],
     Fields =
     [field ''UUID'' (Plain G_string) ''_uuid'' [],
      field ''ExternalIDs'' (Map G_string G_string) ''external_ids'' [Dive, Keys, Tag_max unbounded, Endkeys,
         Tag_max unbounded],
      field ''TimeoutPolicy'' (Pointer G_string) ''timeout_policy'' []]\<rparr>"

definition struct_Controller :: row_struct where
  "struct_Controller = \<lparr>StructName = ''Controller'', StructTable = ''Controller'',
     Aliases =
     [(''ControllerConnectionMode'', [(''ControllerConnectionModeInBand'', ''in-band''),
        (''ControllerConnectionModeOutOfBand'', ''out-of-band'')]),
      (''ControllerRole'', [(''ControllerRoleOther'', ''other''), (''ControllerRoleMaster'', ''master''),
         (''ControllerRoleSlave'', ''slave'')]),
      (''ControllerType'', [(''ControllerTypePrimary'', ''primary''), (''ControllerTypeService'',
         ''service'')])],
     Fields =
     [field ''UUID'' (Plain G_string) ''_uuid'' [],
      field ''ConnectionMode'' (Pointer (G_alias ''ControllerConnectionMode'')) ''connection_mode'' [Omitempty,
         Tag_max unbounded, Oneof [''in-band'', ''out-of-band'']],
      field ''ControllerBurstLimit'' (Pointer G_int) ''controller_burst_limit'' [Omitempty, Tag_min 25,
         Tag_max unbounded],
      field ''ControllerQueueSize'' (Pointer G_int) ''controller_queue_size'' [Omitempty, Tag_min 1,
         Tag_max 512],
      field ''ControllerRateLimit'' (Pointer G_int) ''controller_rate_limit'' [Omitempty, Tag_min 100,
         Tag_max unbounded],
      field ''EnableAsyncMessages'' (Pointer G_bool) ''enable_async_messages'' [],
      field ''ExternalIDs'' (Map G_string G_string) ''external_ids'' [Dive, Keys, Tag_max unbounded, Endkeys,
         Tag_max unbounded],
      field ''InactivityProbe'' (Pointer G_int) ''inactivity_probe'' [Omitempty, Tag_max unbounded],
      field ''IsConnected'' (Plain G_bool) ''is_connected'' [],
      field ''LocalGateway'' (Pointer G_string) ''local_gateway'' [Omitempty, Tag_max unbounded],
      field ''LocalIP'' (Pointer G_string) ''local_ip'' [Omitempty, Tag_max unbounded],
      field ''LocalNetmask'' (Pointer G_string) ''local_netmask'' [Omitempty, Tag_max unbounded],
      field ''MaxBackoff'' (Pointer G_int) ''max_backoff'' [Omitempty, Tag_min 1000, Tag_max unbounded],
      field ''OtherConfig'' (Map G_string G_string) ''other_config'' [Dive, Keys, Tag_max unbounded, Endkeys,
         Tag_max unbounded],
      field ''Role'' (Pointer (G_alias ''ControllerRole'')) ''role'' [Omitempty, Tag_max unbounded,
         Oneof [''other'', ''master'', ''slave'']],
      field ''Status'' (Map G_string G_string) ''status'' [Dive, Keys, Tag_max unbounded, Endkeys,
         Tag_max unbounded],
      field ''Target'' (Plain G_string) ''target'' [Tag_max unbounded],
      field ''Type'' (Pointer (G_alias ''ControllerType'')) ''type'' [Omitempty, Tag_max unbounded,
         Oneof [''primary'', ''service'']]]\<rparr>"

definition struct_Datapath :: row_struct where
  "struct_Datapath = \<lparr>StructName = ''Datapath'', StructTable = ''Datapath'',
     Aliases =
     [],
     Fields =
     [field ''UUID'' (Plain G_string) ''_uuid'' [],
      field ''Capabilities'' (Map G_string G_string) ''capabilities'' [Dive, Keys, Tag_max unbounded, Endkeys,
         Tag_max unbounded],
      field ''CTZones'' (Map G_int G_string) ''ct_zones'' [Dive, Keys, Tag_min 0, Tag_max 65535],
      field ''DatapathVersion'' (Plain G_string) ''datapath_version'' [Tag_max unbounded],
      field ''ExternalIDs'' (Map G_string G_string) ''external_ids'' [Dive, Keys, Tag_max unbounded, Endkeys,
         Tag_max unbounded]]\<rparr>"

definition struct_FlowSampleCollectorSet :: row_struct where
  "struct_FlowSampleCollectorSet = \<lparr>StructName = ''FlowSampleCollectorSet'',
     StructTable = ''Flow_Sample_Collector_Set'',
     Aliases =
     [],
     Fields =
     [field ''UUID'' (Plain G_string) ''_uuid'' [], field ''Bridge'' (Plain G_string) ''bridge'' [],
      field ''ExternalIDs'' (Map G_string G_string) ''external_ids'' [Dive, Keys, Tag_max unbounded, Endkeys,
         Tag_max unbounded],
      field ''ID'' (Plain G_int) ''id'' [Tag_min 0, Tag_max 4294967295],
      field ''IPFIX'' (Pointer G_string) ''ipfix'' []]\<rparr>"

definition struct_FlowTable :: row_struct where
  "struct_FlowTable = \<lparr>StructName = ''FlowTable'', StructTable = ''Flow_Table'',
     Aliases =
     [(''FlowTableOverflowPolicy'', [(''FlowTableOverflowPolicyRefuse'', ''refuse''),
        (''FlowTableOverflowPolicyEvict'', ''evict'')])],
     Fields =
     [field ''UUID'' (Plain G_string) ''_uuid'' [],
      field ''ExternalIDs'' (Map G_string G_string) ''external_ids'' [Dive, Keys, Tag_max unbounded, Endkeys,
         Tag_max unbounded],
      field ''FlowLimit'' (Pointer G_int) ''flow_limit'' [Omitempty, Tag_min 0, Tag_max unbounded],
      field ''Groups'' (Slice G_string) ''groups'' [Dive, Tag_max unbounded],
      field ''Name'' (Pointer G_string) ''name'' [Omitempty, Tag_max unbounded],
      field ''OverflowPolicy'' (Pointer (G_alias ''FlowTableOverflowPolicy'')) ''overflow_policy'' [Omitempty,
         Tag_max unbounded, Oneof [''refuse'', ''evict'']],
      field ''Prefixes'' (Slice G_string) ''prefixes'' [Tag_max 3, Dive, Tag_max unbounded]]\<rparr>"

definition struct_IPFIX :: row_struct where
  "struct_IPFIX = \<lparr>StructName = ''IPFIX'', StructTable = ''IPFIX'',
     Aliases =
     [],
     Fields =
     [field ''UUID'' (Plain G_string) ''_uuid'' [],
      field ''CacheActiveTimeout'' (Pointer G_int) ''cache_active_timeout'' [Omitempty, Tag_min 0,
         Tag_max 4200],
      field ''CacheMaxFlows'' (Pointer G_int) ''cache_max_flows'' [Omitempty, Tag_min 0, Tag_max 4294967295],
      field ''ExternalIDs'' (Map G_string G_string) ''external_ids'' [Dive, Keys, Tag_max unbounded, Endkeys,
         Tag_max unbounded],
      field ''ObsDomainID'' (Pointer G_int) ''obs_domain_id'' [Omitempty, Tag_min 0, Tag_max 4294967295],
      field ''ObsPointID'' (Pointer G_int) ''obs_point_id'' [Omitempty, Tag_min 0, Tag_max 4294967295],
      field ''OtherConfig'' (Map G_string G_string) ''other_config'' [Dive, Keys, Tag_max unbounded, Endkeys,
         Tag_max unbounded],
      field ''Sampling'' (Pointer G_int) ''sampling'' [Omitempty, Tag_min 1, Tag_max 4294967295],
      field ''Targets'' (Slice G_string) ''targets'' [Dive, Tag_max unbounded]]\<rparr>"

definition struct_Interface :: row_struct where
  "struct_Interface = \<lparr>StructName = ''Interface'', StructTable = ''Interface'',
     Aliases =
     [(''InterfaceAdminState'', [(''InterfaceAdminStateUp'', ''up''), (''InterfaceAdminStateDown'', ''down'')]),
      (''InterfaceCFMRemoteOpstate'', [(''InterfaceCFMRemoteOpstateUp'', ''up''),
         (''InterfaceCFMRemoteOpstateDown'', ''down'')]),
      (''InterfaceDuplex'', [(''InterfaceDuplexHalf'', ''half''), (''InterfaceDuplexFull'', ''full'')]),
      (''InterfaceLinkState'', [(''InterfaceLinkStateUp'', ''up''), (''InterfaceLinkStateDown'', ''down'')])],
     Fields =
     [field ''UUID'' (Plain G_string) ''_uuid'' [],
      field ''AdminState'' (Pointer (G_alias ''InterfaceAdminState'')) ''admin_state'' [Omitempty,
         Tag_max unbounded, Oneof [''up'', ''down'']],
      field ''BFD'' (Map G_string G_string) ''bfd'' [Dive, Keys, Tag_max unbounded, Endkeys, Tag_max unbounded],
      field ''BFDStatus'' (Map G_string G_string) ''bfd_status'' [Dive, Keys, Tag_max unbounded, Endkeys,
         Tag_max unbounded],
      field ''CFMFault'' (Pointer G_bool) ''cfm_fault'' [],
      field ''CFMFaultStatus'' (Slice G_string) ''cfm_fault_status'' [Dive, Tag_max unbounded],
      field ''CFMFlapCount'' (Pointer G_int) ''cfm_flap_count'' [Omitempty, Tag_max unbounded],
      field ''CFMHealth'' (Pointer G_int) ''cfm_health'' [Omitempty, Tag_min 0, Tag_max 100],
      field ''CFMMpid'' (Pointer G_int) ''cfm_mpid'' [Omitempty, Tag_max unbounded],
      field ''CFMRemoteMpids'' (Slice G_int) ''cfm_remote_mpids'' [Dive, Tag_max unbounded],
      field ''CFMRemoteOpstate'' (Pointer (G_alias ''InterfaceCFMRemoteOpstate'')) ''cfm_remote_opstate'' [Omitempty, Tag_max unbounded, Oneof [''up'', ''down'']],
      field ''Duplex'' (Pointer (G_alias ''InterfaceDuplex'')) ''duplex'' [Omitempty, Tag_max unbounded,
         Oneof [''half'', ''full'']],
      field ''Error'' (Pointer G_string) ''error'' [Omitempty, Tag_max unbounded],
      field ''ExternalIDs'' (Map G_string G_string) ''external_ids'' [Dive, Keys, Tag_max unbounded, Endkeys,
         Tag_max unbounded],
      field ''Ifindex'' (Pointer G_int) ''ifindex'' [Omitempty, Tag_min 0, Tag_max 4294967295],
      field ''IngressPolicingBurst'' (Plain G_int) ''ingress_policing_burst'' [Tag_min 0, Tag_max unbounded],
      field ''IngressPolicingKpktsBurst'' (Plain G_int) ''ingress_policing_kpkts_burst'' [Tag_min 0,
         Tag_max unbounded],
      field ''IngressPolicingKpktsRate'' (Plain G_int) ''ingress_policing_kpkts_rate'' [Tag_min 0,
         Tag_max unbounded],
      field ''IngressPolicingRate'' (Plain G_int) ''ingress_policing_rate'' [Tag_min 0, Tag_max unbounded],
      field ''LACPCurrent'' (Pointer G_bool) ''lacp_current'' [],
      field ''LinkResets'' (Pointer G_int) ''link_resets'' [Omitempty, Tag_max unbounded],
      field ''LinkSpeed'' (Pointer G_int) ''link_speed'' [Omitempty, Tag_max unbounded],
      field ''LinkState'' (Pointer (G_alias ''InterfaceLinkState'')) ''link_state'' [Omitempty,
         Tag_max unbounded, Oneof [''up'', ''down'']],
      field ''LLDP'' (Map G_string G_string) ''lldp'' [Dive, Keys, Tag_max unbounded, Endkeys,
         Tag_max unbounded],
      field ''MAC'' (Pointer G_string) ''mac'' [Omitempty, Tag_max unbounded],
      field ''MACInUse'' (Pointer G_string) ''mac_in_use'' [Omitempty, Tag_max unbounded],
      field ''MTU'' (Pointer G_int) ''mtu'' [Omitempty, Tag_max unbounded],
      field ''MTURequest'' (Pointer G_int) ''mtu_request'' [Omitempty, Tag_min 1, Tag_max unbounded],
      field ''Name'' (Plain G_string) ''name'' [Tag_max unbounded],
      field ''Ofport'' (Pointer G_int) ''ofport'' [Omitempty, Tag_max unbounded],
      field ''OfportRequest'' (Pointer G_int) ''ofport_request'' [Omitempty, Tag_min 1, Tag_max 65279],
      field ''Options'' (Map G_string G_string) ''options'' [Dive, Keys, Tag_max unbounded, Endkeys,
         Tag_max unbounded],
      field ''OtherConfig'' (Map G_string G_string) ''other_config'' [Dive, Keys, Tag_max unbounded, Endkeys,
         Tag_max unbounded],
      field ''Statistics'' (Map G_string G_int) ''statistics'' [Dive, Keys, Tag_max unbounded, Endkeys,
         Tag_max unbounded],
      field ''Status'' (Map G_string G_string) ''status'' [Dive, Keys, Tag_max unbounded, Endkeys,
         Tag_max unbounded],
      field ''Type'' (Plain G_string) ''type'' [Tag_max unbounded]]\<rparr>"

definition struct_Manager :: row_struct where
  "struct_Manager = \<lparr>StructName = ''Manager'', StructTable = ''Manager'',
     Aliases =
     [(''ManagerConnectionMode'', [(''ManagerConnectionModeInBand'', ''in-band''),
        (''ManagerConnectionModeOutOfBand'', ''out-of-band'')])],
     Fields =
     [field ''UUID'' (Plain G_string) ''_uuid'' [],
      field ''ConnectionMode'' (Pointer (G_alias ''ManagerConnectionMode'')) ''connection_mode'' [Omitempty,
         Tag_max unbounded, Oneof [''in-band'', ''out-of-band'']],
      field ''ExternalIDs'' (Map G_string G_string) ''external_ids'' [Dive, Keys, Tag_max unbounded, Endkeys,
         Tag_max unbounded],
      field ''InactivityProbe'' (Pointer G_int) ''inactivity_probe'' [Omitempty, Tag_max unbounded],
      field ''IsConnected'' (Plain G_bool) ''is_connected'' [],
      field ''MaxBackoff'' (Pointer G_int) ''max_backoff'' [Omitempty, Tag_min 1000, Tag_max unbounded],
      field ''OtherConfig'' (Map G_string G_string) ''other_config'' [Dive, Keys, Tag_max unbounded, Endkeys,
         Tag_max unbounded],
      field ''Status'' (Map G_string G_string) ''status'' [Dive, Keys, Tag_max unbounded, Endkeys,
         Tag_max unbounded],
      field ''Target'' (Plain G_string) ''target'' [Tag_max unbounded]]\<rparr>"

definition struct_Mirror :: row_struct where
  "struct_Mirror = \<lparr>StructName = ''Mirror'', StructTable = ''Mirror'',
     Aliases =
     [],
     Fields =
     [field ''UUID'' (Plain G_string) ''_uuid'' [],
      field ''ExternalIDs'' (Map G_string G_string) ''external_ids'' [Dive, Keys, Tag_max unbounded, Endkeys,
         Tag_max unbounded],
      field ''Name'' (Plain G_string) ''name'' [Tag_max unbounded],
      field ''OutputPort'' (Pointer G_string) ''output_port'' [],
      field ''OutputVLAN'' (Pointer G_int) ''output_vlan'' [Omitempty, Tag_min 1, Tag_max 4095],
      field ''SelectAll'' (Plain G_bool) ''select_all'' [],
      field ''SelectDstPort'' (Slice G_string) ''select_dst_port'' [],
      field ''SelectSrcPort'' (Slice G_string) ''select_src_port'' [],
      field ''SelectVLAN'' (Slice G_int) ''select_vlan'' [Tag_max 4096, Dive, Tag_min 0, Tag_max 4095],
      field ''Snaplen'' (Pointer G_int) ''snaplen'' [Omitempty, Tag_min 14, Tag_max 65535],
      field ''Statistics'' (Map G_string G_int) ''statistics'' [Dive, Keys, Tag_max unbounded, Endkeys,
         Tag_max unbounded]]\<rparr>"

definition struct_NetFlow :: row_struct where
  "struct_NetFlow = \<lparr>StructName = ''NetFlow'', StructTable = ''NetFlow'',
     Aliases =
     [],
     Fields =
     [field ''UUID'' (Plain G_string) ''_uuid'' [],
      field ''ActiveTimeout'' (Plain G_int) ''active_timeout'' [Tag_min (- 1), Tag_max unbounded],
      field ''AddIDToInterface'' (Plain G_bool) ''add_id_to_interface'' [],
      field ''EngineID'' (Pointer G_int) ''engine_id'' [Omitempty, Tag_min 0, Tag_max 255],
      field ''EngineType'' (Pointer G_int) ''engine_type'' [Omitempty, Tag_min 0, Tag_max 255],
      field ''ExternalIDs'' (Map G_string G_string) ''external_ids'' [Dive, Keys, Tag_max unbounded, Endkeys,
         Tag_max unbounded],
      field ''Targets'' (Slice G_string) ''targets'' [Tag_min 1, Dive, Tag_max unbounded]]\<rparr>"

definition struct_OpenvSwitch :: row_struct where
  "struct_OpenvSwitch = \<lparr>StructName = ''OpenvSwitch'', StructTable = ''Open_vSwitch'',
     Aliases =
     [],
     Fields =
     [field ''UUID'' (Plain G_string) ''_uuid'' [], field ''Bridges'' (Slice G_string) ''bridges'' [],
      field ''CurCfg'' (Plain G_int) ''cur_cfg'' [Tag_max unbounded],
      field ''DatapathTypes'' (Slice G_string) ''datapath_types'' [Dive, Tag_max unbounded],
      field ''Datapaths'' (Map G_string G_string) ''datapaths'' [Dive, Keys, Tag_max unbounded],
      field ''DbVersion'' (Pointer G_string) ''db_version'' [Omitempty, Tag_max unbounded],
      field ''DpdkInitialized'' (Plain G_bool) ''dpdk_initialized'' [],
      field ''DpdkVersion'' (Pointer G_string) ''dpdk_version'' [Omitempty, Tag_max unbounded],
      field ''ExternalIDs'' (Map G_string G_string) ''external_ids'' [Dive, Keys, Tag_max unbounded, Endkeys,
         Tag_max unbounded],
      field ''IfaceTypes'' (Slice G_string) ''iface_types'' [Dive, Tag_max unbounded],
      field ''ManagerOptions'' (Slice G_string) ''manager_options'' [],
      field ''NextCfg'' (Plain G_int) ''next_cfg'' [Tag_max unbounded],
      field ''OtherConfig'' (Map G_string G_string) ''other_config'' [Dive, Keys, Tag_max unbounded, Endkeys,
         Tag_max unbounded],
      field ''OVSVersion'' (Pointer G_string) ''ovs_version'' [Omitempty, Tag_max unbounded],
      field ''SSL'' (Pointer G_string) ''ssl'' [],
      field ''Statistics'' (Map G_string G_string) ''statistics'' [Dive, Keys, Tag_max unbounded, Endkeys,
         Tag_max unbounded],
      field ''SystemType'' (Pointer G_string) ''system_type'' [Omitempty, Tag_max unbounded],
      field ''SystemVersion'' (Pointer G_string) ''system_version'' [Omitempty, Tag_max unbounded]]\<rparr>"

definition struct_Port :: row_struct where
  "struct_Port = \<lparr>StructName = ''Port'', StructTable = ''Port'',
     Aliases =
     [(''PortBondMode'', [(''PortBondModeBalanceTCP'', ''balance-tcp''), (''PortBondModeBalanceSLB'',
        ''balance-slb''), (''PortBondModeActiveBackup'', ''active-backup'')]),
      (''PortLACP'', [(''PortLACPActive'', ''active''), (''PortLACPPassive'', ''passive''), (''PortLACPOff'',
         ''off'')]),
      (''PortVLANMode'', [(''PortVLANModeTrunk'', ''trunk''), (''PortVLANModeAccess'', ''access''),
         (''PortVLANModeNativeTagged'', ''native-tagged''), (''PortVLANModeNativeUntagged'',
         ''native-untagged''), (''PortVLANModeDot1qTunnel'', ''dot1q-tunnel'')])],
     Fields =
     [field ''UUID'' (Plain G_string) ''_uuid'' [],
      field ''BondActiveSlave'' (Pointer G_string) ''bond_active_slave'' [Omitempty, Tag_max unbounded],
      field ''BondDowndelay'' (Plain G_int) ''bond_downdelay'' [Tag_max unbounded],
      field ''BondFakeIface'' (Plain G_bool) ''bond_fake_iface'' [],
      field ''BondMode'' (Pointer (G_alias ''PortBondMode'')) ''bond_mode'' [Omitempty, Tag_max unbounded,
         Oneof [''balance-tcp'', ''balance-slb'', ''active-backup'']],
      field ''BondUpdelay'' (Plain G_int) ''bond_updelay'' [Tag_max unbounded],
      field ''CVLANs'' (Slice G_int) ''cvlans'' [Tag_max 4096, Dive, Tag_min 0, Tag_max 4095],
      field ''ExternalIDs'' (Map G_string G_string) ''external_ids'' [Dive, Keys, Tag_max unbounded, Endkeys,
         Tag_max unbounded],
      field ''FakeBridge'' (Plain G_bool) ''fake_bridge'' [],
      field ''Interfaces'' (Slice G_string) ''interfaces'' [Tag_min 1],
      field ''LACP'' (Pointer (G_alias ''PortLACP'')) ''lacp'' [Omitempty, Tag_max unbounded,
         Oneof [''active'', ''passive'', ''off'']],
      field ''MAC'' (Pointer G_string) ''mac'' [Omitempty, Tag_max unbounded],
      field ''Name'' (Plain G_string) ''name'' [Tag_max unbounded],
      field ''OtherConfig'' (Map G_string G_string) ''other_config'' [Dive, Keys, Tag_max unbounded, Endkeys,
         Tag_max unbounded],
      field ''Protected'' (Plain G_bool) ''protected'' [], field ''QOS'' (Pointer G_string) ''qos'' [],
      field ''RSTPStatistics'' (Map G_string G_int) ''rstp_statistics'' [Dive, Keys, Tag_max unbounded,
         Endkeys, Tag_max unbounded],
      field ''RSTPStatus'' (Map G_string G_string) ''rstp_status'' [Dive, Keys, Tag_max unbounded, Endkeys,
         Tag_max unbounded],
      field ''Statistics'' (Map G_string G_int) ''statistics'' [Dive, Keys, Tag_max unbounded, Endkeys,
         Tag_max unbounded],
      field ''Status'' (Map G_string G_string) ''status'' [Dive, Keys, Tag_max unbounded, Endkeys,
         Tag_max unbounded],
      field ''Tag'' (Pointer G_int) ''tag'' [Omitempty, Tag_min 0, Tag_max 4095],
      field ''Trunks'' (Slice G_int) ''trunks'' [Tag_max 4096, Dive, Tag_min 0, Tag_max 4095],
      field ''VLANMode'' (Pointer (G_alias ''PortVLANMode'')) ''vlan_mode'' [Omitempty, Tag_max unbounded,
         Oneof [''trunk'', ''access'', ''native-tagged'', ''native-untagged'', ''dot1q-tunnel'']]]\<rparr>"

definition struct_QoS :: row_struct where
  "struct_QoS = \<lparr>StructName = ''QoS'', StructTable = ''QoS'',
     Aliases =
     [],
     Fields =
     [field ''UUID'' (Plain G_string) ''_uuid'' [],
      field ''ExternalIDs'' (Map G_string G_string) ''external_ids'' [Dive, Keys, Tag_max unbounded, Endkeys,
         Tag_max unbounded],
      field ''OtherConfig'' (Map G_string G_string) ''other_config'' [Dive, Keys, Tag_max unbounded, Endkeys,
         Tag_max unbounded],
      field ''Queues'' (Map G_int G_string) ''queues'' [Dive, Keys, Tag_min 0, Tag_max 4294967295],
      field ''Type'' (Plain G_string) ''type'' [Tag_max unbounded]]\<rparr>"

definition struct_Queue :: row_struct where
  "struct_Queue = \<lparr>StructName = ''Queue'', StructTable = ''Queue'',
     Aliases =
     [],
     Fields =
     [field ''UUID'' (Plain G_string) ''_uuid'' [],
      field ''DSCP'' (Pointer G_int) ''dscp'' [Omitempty, Tag_min 0, Tag_max 63],
      field ''ExternalIDs'' (Map G_string G_string) ''external_ids'' [Dive, Keys, Tag_max unbounded, Endkeys,
         Tag_max unbounded],
      field ''OtherConfig'' (Map G_string G_string) ''other_config'' [Dive, Keys, Tag_max unbounded, Endkeys,
         Tag_max unbounded]]\<rparr>"

definition struct_SSL :: row_struct where
  "struct_SSL = \<lparr>StructName = ''SSL'', StructTable = ''SSL'',
     Aliases =
     [],
     Fields =
     [field ''UUID'' (Plain G_string) ''_uuid'' [],
      field ''BootstrapCaCert'' (Plain G_bool) ''bootstrap_ca_cert'' [],
      field ''CaCert'' (Plain G_string) ''ca_cert'' [Tag_max unbounded],
      field ''Certificate'' (Plain G_string) ''certificate'' [Tag_max unbounded],
      field ''ExternalIDs'' (Map G_string G_string) ''external_ids'' [Dive, Keys, Tag_max unbounded, Endkeys,
         Tag_max unbounded],
      field ''PrivateKey'' (Plain G_string) ''private_key'' [Tag_max unbounded]]\<rparr>"

definition struct_SFlow :: row_struct where
  "struct_SFlow = \<lparr>StructName = ''SFlow'', StructTable = ''sFlow'',
     Aliases =
     [],
     Fields =
     [field ''UUID'' (Plain G_string) ''_uuid'' [],
      field ''Agent'' (Pointer G_string) ''agent'' [Omitempty, Tag_max unbounded],
      field ''ExternalIDs'' (Map G_string G_string) ''external_ids'' [Dive, Keys, Tag_max unbounded, Endkeys,
         Tag_max unbounded],
      field ''Header'' (Pointer G_int) ''header'' [Omitempty, Tag_max unbounded],
      field ''Polling'' (Pointer G_int) ''polling'' [Omitempty, Tag_max unbounded],
      field ''Sampling'' (Pointer G_int) ''sampling'' [Omitempty, Tag_max unbounded],
      field ''Targets'' (Slice G_string) ''targets'' [Tag_min 1, Dive, Tag_max unbounded]]\<rparr>"

definition FullDatabaseModel :: "(string \<times> row_struct) list" where
  "FullDatabaseModel =
     [(''AutoAttach'', struct_AutoAttach), (''Bridge'', struct_Bridge),
      (''CT_Timeout_Policy'', struct_CTTimeoutPolicy), (''CT_Zone'', struct_CTZone),
      (''Controller'', struct_Controller), (''Datapath'', struct_Datapath),
      (''Flow_Sample_Collector_Set'', struct_FlowSampleCollectorSet), (''Flow_Table'', struct_FlowTable),
      (''IPFIX'', struct_IPFIX), (''Interface'', struct_Interface), (''Manager'', struct_Manager),
      (''Mirror'', struct_Mirror), (''NetFlow'', struct_NetFlow), (''Open_vSwitch'', struct_OpenvSwitch),
      (''Port'', struct_Port), (''QoS'', struct_QoS), (''Queue'', struct_Queue), (''SSL'', struct_SSL),
      (''sFlow'', struct_SFlow)]"

end
