(* ===== verification/Rows.thy ===== *)
theory Rows
  imports Prelude
begin

text \<open>
  The structs of \<^verbatim>\<open>internal/ovsdb/ovsmodel\<close> that the collectors are handed, with all their fields: a pointer
  is an option, a slice a list, a map an association list. How these structs relate to the tables of the
  database is the subject of \<open>Database\<close>.
\<close>

section \<open>Rows\<close>

record bridge_row =
  B_UUID :: string
  B_AutoAttach :: "string option"
  B_Controller :: "string list"
  B_DatapathID :: "string option"
  B_DatapathType :: string
  B_DatapathVersion :: string
  B_ExternalIDs :: "(string, string) gomap"
  B_FailMode :: "string option"
  B_FloodVLANs :: "int64 list"
  B_FlowTables :: "(int64, string) gomap"
  B_IPFIX :: "string option"
  B_McastSnoopingEnable :: bool
  B_Mirrors :: "string list"
  B_Name :: string
  B_Netflow :: "string option"
  B_OtherConfig :: "(string, string) gomap"
  B_Ports :: "string list"
  B_Protocols :: "string list"
  B_RSTPEnable :: bool
  B_RSTPStatus :: "(string, string) gomap"
  B_Sflow :: "string option"
  B_Status :: "(string, string) gomap"
  B_STPEnable :: bool

record port_row =
  P_UUID :: string
  P_BondActiveSlave :: "string option"
  P_BondDowndelay :: int64
  P_BondFakeIface :: bool
  P_BondMode :: "string option"
  P_BondUpdelay :: int64
  P_CVLANs :: "int64 list"
  P_ExternalIDs :: "(string, string) gomap"
  P_FakeBridge :: bool
  P_Interfaces :: "string list"
  P_LACP :: "string option"
  P_MAC :: "string option"
  P_Name :: string
  P_OtherConfig :: "(string, string) gomap"
  P_Protected :: bool
  P_QOS :: "string option"
  P_RSTPStatistics :: "(string, int64) gomap"
  P_RSTPStatus :: "(string, string) gomap"
  P_Statistics :: "(string, int64) gomap"
  P_Status :: "(string, string) gomap"
  P_Tag :: "int64 option"
  P_Trunks :: "int64 list"
  P_VLANMode :: "string option"

record interface_row =
  I_UUID :: string
  I_AdminState :: "string option"
  I_BFD :: "(string, string) gomap"
  I_BFDStatus :: "(string, string) gomap"
  I_CFMFault :: "bool option"
  I_CFMFaultStatus :: "string list"
  I_CFMFlapCount :: "int64 option"
  I_CFMHealth :: "int64 option"
  I_CFMMpid :: "int64 option"
  I_CFMRemoteMpids :: "int64 list"
  I_CFMRemoteOpstate :: "string option"
  I_Duplex :: "string option"
  I_Error :: "string option"
  I_ExternalIDs :: "(string, string) gomap"
  I_Ifindex :: "int64 option"
  I_IngressPolicingBurst :: int64
  I_IngressPolicingKpktsBurst :: int64
  I_IngressPolicingKpktsRate :: int64
  I_IngressPolicingRate :: int64
  I_LACPCurrent :: "bool option"
  I_LinkResets :: "int64 option"
  I_LinkSpeed :: "int64 option"
  I_LinkState :: "string option"
  I_LLDP :: "(string, string) gomap"
  I_MAC :: "string option"
  I_MACInUse :: "string option"
  I_MTU :: "int64 option"
  I_MTURequest :: "int64 option"
  I_Name :: string
  I_Ofport :: "int64 option"
  I_OfportRequest :: "int64 option"
  I_Options :: "(string, string) gomap"
  I_OtherConfig :: "(string, string) gomap"
  I_Statistics :: "(string, int64) gomap"
  I_Status :: "(string, string) gomap"
  I_Type :: string

record openvswitch_row =
  O_UUID :: string
  O_Bridges :: "string list"
  O_CurCfg :: int64
  O_DatapathTypes :: "string list"
  O_Datapaths :: "(string, string) gomap"
  O_DbVersion :: "string option"
  O_DpdkInitialized :: bool
  O_DpdkVersion :: "string option"
  O_ExternalIDs :: "(string, string) gomap"
  O_IfaceTypes :: "string list"
  O_ManagerOptions :: "string list"
  O_NextCfg :: int64
  O_OtherConfig :: "(string, string) gomap"
  O_OVSVersion :: "string option"
  O_SSL :: "string option"
  O_Statistics :: "(string, string) gomap"
  O_SystemType :: "string option"
  O_SystemVersion :: "string option"

section \<open>Zero values\<close>

definition zero_bridge :: bridge_row where
  "zero_bridge = \<lparr>
     B_UUID = [], B_AutoAttach = None, B_Controller = [], B_DatapathID = None, B_DatapathType = [],
     B_DatapathVersion = [], B_ExternalIDs = [], B_FailMode = None, B_FloodVLANs = [], B_FlowTables = [],
     B_IPFIX = None, B_McastSnoopingEnable = False, B_Mirrors = [], B_Name = [], B_Netflow = None,
     B_OtherConfig = [], B_Ports = [], B_Protocols = [], B_RSTPEnable = False, B_RSTPStatus = [],
     B_Sflow = None, B_Status = [], B_STPEnable = False\<rparr>"

definition zero_port :: port_row where
  "zero_port = \<lparr>
     P_UUID = [], P_BondActiveSlave = None, P_BondDowndelay = 0, P_BondFakeIface = False, P_BondMode = None,
     P_BondUpdelay = 0, P_CVLANs = [], P_ExternalIDs = [], P_FakeBridge = False, P_Interfaces = [],
     P_LACP = None, P_MAC = None, P_Name = [], P_OtherConfig = [], P_Protected = False, P_QOS = None,
     P_RSTPStatistics = [], P_RSTPStatus = [], P_Statistics = [], P_Status = [], P_Tag = None,
     P_Trunks = [], P_VLANMode = None\<rparr>"

definition zero_interface :: interface_row where
  "zero_interface = \<lparr>
     I_UUID = [], I_AdminState = None, I_BFD = [], I_BFDStatus = [], I_CFMFault = None,
     I_CFMFaultStatus = [], I_CFMFlapCount = None, I_CFMHealth = None, I_CFMMpid = None,
     I_CFMRemoteMpids = [], I_CFMRemoteOpstate = None, I_Duplex = None, I_Error = None, I_ExternalIDs = [],
     I_Ifindex = None, I_IngressPolicingBurst = 0, I_IngressPolicingKpktsBurst = 0,
     I_IngressPolicingKpktsRate = 0, I_IngressPolicingRate = 0, I_LACPCurrent = None, I_LinkResets = None,
     I_LinkSpeed = None, I_LinkState = None, I_LLDP = [], I_MAC = None, I_MACInUse = None, I_MTU = None,
     I_MTURequest = None, I_Name = [], I_Ofport = None, I_OfportRequest = None, I_Options = [],
     I_OtherConfig = [], I_Statistics = [], I_Status = [], I_Type = []\<rparr>"

definition zero_openvswitch :: openvswitch_row where
  "zero_openvswitch = \<lparr>
     O_UUID = [], O_Bridges = [], O_CurCfg = 0, O_DatapathTypes = [], O_Datapaths = [], O_DbVersion = None,
     O_DpdkInitialized = False, O_DpdkVersion = None, O_ExternalIDs = [], O_IfaceTypes = [],
     O_ManagerOptions = [], O_NextCfg = 0, O_OtherConfig = [], O_OVSVersion = None, O_SSL = None,
     O_Statistics = [], O_SystemType = None, O_SystemVersion = None\<rparr>"

end
