(* ===== verification/Ovsdb.thy ===== *)
theory Ovsdb
  imports GoStrings Rows
begin

text \<open>
  \<^verbatim>\<open>internal/ovsdb\<close>: connecting to the Open_vSwitch database and reading its cache. The library
  \<^verbatim>\<open>libovsdb\<close> and the tracer are outside the repository: a connected library client is a value
  of a type variable, and what its constructor, \<^verbatim>\<open>Connect\<close>, \<^verbatim>\<open>MonitorAll\<close>, \<^verbatim>\<open>Connected\<close> and
  \<^verbatim>\<open>Cache\<close> answer are arguments. The rows are the ones of \<open>Rows\<close>.
\<close>

section \<open>The cache\<close>

text \<open>A row as the library returns it: a value of type \<^verbatim>\<open>model.Model\<close>, the zero one is nil.\<close>

datatype model_row =
    Bridge_model bridge_row
  | Port_model port_row
  | Interface_model interface_row
  | OpenvSwitch_model openvswitch_row
  | Other_model

text \<open>
  A table enumerates its rows by UUID, in an order that is not specified: the order of the list is that of one
  range over them, and every property holds for any list.
\<close>

type_synonym table_rows = "(string, model_row option) gomap"
type_synonym table_cache = "string \<Rightarrow> table_rows option"

text \<open>\<^verbatim>\<open>OVSView\<close>: a pointer to a view, whose cache may be nil.\<close>

record ovs_view =
  Cache :: "table_cache option"

definition eachRow :: "ovs_view option \<Rightarrow> string \<Rightarrow> model_row list" where
  "eachRow v table =
     (case v of
        None \<Rightarrow> []
      | Some view \<Rightarrow>
          (case Cache view of
             None \<Rightarrow> []
           | Some c \<Rightarrow>
               (case c table of
                  None \<Rightarrow> []
                | Some rows \<Rightarrow> List.map_filter snd rows)))"

definition as_bridge :: "model_row \<Rightarrow> bridge_row option" where
  "as_bridge m = (case m of Bridge_model b \<Rightarrow> Some b | _ \<Rightarrow> None)"

definition as_port :: "model_row \<Rightarrow> port_row option" where
  "as_port m = (case m of Port_model p \<Rightarrow> Some p | _ \<Rightarrow> None)"

definition as_interface :: "model_row \<Rightarrow> interface_row option" where
  "as_interface m = (case m of Interface_model i \<Rightarrow> Some i | _ \<Rightarrow> None)"

definition as_openvswitch :: "model_row \<Rightarrow> openvswitch_row option" where
  "as_openvswitch m = (case m of OpenvSwitch_model s \<Rightarrow> Some s | _ \<Rightarrow> None)"

text \<open>The rows a callback is invoked with, in order.\<close>

definition view_bridges :: "ovs_view option \<Rightarrow> bridge_row list" where
  "view_bridges v = List.map_filter as_bridge (eachRow v ''Bridge'')"

definition view_ports :: "ovs_view option \<Rightarrow> port_row list" where
  "view_ports v = List.map_filter as_port (eachRow v ''Port'')"

definition view_interfaces :: "ovs_view option \<Rightarrow> interface_row list" where
  "view_interfaces v = List.map_filter as_interface (eachRow v ''Interface'')"

definition view_openvswitch :: "ovs_view option \<Rightarrow> openvswitch_row option" where
  "view_openvswitch v =
     foldl (\<lambda>out m. case as_openvswitch m of Some s \<Rightarrow> if out = None then Some s else out | None \<Rightarrow> out)
       None (eachRow v ''Open_vSwitch'')"

lemma eachRow_nil [simp]: "eachRow None t = []"
  by (simp add: eachRow_def)

lemma views_nil [simp]: "view_bridges None = []" "view_ports None = []" "view_interfaces None = []"
  "view_openvswitch None = None"
  by (simp_all add: view_bridges_def view_ports_def view_interfaces_def view_openvswitch_def
      List.map_filter_simps)

text \<open>\<^verbatim>\<open>OpenvSwitch\<close> returns the first row of the right type.\<close>

lemma view_openvswitch_first:
  "view_openvswitch v = (case List.map_filter as_openvswitch (eachRow v ''Open_vSwitch'') of
     [] \<Rightarrow> None | s # _ \<Rightarrow> Some s)"
proof -
  let ?f = "\<lambda>out m. case as_openvswitch m of Some s \<Rightarrow> if out = None then Some s else out | None \<Rightarrow> out"
  have set: "foldl ?f (Some s) ms = Some s" for s ms
    by (induction ms) (auto split: option.splits)
  have "foldl ?f None ms = (case List.map_filter as_openvswitch ms of [] \<Rightarrow> None | s # _ \<Rightarrow> Some s)" for ms
  proof (induction ms)
    case (Cons m ms)
    then show ?case
      by (cases "as_openvswitch m") (simp_all add: List.map_filter_simps set)
  qed (simp add: List.map_filter_simps)
  then show ?thesis
    by (simp add: view_openvswitch_def)
qed

section \<open>Connecting\<close>

record ovsdb_config =
  Endpoint :: string
  ReconnectTimeout :: int64
  DbLogger :: bool
  DbTracer :: bool

datatype ovsdb_error =
    Endpoint_required
  | Db_logger_required
  | Model_failed string
  | Construct_failed string
  | Connect_failed string string
  | Monitor_failed string

text \<open>Library calls, span events and log lines, in order.\<close>

datatype ovsdb_action =
    New_client string int64
  | Span_begin string "(string \<times> string) list"
  | Span_failed string
  | Span_finish
  | Inner_connect
  | Inner_monitor_all
  | Inner_close
  | Log_connected string

text \<open>What the outside world answers: an error text or nothing, the library client or an error.\<close>

record 'i ovsdb_world =
  ModelResult :: "string option"
  NewResult :: "string + 'i"
  ConnectResult :: "string option"
  MonitorResult :: "string option"

record 'i ovsdb_client =
  DbConfig :: ovsdb_config
  Inner :: "'i option"

definition startSpan :: "ovsdb_config \<Rightarrow> string \<Rightarrow> (string \<times> string) list \<Rightarrow> ovsdb_action list" where
  "startSpan cfg name attrs =
     (if DbTracer cfg then
        [Span_begin name ([(''db.system'', ''ovsdb''), (''db.name'', ''Open_vSwitch''),
                           (''ovsdb.endpoint'', Endpoint cfg)] @ attrs)]
      else [])"

text \<open>Without a tracer the span is the one of the context, which records nothing here.\<close>

definition endSpan :: "ovsdb_config \<Rightarrow> string option \<Rightarrow> ovsdb_action list" where
  "endSpan cfg err =
     (if DbTracer cfg then (case err of None \<Rightarrow> [] | Some e \<Rightarrow> [Span_failed e]) @ [Span_finish] else [])"

definition attrOp :: "string \<Rightarrow> string \<times> string" where
  "attrOp op = (''ovsdb.op'', op)"

definition ovsdb_monitor ::
    "'i ovsdb_world \<Rightarrow> ovsdb_config \<Rightarrow> 'i \<Rightarrow> ovsdb_action list \<times> (ovsdb_error + 'i ovsdb_client)" where
  "ovsdb_monitor w cfg inner =
     (let span = startSpan cfg ''ovsdb.monitor'' [attrOp ''monitor_all''] @ [Inner_monitor_all]
      in case MonitorResult w of
           Some e \<Rightarrow> (span @ endSpan cfg (Some e) @ [Inner_close], Inl (Monitor_failed e))
         | None \<Rightarrow> (span @ endSpan cfg None @ [Log_connected (Endpoint cfg)],
                     Inr \<lparr>DbConfig = cfg, Inner = Some inner\<rparr>))"

definition ovsdb_dial ::
    "'i ovsdb_world \<Rightarrow> ovsdb_config \<Rightarrow> 'i \<Rightarrow> ovsdb_action list \<times> (ovsdb_error + 'i ovsdb_client)" where
  "ovsdb_dial w cfg inner =
     (let span = startSpan cfg ''ovsdb.connect'' [attrOp ''connect''] @ [Inner_connect]
      in case ConnectResult w of
           Some e \<Rightarrow> (span @ endSpan cfg (Some e), Inl (Connect_failed (Endpoint cfg) e))
         | None \<Rightarrow>
             (case ovsdb_monitor w cfg inner of
                (acts, res) \<Rightarrow> (span @ endSpan cfg None @ acts, res)))"

definition ovsdb_connect ::
    "'i ovsdb_world \<Rightarrow> ovsdb_config \<Rightarrow> ovsdb_action list \<times> (ovsdb_error + 'i ovsdb_client)" where
  "ovsdb_connect w cfg0 =
     (if Endpoint cfg0 = [] then ([], Inl Endpoint_required)
      else if \<not> DbLogger cfg0 then ([], Inl Db_logger_required)
      else
        (let cfg = (if ReconnectTimeout cfg0 = 0 then cfg0\<lparr>ReconnectTimeout := 2 * 1000000000\<rparr> else cfg0)
         in case ModelResult w of
              Some e \<Rightarrow> ([], Inl (Model_failed e))
            | None \<Rightarrow>
                (case NewResult w of
                   Inl e \<Rightarrow> ([New_client (Endpoint cfg) (ReconnectTimeout cfg)], Inl (Construct_failed e))
                 | Inr inner \<Rightarrow>
                     (case ovsdb_dial w cfg inner of
                        (acts, res) \<Rightarrow>
                          (New_client (Endpoint cfg) (ReconnectTimeout cfg) # acts, res)))))"

section \<open>The client\<close>

definition ovsdb_close :: "'i ovsdb_client \<Rightarrow> ovsdb_action list" where
  "ovsdb_close c = (case Inner c of None \<Rightarrow> [] | Some _ \<Rightarrow> [Inner_close])"

definition ovsdb_connected :: "('i \<Rightarrow> bool) \<Rightarrow> 'i ovsdb_client \<Rightarrow> bool" where
  "ovsdb_connected connected c = (case Inner c of None \<Rightarrow> False | Some i \<Rightarrow> connected i)"

datatype health_error = Not_initialised | Not_connected

text \<open>The receiver may be nil.\<close>

definition ovsdb_healthy :: "('i \<Rightarrow> bool) \<Rightarrow> 'i ovsdb_client option \<Rightarrow> health_error option" where
  "ovsdb_healthy connected c =
     (case c of
        None \<Rightarrow> Some Not_initialised
      | Some cl \<Rightarrow>
          (case Inner cl of
             None \<Rightarrow> Some Not_initialised
           | Some i \<Rightarrow> if connected i then None else Some Not_connected))"

definition ovsdb_view :: "('i \<Rightarrow> table_cache option) \<Rightarrow> 'i ovsdb_client \<Rightarrow> ovs_view option" where
  "ovsdb_view cache_of c =
     (case Inner c of None \<Rightarrow> None | Some i \<Rightarrow> Some \<lparr>Cache = cache_of i\<rparr>)"

section \<open>What Connect does\<close>

definition ovsdb_ready :: "ovsdb_config \<Rightarrow> 'i ovsdb_world \<Rightarrow> bool" where
  "ovsdb_ready cfg w \<longleftrightarrow> Endpoint cfg \<noteq> [] \<and> DbLogger cfg \<and> ModelResult w = None
     \<and> \<not> isl (NewResult w) \<and> ConnectResult w = None \<and> MonitorResult w = None"

text \<open>The number of spans still open after a sequence of actions; \<^const>\<open>None\<close> if one ends twice.\<close>

fun open_spans :: "ovsdb_action list \<Rightarrow> nat \<Rightarrow> nat option" where
  "open_spans [] n = Some n"
| "open_spans (Span_begin _ _ # as) n = open_spans as (Suc n)"
| "open_spans (Span_finish # as) n = (case n of 0 \<Rightarrow> None | Suc m \<Rightarrow> open_spans as m)"
| "open_spans (_ # as) n = open_spans as n"

lemmas ovsdb_defs = ovsdb_connect_def ovsdb_dial_def ovsdb_monitor_def startSpan_def endSpan_def Let_def

lemma ovsdb_connect_inner: "ovsdb_connect w cfg = (acts, Inr c) \<Longrightarrow> \<exists>i. Inner c = Some i \<and> NewResult w = Inr i"
  by (auto simp: ovsdb_defs split: if_splits option.splits sum.splits)

section \<open>Properties\<close>

text \<open>Property C36. Connecting succeeds exactly when the configuration is complete and every step
  of the library succeeds; the client then owns the library client. A failed \<open>MonitorAll\<close>
  closes the library client, once; a success never does; every span begun is ended.\<close>

theorem ovsdb_connect_outcome:
  "case ovsdb_connect w cfg of (acts, res) \<Rightarrow>
     isl res = (\<not> ovsdb_ready cfg w)
     \<and> (case res of Inl e \<Rightarrow> True | Inr c \<Rightarrow> Inner c = Some (projr (NewResult w)))
     \<and> count_list acts Inner_close = (case res of Inl (Monitor_failed e) \<Rightarrow> 1 | _ \<Rightarrow> 0)
     \<and> open_spans acts 0 = Some 0"
  by (auto simp: ovsdb_defs ovsdb_ready_def split: if_splits option.splits sum.splits)

text \<open>A client is healthy exactly when it exists, owns a library client and that one
  is connected.\<close>

lemma ovsdb_healthy_iff:
  "ovsdb_healthy connected c = None \<longleftrightarrow> (\<exists>cl. c = Some cl \<and> ovsdb_connected connected cl)"
  by (auto simp: ovsdb_healthy_def ovsdb_connected_def split: option.splits)

end
