(* ===== verification/Datasource.thy ===== *)
theory Datasource
  imports Refresh Ovsdb
begin

text \<open>
  \<^verbatim>\<open>internal/datasource/datasource.go\<close> and the read interface of \<^verbatim>\<open>collector/collector.go\<close>: what
  the collectors see of the two transports. An interface value holding a nil pointer is not the
  nil interface, so the result of \<^verbatim>\<open>OVS()\<close> keeps the two apart.
\<close>

record 'i data_source =
  SrcOvs :: "'i ovsdb_client option"
  SrcScrape :: "(refresh_error, ovs_snapshot) scraper option"

definition NewDataSource ::
    "'i ovsdb_client option \<Rightarrow> (refresh_error, ovs_snapshot) scraper option \<Rightarrow> 'i data_source" where
  "NewDataSource ovs scrape = \<lparr>SrcOvs = ovs, SrcScrape = scrape\<rparr>"

text \<open>A value of the interface type \<^verbatim>\<open>collector.OVSView\<close>.\<close>

datatype view_iface = Nil_iface | View_iface "ovs_view option"

definition ds_OVS :: "('i \<Rightarrow> table_cache option) \<Rightarrow> 'i data_source \<Rightarrow> view_iface" where
  "ds_OVS cache_of d =
     (case SrcOvs d of None \<Rightarrow> Nil_iface | Some c \<Rightarrow> View_iface (ovsdb_view cache_of c))"

definition ds_UnixCtlOVS :: "'i data_source \<Rightarrow> ovs_snapshot option" where
  "ds_UnixCtlOVS d = (case SrcScrape d of None \<Rightarrow> None | Some s \<Rightarrow> scraper_snapshot s)"

text \<open>
  What a collector can read through the interface \<^verbatim>\<open>DataSource\<close> at one moment; \<^const>\<open>None\<close>
  stands for a nil data source where a dependency check is given one.
\<close>

record source =
  OVS :: view_iface
  UnixCtlOVS :: "ovs_snapshot option"

definition source_of :: "('i \<Rightarrow> table_cache option) \<Rightarrow> 'i data_source \<Rightarrow> source" where
  "source_of cache_of d = \<lparr>OVS = ds_OVS cache_of d, UnixCtlOVS = ds_UnixCtlOVS d\<rparr>"

section \<open>Dependency checks\<close>

type_synonym dep_check = "source option \<Rightarrow> bool"

definition OVSViewAvailable :: dep_check where
  "OVSViewAvailable s = (case s of None \<Rightarrow> False | Some src \<Rightarrow> OVS src \<noteq> Nil_iface)"

definition UnixctlHas :: "(ovs_snapshot \<Rightarrow> bool) \<Rightarrow> dep_check" where
  "UnixctlHas present s =
     (case s of
        None \<Rightarrow> False
      | Some src \<Rightarrow> (case UnixCtlOVS src of None \<Rightarrow> False | Some snap \<Rightarrow> present snap))"

lemma OVSViewAvailable_iff: "OVSViewAvailable (Some src) \<longleftrightarrow> (\<exists>v. OVS src = View_iface v)"
  by (cases "OVS src") (simp_all add: OVSViewAvailable_def)

text \<open>A client that \<^verbatim>\<open>Connect\<close> returned always has a view.\<close>

lemma connected_client_view:
  assumes "ovsdb_connect w cfg = (acts, Inr c)"
  shows "\<exists>i. ds_OVS cache_of (NewDataSource (Some c) s) = View_iface (Some \<lparr>Cache = cache_of i\<rparr>)"
  using ovsdb_connect_inner [OF assms]
  by (auto simp: ds_OVS_def NewDataSource_def ovsdb_view_def)

section \<open>Properties\<close>

text \<open>The database is reported available exactly when Connect succeeded at startup,
  and then the collectors read the cache of that very client; after a failed Connect (a nil
  client) it is never reported available.\<close>

lemma database_available_iff_connected:
  assumes "ovsdb_connect w cfg = (acts, res)"
  shows "OVSViewAvailable (Some (source_of cache_of
      (NewDataSource (case res of Inl e \<Rightarrow> None | Inr c \<Rightarrow> Some c) scrape))) = ovsdb_ready cfg w
    \<and> OVS (source_of cache_of (NewDataSource (case res of Inl e \<Rightarrow> None | Inr c \<Rightarrow> Some c) scrape))
      = (if ovsdb_ready cfg w then View_iface (Some \<lparr>Cache = cache_of (projr (NewResult w))\<rparr>) else Nil_iface)"
proof -
  have "isl res = (\<not> ovsdb_ready cfg w)"
    using assms by (auto simp: ovsdb_defs ovsdb_ready_def split: if_splits option.splits sum.splits)
  moreover have "\<exists>i. Inner c = Some i \<and> NewResult w = Inr i" if "res = Inr c" for c
    using assms that ovsdb_connect_inner by blast
  ultimately show ?thesis
    by (cases res) (auto simp: source_of_def ds_OVS_def NewDataSource_def ovsdb_view_def OVSViewAvailable_def)
qed

theorem database_available_iff_connected_witness:
  "OVSViewAvailable (Some (source_of (\<lambda>i. None) (NewDataSource
      (Some \<lparr>DbConfig = \<lparr>Endpoint = ''unix:db'', ReconnectTimeout = 1, DbLogger = True, DbTracer = False\<rparr>,
         Inner = Some (7::nat)\<rparr>) None)))"
proof -
  let ?cfg = "\<lparr>Endpoint = ''unix:db'', ReconnectTimeout = 1, DbLogger = True, DbTracer = False\<rparr>"
  let ?w = "\<lparr>ModelResult = None, NewResult = Inr 7, ConnectResult = None, MonitorResult = None\<rparr> :: nat ovsdb_world"
  have c: "ovsdb_connect ?w ?cfg = ([New_client ''unix:db'' 1, Inner_connect, Inner_monitor_all,
      Log_connected ''unix:db''], Inr \<lparr>DbConfig = ?cfg, Inner = Some 7\<rparr>)"
    by (simp add: ovsdb_defs)
  have "ovsdb_ready ?cfg ?w"
    by (simp add: ovsdb_ready_def)
  with database_available_iff_connected [OF c, of "\<lambda>i. None" None] show ?thesis by simp
qed

end
