(* ===== verification/Collectors.thy ===== *)
theory Collectors
  imports Datasource
begin

text \<open>
  The ten collectors of \<^verbatim>\<open>collector/\<close>: the instruments each \<^verbatim>\<open>Register\<close> creates, in order, and
  what each \<^verbatim>\<open>observe\<close> callback reports. An observation names its instrument, its value and the
  attributes in the order the code lists them. A callback that ranges over a map takes the order of
  its loops as an argument, \<open>ord\<close> (\<open>go_range\<close>): Go chooses another one in every collection.
\<close>

record observation =
  ObsInst :: string
  ObsValue :: int64
  ObsAttrs :: "(string \<times> string) list"

datatype inst_kind = Counter | Gauge

record instrument =
  InstName :: string
  InstKind :: inst_kind
  InstDescription :: string
  InstUnit :: string

abbreviation gauge :: "string \<Rightarrow> string \<Rightarrow> string \<Rightarrow> instrument" where
  "gauge n d u \<equiv> \<lparr>InstName = n, InstKind = Gauge, InstDescription = d, InstUnit = u\<rparr>"

abbreviation counter :: "string \<Rightarrow> string \<Rightarrow> string \<Rightarrow> instrument" where
  "counter n d u \<equiv> \<lparr>InstName = n, InstKind = Counter, InstDescription = d, InstUnit = u\<rparr>"

abbreviation observe :: "string \<Rightarrow> int64 \<Rightarrow> (string \<times> string) list \<Rightarrow> observation" where
  "observe n v as \<equiv> \<lparr>ObsInst = n, ObsValue = v, ObsAttrs = as\<rparr>"

section \<open>Bridges and ports\<close>

definition bridges_instruments :: "instrument list" where
  "bridges_instruments =
     [gauge ''ovs.bridges.count''
        ''Number of OVS bridges configured on this host.'' ''{bridge}'',
      gauge ''ovs.bridge.ports.count''
        ''Number of ports attached to an OVS bridge.'' ''{port}'']"

definition bridges_row :: "int64 \<times> observation list \<Rightarrow> bridge_row \<Rightarrow> int64 \<times> observation list" where
  "bridges_row st b =
     (fst st + 1,
      snd st @ [observe ''ovs.bridge.ports.count'' (of_nat (length (B_Ports b))) [(''bridge'', B_Name b)]])"

definition bridges_observe :: "source \<Rightarrow> observation list" where
  "bridges_observe src =
     (case OVS src of
        Nil_iface \<Rightarrow> []
      | View_iface view \<Rightarrow>
          let (total, obs) = foldl bridges_row (0, []) (view_bridges view)
          in obs @ [observe ''ovs.bridges.count'' total []])"

definition ports_instruments :: "instrument list" where
  "ports_instruments =
     [gauge ''ovs.ports.count''
        ''Total number of OVS ports across all bridges on this host.'' ''{port}'']"

definition ports_observe :: "source \<Rightarrow> observation list" where
  "ports_observe src =
     (case OVS src of
        Nil_iface \<Rightarrow> []
      | View_iface view \<Rightarrow>
          [observe ''ovs.ports.count'' (foldl (\<lambda>total p. total + 1) 0 (view_ports view)) []])"

section \<open>Interfaces\<close>

text \<open>
  The walk from bridges over ports to interfaces that three collectors make. The code reads the
  tables of the live cache one after the other, first the ports, then the interfaces, last the
  bridges; the three views are the cache at these three moments. The collectors below are stated
  for a cache that does not change meanwhile.
\<close>

definition ports_by_uuid :: "ovs_view option \<Rightarrow> (string, port_row) gomap" where
  "ports_by_uuid view = foldl (\<lambda>m p. map_put (P_UUID p) p m) [] (view_ports view)"

definition interfaces_by_uuid :: "ovs_view option \<Rightarrow> (string, interface_row) gomap" where
  "interfaces_by_uuid view = foldl (\<lambda>m i. map_put (I_UUID i) i m) [] (view_interfaces view)"

definition interface_walk ::
    "(string \<Rightarrow> interface_row \<Rightarrow> observation list)
      \<Rightarrow> ovs_view option \<Rightarrow> ovs_view option \<Rightarrow> ovs_view option \<Rightarrow> observation list" where
  "interface_walk emit view1 view2 view3 =
     (let ports = ports_by_uuid view1; interfaces = interfaces_by_uuid view2
      in concat (map (\<lambda>b.
           concat (map (\<lambda>portUUID.
             case map_get ports portUUID of
               None \<Rightarrow> []
             | Some p \<Rightarrow>
                 concat (map (\<lambda>ifUUID.
                   case map_get interfaces ifUUID of
                     None \<Rightarrow> []
                   | Some iface \<Rightarrow> emit (B_Name b) iface) (P_Interfaces p))) (B_Ports b)))
         (view_bridges view3)))"

definition interfaces_instruments :: "instrument list" where
  "interfaces_instruments =
     [counter ''ovs.interface.rx.bytes''
        ''Bytes received on an OVS interface.'' ''By'',
      counter ''ovs.interface.rx.packets''
        ''Packets received on an OVS interface.'' ''{packet}'',
      counter ''ovs.interface.tx.bytes''
        ''Bytes transmitted on an OVS interface.'' ''By'',
      counter ''ovs.interface.tx.packets''
        ''Packets transmitted on an OVS interface.'' ''{packet}'',
      counter ''ovs.interface.errors''
        ''Errors observed on an OVS interface, partitioned by direction.'' ''{error}'',
      counter ''ovs.interface.drops''
        ''Packets dropped on an OVS interface, partitioned by direction.'' ''{packet}'',
      counter ''ovs.interface.collisions''
        ''Collisions observed on an OVS interface.'' ''{collision}'']"

definition stat_of :: "(string, int64) gomap \<Rightarrow> string \<Rightarrow> int64" where
  "stat_of stats k = (case map_get stats k of None \<Rightarrow> 0 | Some n \<Rightarrow> n)"

definition interfaces_emit :: "string \<Rightarrow> interface_row \<Rightarrow> observation list" where
  "interfaces_emit bridge iface =
     (let stats = I_Statistics iface;
          base = [(''bridge'', bridge), (''interface'', I_Name iface)];
          rx = base @ [(''direction'', ''rx'')];
          tx = base @ [(''direction'', ''tx'')]
      in [observe ''ovs.interface.rx.bytes'' (stat_of stats ''rx_bytes'') base,
          observe ''ovs.interface.rx.packets'' (stat_of stats ''rx_packets'') base,
          observe ''ovs.interface.tx.bytes'' (stat_of stats ''tx_bytes'') base,
          observe ''ovs.interface.tx.packets'' (stat_of stats ''tx_packets'') base,
          observe ''ovs.interface.collisions'' (stat_of stats ''collisions'') base,
          observe ''ovs.interface.errors'' (stat_of stats ''rx_errors'') rx,
          observe ''ovs.interface.errors'' (stat_of stats ''tx_errors'') tx,
          observe ''ovs.interface.drops'' (stat_of stats ''rx_dropped'') rx,
          observe ''ovs.interface.drops'' (stat_of stats ''tx_dropped'') tx])"

definition interfaces_observe :: "source \<Rightarrow> observation list" where
  "interfaces_observe src =
     (case OVS src of Nil_iface \<Rightarrow> [] | View_iface view \<Rightarrow> interface_walk interfaces_emit view view view)"

definition interface_status_instruments :: "instrument list" where
  "interface_status_instruments =
     [gauge ''ovs.interface.status''
        ''k/v pairs from Interface.status (driver-reported runtime fields). HIGH CARDINALITY: value is a label.'' [],
      gauge ''ovs.interface.options''
        ''k/v pairs from Interface.options (tunnel parameters, port-specific config). HIGH CARDINALITY: value is a label.'' [],
      gauge ''ovs.interface.external_ids''
        ''k/v pairs from Interface.external_ids (orchestrator-applied annotations). HIGH CARDINALITY: value is a label.'' []]"

definition emitMap :: "range_order \<Rightarrow> string \<Rightarrow> string \<Rightarrow> string \<Rightarrow> (string, string) gomap \<Rightarrow> observation list" where
  "emitMap ord inst bridge iface entries =
     map (\<lambda>e. observe inst 1
       [(''bridge'', bridge), (''interface'', iface), (''key'', fst e), (''value'', snd e)])
       (go_range ord [inst, bridge, iface] entries)"

definition interface_status_emit :: "range_order \<Rightarrow> string \<Rightarrow> interface_row \<Rightarrow> observation list" where
  "interface_status_emit ord bridge iface =
     emitMap ord ''ovs.interface.status'' bridge (I_Name iface) (I_Status iface)
     @ emitMap ord ''ovs.interface.options'' bridge (I_Name iface) (I_Options iface)
     @ emitMap ord ''ovs.interface.external_ids'' bridge (I_Name iface) (I_ExternalIDs iface)"

definition interface_status_observe :: "range_order \<Rightarrow> source \<Rightarrow> observation list" where
  "interface_status_observe ord src =
     (case OVS src of Nil_iface \<Rightarrow> [] | View_iface view \<Rightarrow> interface_walk (interface_status_emit ord) view view view)"

definition interface_info_instruments :: "instrument list" where
  "interface_info_instruments =
     [gauge ''ovs.interface.admin_state''
        ''OVS interface administrative state (1=up, 0=down).'' [],
      gauge ''ovs.interface.link_state''
        ''OVS interface link state (1=up, 0=down).'' [],
      gauge ''ovs.interface.mtu''
        ''OVS interface MTU.'' ''By'',
      gauge ''ovs.interface.link_speed''
        ''OVS interface negotiated link speed.'' ''bit/s'',
      gauge ''ovs.interface.if_index''
        ''OVS interface kernel ifindex.'' [],
      gauge ''ovs.interface.of_port''
        ''OVS interface OpenFlow port number.'' [],
      gauge ''ovs.interface.ingress_policing.rate''
        ''OVS interface ingress policing rate.'' ''kbit/s'',
      gauge ''ovs.interface.ingress_policing.burst''
        ''OVS interface ingress policing burst size.'' ''kbit'',
      gauge ''ovs.interface.ingress_policing.kpkts_rate''
        ''OVS interface ingress policing packet rate.'' ''{kpacket}/s'',
      gauge ''ovs.interface.ingress_policing.kpkts_burst''
        ''OVS interface ingress policing packet burst.'' ''{kpacket}'',
      gauge ''ovs.interface.info''
        ''OVS interface metadata gauge (always 1); carries string attributes type, mac, duplex.'' []]"

definition up_value :: "string \<Rightarrow> int64" where
  "up_value s = (if s = ''up'' then 1 else 0)"

definition opt_obs :: "string \<Rightarrow> int64 option \<Rightarrow> (string \<times> string) list \<Rightarrow> observation list" where
  "opt_obs inst v as = (case v of None \<Rightarrow> [] | Some n \<Rightarrow> [observe inst n as])"

definition interface_info_emit :: "string \<Rightarrow> interface_row \<Rightarrow> observation list" where
  "interface_info_emit bridge iface =
     (let base = [(''bridge'', bridge), (''interface'', I_Name iface)]
      in opt_obs ''ovs.interface.admin_state'' (map_option up_value (I_AdminState iface)) base
         @ opt_obs ''ovs.interface.link_state'' (map_option up_value (I_LinkState iface)) base
         @ opt_obs ''ovs.interface.mtu'' (I_MTU iface) base
         @ opt_obs ''ovs.interface.link_speed'' (I_LinkSpeed iface) base
         @ opt_obs ''ovs.interface.if_index'' (I_Ifindex iface) base
         @ opt_obs ''ovs.interface.of_port'' (I_Ofport iface) base
         @ [observe ''ovs.interface.ingress_policing.rate'' (I_IngressPolicingRate iface) base,
            observe ''ovs.interface.ingress_policing.burst'' (I_IngressPolicingBurst iface) base,
            observe ''ovs.interface.ingress_policing.kpkts_rate'' (I_IngressPolicingKpktsRate iface) base,
            observe ''ovs.interface.ingress_policing.kpkts_burst'' (I_IngressPolicingKpktsBurst iface) base,
            observe ''ovs.interface.info'' 1
              (base @ [(''type'', I_Type iface)]
               @ (case I_MAC iface of None \<Rightarrow> [] | Some m \<Rightarrow> [(''mac'', m)])
               @ (case I_Duplex iface of None \<Rightarrow> [] | Some d \<Rightarrow> [(''duplex'', d)]))])"

definition interface_info_observe :: "source \<Rightarrow> observation list" where
  "interface_info_observe src =
     (case OVS src of Nil_iface \<Rightarrow> [] | View_iface view \<Rightarrow> interface_walk interface_info_emit view view view)"

section \<open>Collectors of the appctl snapshot\<close>

definition memory_instruments :: "instrument list" where
  "memory_instruments =
     [gauge ''ovs.memory.usage''
        ''OVS in-memory resource usage, partitioned by resource name (handlers, ofconns, ports, rules, revalidators, ...).'' ''{resource}'']"

definition memory_observe :: "range_order \<Rightarrow> source \<Rightarrow> observation list" where
  "memory_observe ord src =
     (case UnixCtlOVS src of
        None \<Rightarrow> []
      | Some snap \<Rightarrow>
          (case SnapMemory snap of
             None \<Rightarrow> []
           | Some mem \<Rightarrow> map (\<lambda>e. observe ''ovs.memory.usage'' (snd e) [(''resource'', fst e)])
               (go_range ord [''memory''] (Usage mem))))"

definition coverage_instruments :: "instrument list" where
  "coverage_instruments =
     [counter ''ovs.coverage.events''
        ''Cumulative count of OVS coverage events, partitioned by event name.'' ''{event}'']"

definition coverage_observe :: "range_order \<Rightarrow> source \<Rightarrow> observation list" where
  "coverage_observe ord src =
     (case UnixCtlOVS src of
        None \<Rightarrow> []
      | Some snap \<Rightarrow>
          (case SnapCoverage snap of
             None \<Rightarrow> []
           | Some cov \<Rightarrow> map (\<lambda>e. observe ''ovs.coverage.events'' (snd e) [(''event'', fst e)])
               (go_range ord [''coverage''] (Events cov))))"

definition upcall_instruments :: "instrument list" where
  "upcall_instruments =
     [gauge ''ovs.upcall.flows.current''
        ''Current number of datapath flows tracked by the upcall handler.'' ''{flow}'',
      gauge ''ovs.upcall.flows.max''
        ''Maximum datapath flow count observed by the upcall handler since startup.'' ''{flow}'',
      gauge ''ovs.upcall.flows.limit''
        ''Datapath flow installation limit enforced by the upcall handler.'' ''{flow}'',
      gauge ''ovs.upcall.dump.duration''
        ''Most recent revalidator dump duration.'' ''ms'',
      gauge ''ovs.upcall.handler.keys''
        ''Datapath keys currently held by an upcall handler thread.'' ''{key}'']"

definition upcall_emit :: "range_order \<Rightarrow> string \<times> upcall_datapath \<Rightarrow> observation list" where
  "upcall_emit ord e =
     (let name = fst e; d = snd e; dpAttr = [(''datapath'', name)]
      in [observe ''ovs.upcall.flows.current'' (FlowsCurrent d) dpAttr,
          observe ''ovs.upcall.flows.max'' (FlowsMax d) dpAttr,
          observe ''ovs.upcall.flows.limit'' (FlowsLimit d) dpAttr,
          observe ''ovs.upcall.dump.duration'' (DumpDurationMs d) dpAttr]
         @ map (\<lambda>h. observe ''ovs.upcall.handler.keys'' (snd h)
             [(''datapath'', name), (''handler'', format_int (fst h))])
             (go_range ord [''upcall'', name] (HandlerKeys d)))"

definition upcall_observe :: "range_order \<Rightarrow> source \<Rightarrow> observation list" where
  "upcall_observe ord src =
     (case UnixCtlOVS src of
        None \<Rightarrow> []
      | Some snap \<Rightarrow>
          (case SnapUpcall snap of
             None \<Rightarrow> []
           | Some u \<Rightarrow> concat (map (upcall_emit ord) (go_range ord [''upcall''] (Upcall_Datapaths u)))))"

definition datapath_instruments :: "instrument list" where
  "datapath_instruments =
     [counter ''ovs.datapath.lookups''
        ''Cumulative datapath flow lookups, partitioned by outcome (hit, missed, lost).'' ''{lookup}'',
      gauge ''ovs.datapath.flows''
        ''Current number of flows installed in the datapath.'' ''{flow}'',
      counter ''ovs.datapath.masks.hit''
        ''Cumulative datapath mask-cache hits.'' ''{hit}'',
      counter ''ovs.datapath.cache.hit''
        ''Cumulative datapath megaflow-cache hits (the cache that sits in front of the exact-match cache).'' ''{hit}'']"

definition datapath_lookups_emit :: "string \<times> dpif_datapath \<Rightarrow> observation list" where
  "datapath_lookups_emit e =
     (let name = fst e; l = DP_Lookups (snd e)
      in [observe ''ovs.datapath.lookups'' (Hit l) [(''datapath'', name), (''result'', ''hit'')],
          observe ''ovs.datapath.lookups'' (Missed l) [(''datapath'', name), (''result'', ''missed'')],
          observe ''ovs.datapath.lookups'' (Lost l) [(''datapath'', name), (''result'', ''lost'')]])"

definition datapath_flows_emit :: "string \<times> dpctl_datapath \<Rightarrow> observation list" where
  "datapath_flows_emit e =
     (let d = snd e; dpAttr = [(''datapath'', fst e)]
      in [observe ''ovs.datapath.flows'' (DC_Flows d) dpAttr,
          observe ''ovs.datapath.masks.hit'' (DC_MasksHit d) dpAttr,
          observe ''ovs.datapath.cache.hit'' (DC_CacheHit d) dpAttr])"

definition datapath_observe :: "range_order \<Rightarrow> source \<Rightarrow> observation list" where
  "datapath_observe ord src =
     (case UnixCtlOVS src of
        None \<Rightarrow> []
      | Some snap \<Rightarrow>
          (case SnapDPIF snap of
             None \<Rightarrow> []
           | Some d \<Rightarrow> concat (map datapath_lookups_emit (go_range ord [''datapath'', ''dpif''] (DPIF_Datapaths d))))
          @ (case SnapDPCTL snap of
               None \<Rightarrow> []
             | Some d \<Rightarrow> concat (map datapath_flows_emit (go_range ord [''datapath'', ''dpctl''] (DPCTL_Datapaths d)))))"

definition datapath_interfaces_instruments :: "instrument list" where
  "datapath_interfaces_instruments =
     [gauge ''ovs.datapath.interface.info''
        ''Datapath port topology gauge (always 1); carries datapath, bridge, port name, kernel port number, OF port number, and port type as attributes.'' []]"

definition port_emit :: "string \<Rightarrow> string \<Rightarrow> dpif_port \<Rightarrow> observation" where
  "port_emit dpName brName port =
     observe ''ovs.datapath.interface.info'' 1
       [(''datapath'', dpName), (''bridge'', brName), (''port'', Port_Name port),
        (''port_no'', format_int (PortNo port)), (''of_port'', OFPortNo port), (''type'', Port_Type port)]"

definition datapath_interfaces_observe :: "range_order \<Rightarrow> source \<Rightarrow> observation list" where
  "datapath_interfaces_observe ord src =
     (case UnixCtlOVS src of
        None \<Rightarrow> []
      | Some snap \<Rightarrow>
          (case SnapDPIF snap of
             None \<Rightarrow> []
           | Some d \<Rightarrow>
               concat (map (\<lambda>dp.
                 concat (map (\<lambda>br. map (port_emit (fst dp) (fst br)) (Bridge_Ports (snd br)))
                   (go_range ord [''datapath-interfaces'', fst dp] (DP_Bridges (snd dp)))))
                 (go_range ord [''datapath-interfaces''] (DPIF_Datapaths d)))))"

section \<open>The registry of collectors\<close>

text \<open>One constructor per collector file; name, default and dependency as each \<^verbatim>\<open>init\<close> states them.\<close>

datatype collector_kind =
    Bridges | Ports | Interfaces | Interface_status | Interface_info
  | Memory_usage | Coverage_events | Upcalls | Datapath | Datapath_interfaces

definition all_kinds :: "collector_kind list" where
  "all_kinds = [Bridges, Coverage_events, Datapath, Datapath_interfaces, Interfaces, Interface_info,
     Interface_status, Memory_usage, Ports, Upcalls]"

primrec kind_name :: "collector_kind \<Rightarrow> string" where
  "kind_name Bridges = ''bridges''"
| "kind_name Ports = ''ports''"
| "kind_name Interfaces = ''interfaces''"
| "kind_name Interface_status = ''interface-status''"
| "kind_name Interface_info = ''interface-info''"
| "kind_name Memory_usage = ''memory''"
| "kind_name Coverage_events = ''coverage''"
| "kind_name Upcalls = ''upcall''"
| "kind_name Datapath = ''datapath''"
| "kind_name Datapath_interfaces = ''datapath-interfaces''"

primrec kind_default :: "collector_kind \<Rightarrow> bool" where
  "kind_default Bridges = True"
| "kind_default Ports = True"
| "kind_default Interfaces = True"
| "kind_default Interface_status = False"
| "kind_default Interface_info = False"
| "kind_default Memory_usage = True"
| "kind_default Coverage_events = True"
| "kind_default Upcalls = True"
| "kind_default Datapath = True"
| "kind_default Datapath_interfaces = False"

primrec kind_dep :: "collector_kind \<Rightarrow> dep_check" where
  "kind_dep Bridges = OVSViewAvailable"
| "kind_dep Ports = OVSViewAvailable"
| "kind_dep Interfaces = OVSViewAvailable"
| "kind_dep Interface_status = OVSViewAvailable"
| "kind_dep Interface_info = OVSViewAvailable"
| "kind_dep Memory_usage = UnixctlHas (\<lambda>s. SnapMemory s \<noteq> None)"
| "kind_dep Coverage_events = UnixctlHas (\<lambda>s. SnapCoverage s \<noteq> None)"
| "kind_dep Upcalls = UnixctlHas (\<lambda>s. SnapUpcall s \<noteq> None)"
| "kind_dep Datapath = UnixctlHas (\<lambda>s. SnapDPIF s \<noteq> None \<or> SnapDPCTL s \<noteq> None)"
| "kind_dep Datapath_interfaces = UnixctlHas (\<lambda>s. SnapDPIF s \<noteq> None)"

primrec kind_instruments :: "collector_kind \<Rightarrow> instrument list" where
  "kind_instruments Bridges = bridges_instruments"
| "kind_instruments Ports = ports_instruments"
| "kind_instruments Interfaces = interfaces_instruments"
| "kind_instruments Interface_status = interface_status_instruments"
| "kind_instruments Interface_info = interface_info_instruments"
| "kind_instruments Memory_usage = memory_instruments"
| "kind_instruments Coverage_events = coverage_instruments"
| "kind_instruments Upcalls = upcall_instruments"
| "kind_instruments Datapath = datapath_instruments"
| "kind_instruments Datapath_interfaces = datapath_interfaces_instruments"

primrec kind_observe :: "range_order \<Rightarrow> collector_kind \<Rightarrow> source \<Rightarrow> observation list" where
  "kind_observe ord Bridges = bridges_observe"
| "kind_observe ord Ports = ports_observe"
| "kind_observe ord Interfaces = interfaces_observe"
| "kind_observe ord Interface_status = interface_status_observe ord"
| "kind_observe ord Interface_info = interface_info_observe"
| "kind_observe ord Memory_usage = memory_observe ord"
| "kind_observe ord Coverage_events = coverage_observe ord"
| "kind_observe ord Upcalls = upcall_observe ord"
| "kind_observe ord Datapath = datapath_observe ord"
| "kind_observe ord Datapath_interfaces = datapath_interfaces_observe ord"

text \<open>
  A callback of the interface collectors reads three tables of the cache, one after the other, and the
  library may change the cache in between: \<open>at\<close> is what the data source holds at each of the three reads.
  The view is fetched once, before the first; its pointer to the cache does not change.
\<close>

datatype table_read = Ports_read | Interfaces_read | Bridges_read

definition cache_seen :: "source \<Rightarrow> ovs_view option" where
  "cache_seen src = (case OVS src of Nil_iface \<Rightarrow> None | View_iface view \<Rightarrow> view)"

definition walk_at :: "(string \<Rightarrow> interface_row \<Rightarrow> observation list) \<Rightarrow> (table_read \<Rightarrow> source) \<Rightarrow> observation list" where
  "walk_at emit at =
     (case OVS (at Ports_read) of
        Nil_iface \<Rightarrow> []
      | View_iface view \<Rightarrow>
          interface_walk emit view (cache_seen (at Interfaces_read)) (cache_seen (at Bridges_read)))"

fun kind_observe_at :: "range_order \<Rightarrow> collector_kind \<Rightarrow> (table_read \<Rightarrow> source) \<Rightarrow> observation list" where
  "kind_observe_at ord Interfaces at = walk_at interfaces_emit at"
| "kind_observe_at ord Interface_status at = walk_at (interface_status_emit ord) at"
| "kind_observe_at ord Interface_info at = walk_at interface_info_emit at"
| "kind_observe_at ord k at = kind_observe ord k (at Ports_read)"

lemma kind_observe_still: "kind_observe_at ord k (\<lambda>_. src) = kind_observe ord k src"
  by (cases k) (auto simp: walk_at_def cache_seen_def interfaces_observe_def interface_status_observe_def
      interface_info_observe_def split: view_iface.split)

lemmas instruments_defs = bridges_instruments_def ports_instruments_def interfaces_instruments_def
  interface_status_instruments_def interface_info_instruments_def memory_instruments_def
  coverage_instruments_def upcall_instruments_def datapath_instruments_def
  datapath_interfaces_instruments_def

section \<open>The contract of a collector\<close>

text \<open>
  Its instruments have distinct names; while its dependency is unavailable it reports nothing;
  what it reports belongs to its own instruments.
\<close>

locale collector =
  fixes insts :: "instrument list"
    and dep :: dep_check
    and obs :: "source \<Rightarrow> observation list"
  assumes distinct_instruments: "distinct (map InstName insts)"
    and down_silent: "\<not> dep (Some src) \<Longrightarrow> obs src = []"
    and declared: "x \<in> set (obs src) \<Longrightarrow> ObsInst x \<in> set (map InstName insts)"
begin

lemma reported_available: "x \<in> set (obs src) \<Longrightarrow> dep (Some src)"
  using down_silent [of src] by fastforce

lemma instrument_unique: "x \<in> set (obs src) \<Longrightarrow> \<exists>!i. i \<in> set insts \<and> InstName i = ObsInst x"
  using declared [of x src] distinct_instruments by (auto simp: distinct_map inj_on_def)

end

lemma view_down: "\<not> OVSViewAvailable (Some src) \<Longrightarrow> OVS src = Nil_iface"
  by (simp add: OVSViewAvailable_def)

lemma bridges_fold:
  "foldl bridges_row (n, acc) bs =
     (n + of_nat (length bs),
      acc @ map (\<lambda>b. observe ''ovs.bridge.ports.count'' (of_nat (length (B_Ports b))) [(''bridge'', B_Name b)]) bs)"
  by (induction bs arbitrary: n acc) (simp_all add: bridges_row_def)

lemma ports_fold: "foldl (\<lambda>total p. total + 1) (n::int64) ps = n + of_nat (length ps)"
  by (induction ps arbitrary: n) simp_all

lemma set_case_option:
  "x \<in> set (case m of None \<Rightarrow> [] | Some y \<Rightarrow> f y) \<longleftrightarrow> (\<exists>y. m = Some y \<and> x \<in> set (f y))"
  by (cases m) simp_all

lemma walk_emits:
  "x \<in> set (interface_walk emit view1 view2 view3) \<longleftrightarrow>
     (\<exists>b \<in> set (view_bridges view3). \<exists>pu \<in> set (B_Ports b). \<exists>p. map_of (ports_by_uuid view1) pu = Some p
       \<and> (\<exists>iu \<in> set (P_Interfaces p). \<exists>i. map_of (interfaces_by_uuid view2) iu = Some i
         \<and> x \<in> set (emit (B_Name b) i)))"
  by (simp add: interface_walk_def Let_def set_case_option eq_commute [of "Some _" "map_of _ _"])

lemma walk_declared:
  assumes "x \<in> set (case OVS src of Nil_iface \<Rightarrow> [] | View_iface view \<Rightarrow> interface_walk emit view view view)"
    and "\<And>b i x. x \<in> set (emit b i) \<Longrightarrow> ObsInst x \<in> N"
  shows "ObsInst x \<in> N"
  using assms by (auto simp: walk_emits split: view_iface.splits)

lemma interfaces_declared: "x \<in> set (interfaces_emit b i) \<Longrightarrow> ObsInst x \<in> set (map InstName interfaces_instruments)"
  by (auto simp: interfaces_emit_def interfaces_instruments_def Let_def)

lemma interface_status_declared:
  "x \<in> set (interface_status_emit ord b i) \<Longrightarrow> ObsInst x \<in> set (map InstName interface_status_instruments)"
  by (auto simp: interface_status_emit_def emitMap_def interface_status_instruments_def)

lemma interface_info_declared:
  "x \<in> set (interface_info_emit b i) \<Longrightarrow> ObsInst x \<in> set (map InstName interface_info_instruments)"
  by (auto simp: interface_info_emit_def opt_obs_def interface_info_instruments_def Let_def split: option.splits)

interpretation bridges_c: collector bridges_instruments OVSViewAvailable bridges_observe
  by unfold_locales
    (auto simp: instruments_defs bridges_observe_def bridges_fold dest: view_down split: view_iface.splits)

interpretation ports_c: collector ports_instruments OVSViewAvailable ports_observe
  by unfold_locales
    (auto simp: instruments_defs ports_observe_def dest: view_down split: view_iface.splits)

interpretation interfaces_c: collector interfaces_instruments OVSViewAvailable interfaces_observe
proof unfold_locales
  show "distinct (map InstName interfaces_instruments)"
    by (simp add: interfaces_instruments_def)
  show "interfaces_observe src = []" if "\<not> OVSViewAvailable (Some src)" for src
    using that by (simp add: interfaces_observe_def view_down)
qed (unfold interfaces_observe_def, erule walk_declared, rule interfaces_declared)

interpretation interface_status_c: collector interface_status_instruments OVSViewAvailable "interface_status_observe ord" for ord
proof unfold_locales
  show "distinct (map InstName interface_status_instruments)"
    by (simp add: interface_status_instruments_def)
  show "interface_status_observe ord src = []" if "\<not> OVSViewAvailable (Some src)" for src
    using that by (simp add: interface_status_observe_def view_down)
qed (unfold interface_status_observe_def, erule walk_declared, rule interface_status_declared)

interpretation interface_info_c: collector interface_info_instruments OVSViewAvailable interface_info_observe
proof unfold_locales
  show "distinct (map InstName interface_info_instruments)"
    by (simp add: interface_info_instruments_def)
  show "interface_info_observe src = []" if "\<not> OVSViewAvailable (Some src)" for src
    using that by (simp add: interface_info_observe_def view_down)
qed (unfold interface_info_observe_def, erule walk_declared, rule interface_info_declared)

lemma unixctl_down: "\<not> UnixctlHas present (Some src) \<Longrightarrow> UnixCtlOVS src = Some snap \<Longrightarrow> \<not> present snap"
  by (simp add: UnixctlHas_def)

interpretation memory_c: collector memory_instruments "UnixctlHas (\<lambda>s. SnapMemory s \<noteq> None)" "memory_observe ord" for ord
  by unfold_locales
    (auto simp: memory_instruments_def memory_observe_def dest: unixctl_down split: option.splits)

interpretation coverage_c: collector coverage_instruments "UnixctlHas (\<lambda>s. SnapCoverage s \<noteq> None)" "coverage_observe ord" for ord
  by unfold_locales
    (auto simp: coverage_instruments_def coverage_observe_def dest: unixctl_down split: option.splits)

interpretation upcall_c: collector upcall_instruments "UnixctlHas (\<lambda>s. SnapUpcall s \<noteq> None)" "upcall_observe ord" for ord
  by unfold_locales
    (auto simp: upcall_instruments_def upcall_observe_def upcall_emit_def Let_def dest: unixctl_down
      split: option.splits)

interpretation datapath_c: collector datapath_instruments
    "UnixctlHas (\<lambda>s. SnapDPIF s \<noteq> None \<or> SnapDPCTL s \<noteq> None)" "datapath_observe ord" for ord
  by unfold_locales
    (auto simp: datapath_instruments_def datapath_observe_def datapath_lookups_emit_def
      datapath_flows_emit_def Let_def dest: unixctl_down split: option.splits)

interpretation datapath_interfaces_c: collector datapath_interfaces_instruments
    "UnixctlHas (\<lambda>s. SnapDPIF s \<noteq> None)" "datapath_interfaces_observe ord" for ord
  by unfold_locales
    (auto simp: datapath_interfaces_instruments_def datapath_interfaces_observe_def port_emit_def
      dest: unixctl_down split: option.splits)

text \<open>So every collector of the registry keeps the contract.\<close>

lemma kind_collector: "collector (kind_instruments k) (kind_dep k) (kind_observe ord k)"
  by (cases k) (simp_all only: kind_instruments.simps kind_dep.simps kind_observe.simps
      bridges_c.collector_axioms ports_c.collector_axioms
      interfaces_c.collector_axioms interface_status_c.collector_axioms
      interface_info_c.collector_axioms memory_c.collector_axioms coverage_c.collector_axioms
      upcall_c.collector_axioms datapath_c.collector_axioms datapath_interfaces_c.collector_axioms)

text \<open>The observations belong to the collector's instruments, also when the tables are read at three moments.\<close>

lemma declared_at:
  assumes "x \<in> set (kind_observe_at ord k at)"
  shows "ObsInst x \<in> set (map InstName (kind_instruments k))"
proof (cases "k \<in> {Interfaces, Interface_status, Interface_info}")
  case True
  then show ?thesis
    using assms interfaces_declared interface_status_declared interface_info_declared
    by (auto simp: walk_at_def walk_emits simp del: set_map split: view_iface.splits)
next
  case False
  then have "x \<in> set (kind_observe ord k (at Ports_read))"
    using assms by (cases k; simp)
  then show ?thesis
    by (rule collector.declared [OF kind_collector])
qed

section \<open>Which interfaces are reported\<close>

text \<open>The library keys the rows of a table by UUID, and a row's own UUID is its key.\<close>

definition rows_unique :: "ovs_view option \<Rightarrow> bool" where
  "rows_unique view \<longleftrightarrow> distinct (map P_UUID (view_ports view)) \<and> distinct (map I_UUID (view_interfaces view))"

text \<open>The bridge has a port that has the interface, each in the view it is read from.\<close>

definition linked ::
    "ovs_view option \<Rightarrow> ovs_view option \<Rightarrow> ovs_view option \<Rightarrow> bridge_row \<Rightarrow> interface_row \<Rightarrow> bool" where
  "linked view1 view2 view3 b i \<longleftrightarrow> b \<in> set (view_bridges view3) \<and> i \<in> set (view_interfaces view2)
     \<and> (\<exists>p \<in> set (view_ports view1). P_UUID p \<in> set (B_Ports b) \<and> I_UUID i \<in> set (P_Interfaces p))"

lemma foldl_put_all: "foldl (\<lambda>m x. map_put (key x) x m) acc xs = put_all (map (\<lambda>x. (key x, x)) xs) acc"
  by (induction xs arbitrary: acc) simp_all

lemma keyed_get:
  assumes "distinct (map key xs)"
  shows "map_of (foldl (\<lambda>m x. map_put (key x) x m) [] xs) k = Some y \<longleftrightarrow> y \<in> set xs \<and> key y = k"
proof -
  have "distinct (map fst (map (\<lambda>x. (key x, x)) xs))"
    using assms by (simp add: comp_def)
  then show ?thesis
    by (auto simp: foldl_put_all)
qed

lemma walk_at_seen:
  "walk_at emit at = (if OVS (at Ports_read) = Nil_iface then []
     else interface_walk emit (cache_seen (at Ports_read)) (cache_seen (at Interfaces_read)) (cache_seen (at Bridges_read)))"
  by (simp add: walk_at_def cache_seen_def split: view_iface.split)

lemma walk_linked:
  assumes "rows_unique view1" and "rows_unique view2"
  shows "x \<in> set (interface_walk emit view1 view2 view3)
    \<longleftrightarrow> (\<exists>b i. linked view1 view2 view3 b i \<and> x \<in> set (emit (B_Name b) i))"
  using assms
  by (auto simp: walk_emits ports_by_uuid_def interfaces_by_uuid_def keyed_get rows_unique_def linked_def)
    blast

section \<open>Properties\<close>

text \<open>Property C5. The three interface collectors report exactly what belongs to the interfaces
  attached to a bridge: one set of observations for every bridge and every interface of one of
  its ports, none for any other, and dangling UUIDs are skipped. Each table is read once, and the cache may
  change between the reads: a bridge, a port and an interface are reported together exactly when they
  were in the cache when their table was read and refer to each other.\<close>

theorem interface_attribution:
  assumes "rows_unique (cache_seen (at Ports_read))" and "rows_unique (cache_seen (at Interfaces_read))"
    and "OVS (at Ports_read) \<noteq> Nil_iface"
  shows "\<forall>(k, emit) \<in> {(Interfaces, interfaces_emit), (Interface_status, interface_status_emit ord),
      (Interface_info, interface_info_emit)}.
    set (kind_observe_at ord k at) = {x. \<exists>b i.
      linked (cache_seen (at Ports_read)) (cache_seen (at Interfaces_read)) (cache_seen (at Bridges_read)) b i
      \<and> x \<in> set (emit (B_Name b) i)}"
  using assms(3) by (simp add: walk_at_seen set_eq_iff walk_linked [OF assms(1,2)])

text \<open>The ports of the table are shared out among the bridges: each port is on one bridge, once.\<close>

definition ports_shared_out :: "ovs_view option \<Rightarrow> bool" where
  "ports_shared_out view \<longleftrightarrow> mset (concat (map B_Ports (view_bridges view))) = mset (map P_UUID (view_ports view))"

lemma ports_shared_out_length:
  "ports_shared_out view \<Longrightarrow> sum_list (map (length \<circ> B_Ports) (view_bridges view)) = length (view_ports view)"
  by (drule arg_cong [where f = size, OF ports_shared_out_def [THEN iffD1]]) (simp add: length_concat comp_def)

lemma sum_of_nat: "sum_list (map (\<lambda>x. of_nat (f x)) xs) = (of_nat (sum_list (map f xs)) :: int64)"
  by (induction xs) simp_all

text \<open>When every port is on one bridge, the port counts the bridges collector reports, one
  for each bridge, add up to the count the ports collector reports, also where the sum wraps around
  64 bits; the last observation of the bridges collector is the number of bridges.\<close>

lemma bridge_port_counts_add_up:
  assumes "OVS src = View_iface view" and "ports_shared_out view"
  shows "\<exists>rows. bridges_observe src
        = rows @ [observe ''ovs.bridges.count'' (of_nat (length (view_bridges view))) []]
      \<and> map ObsAttrs rows = map (\<lambda>b. [(''bridge'', B_Name b)]) (view_bridges view)
      \<and> ports_observe src = [observe ''ovs.ports.count'' (sum_list (map ObsValue rows)) []]"
  using assms ports_shared_out_length [OF assms(2)]
  by (simp add: bridges_observe_def ports_observe_def bridges_fold ports_fold comp_def sum_of_nat)

section \<open>Examples\<close>

definition ex_interface :: interface_row where
  "ex_interface = zero_interface\<lparr>I_UUID := ''i1'', I_Name := ''eth0'', I_AdminState := Some ''up'', I_MTU := Some 1500,
     I_Type := ''system'', I_Duplex := Some ''full'', I_Statistics := [(''rx_bytes'', 42)]\<rparr>"

lemma ex_interface_simps [simp]:
  "I_UUID ex_interface = ''i1''" "I_Name ex_interface = ''eth0''" "I_Statistics ex_interface = [(''rx_bytes'', 42)]"
  "I_Status ex_interface = []" "I_Options ex_interface = []" "I_ExternalIDs ex_interface = []"
  by (simp_all add: ex_interface_def zero_interface_def)

definition ex_bridge :: "string list \<Rightarrow> bridge_row" where
  "ex_bridge ports = zero_bridge\<lparr>B_UUID := ''b1'', B_Name := ''br0'', B_Ports := ports\<rparr>"

definition ex_port :: "string list \<Rightarrow> port_row" where
  "ex_port interfaces = zero_port\<lparr>P_UUID := ''p1'', P_Name := ''eth0'', P_Interfaces := interfaces\<rparr>"

lemma ex_row_simps [simp]:
  "B_UUID (ex_bridge ps) = ''b1''" "B_Name (ex_bridge ps) = ''br0''" "B_Ports (ex_bridge ps) = ps"
  "P_UUID (ex_port is) = ''p1''" "P_Name (ex_port is) = ''eth0''" "P_Interfaces (ex_port is) = is"
  by (simp_all add: ex_bridge_def ex_port_def)

definition ex_view :: "ovs_view option" where
  "ex_view = Some \<lparr>Cache = Some [
     ''Bridge'' \<mapsto> [(''b1'', Some (Bridge_model (ex_bridge [''p1'', ''gone''])))],
     ''Port'' \<mapsto> [(''p1'', Some (Port_model (ex_port [''i1''])))],
     ''Interface'' \<mapsto> [(''i1'', Some (Interface_model ex_interface))]]\<rparr>"

definition ex_view2 :: "ovs_view option" where
  "ex_view2 = Some \<lparr>Cache = Some [
     ''Bridge'' \<mapsto> [(''b1'', Some (Bridge_model (ex_bridge [''p1''])))],
     ''Port'' \<mapsto> [(''p1'', Some (Port_model (ex_port [])))]]\<rparr>"

definition ex_source :: source where
  "ex_source = \<lparr>OVS = View_iface ex_view, UnixCtlOVS = Some
     (empty_snapshot\<lparr>SnapMemory := Some \<lparr>Usage = [(''handlers'', 5), (''ports'', 3)]\<rparr>\<rparr>)\<rparr>"

lemma ex_rows:
  "view_bridges ex_view = [ex_bridge [''p1'', ''gone'']]"
  "view_ports ex_view = [ex_port [''i1'']]"
  "view_interfaces ex_view = [ex_interface]"
  by (simp_all add: ex_view_def view_bridges_def view_ports_def view_interfaces_def eachRow_def
      as_bridge_def as_port_def as_interface_def List.map_filter_simps)

theorem interface_attribution_witness:
  "observe ''ovs.interface.rx.bytes'' 42 [(''bridge'', ''br0''), (''interface'', ''eth0'')]
     \<in> set (walk_at interfaces_emit (\<lambda>r. if r = Bridges_read then ex_source\<lparr>OVS := View_iface ex_view2\<rparr> else ex_source))"
proof -
  let ?at = "\<lambda>r. if r = Bridges_read then ex_source\<lparr>OVS := View_iface ex_view2\<rparr> else ex_source"
  have "rows_unique ex_view" and "OVS ex_source = View_iface ex_view"
    by (simp_all add: rows_unique_def ex_rows ex_source_def)
  then have "set (walk_at interfaces_emit ?at)
      = {x. \<exists>b i. linked ex_view ex_view ex_view2 b i \<and> x \<in> set (interfaces_emit (B_Name b) i)}"
    using interface_attribution [of ?at "\<lambda>_ n. [0..<n]"] by (simp add: cache_seen_def)
  moreover have "view_bridges ex_view2 = [ex_bridge [''p1'']]"
    by (simp add: ex_view2_def view_bridges_def eachRow_def as_bridge_def List.map_filter_simps)
  then have "linked ex_view ex_view ex_view2 (ex_bridge [''p1'']) ex_interface"
    by (simp add: linked_def ex_rows)
  moreover have "observe ''ovs.interface.rx.bytes'' 42 [(''bridge'', ''br0''), (''interface'', ''eth0'')]
      \<in> set (interfaces_emit ''br0'' ex_interface)"
    by (simp add: interfaces_emit_def stat_of_def Let_def)
  ultimately show ?thesis
    by fastforce
qed

theorem bridge_port_counts_add_up_witness:
  "ports_observe (ex_source\<lparr>OVS := View_iface ex_view2\<rparr>) = [observe ''ovs.ports.count'' 1 []]"
proof -
  have rows: "view_bridges ex_view2 = [ex_bridge [''p1'']]"
    "view_ports ex_view2 = [ex_port []]"
    by (simp_all add: ex_view2_def view_bridges_def view_ports_def eachRow_def as_bridge_def as_port_def
        List.map_filter_simps)
  then have "ports_shared_out ex_view2"
    by (simp add: ports_shared_out_def)
  moreover have "OVS (ex_source\<lparr>OVS := View_iface ex_view2\<rparr>) = View_iface ex_view2"
    by simp
  ultimately obtain obs where "bridges_observe (ex_source\<lparr>OVS := View_iface ex_view2\<rparr>)
        = obs @ [observe ''ovs.bridges.count'' (of_nat (length (view_bridges ex_view2))) []]"
    and "ports_observe (ex_source\<lparr>OVS := View_iface ex_view2\<rparr>) = [observe ''ovs.ports.count'' (sum_list (map ObsValue obs)) []]"
    using bridge_port_counts_add_up [of "ex_source\<lparr>OVS := View_iface ex_view2\<rparr>" ex_view2] by blast
  moreover have "bridges_observe (ex_source\<lparr>OVS := View_iface ex_view2\<rparr>)
      = [observe ''ovs.bridge.ports.count'' 1 [(''bridge'', ''br0'')], observe ''ovs.bridges.count'' 1 []]"
    by (simp add: bridges_observe_def bridges_row_def rows)
  ultimately show ?thesis
    by (auto simp: rows append_eq_Cons_conv)
qed

end
