(* ===== verification/Reports.thy ===== *)
theory Reports
  imports Recovery Collectors
begin

text \<open>
  From the switch to the metrics: the state of a switch, the five reports it prints of it, and the
  observations the collectors make of these reports. Each stage (socket, JSON, parser, snapshot, scraper,
  collector) has its lemmas in its own theory; here they are composed.
\<close>

section \<open>A switch\<close>

text \<open>What a switch would print: the values together with the parts of the reports no metric depends on.\<close>

record switch =
  SwHeader :: "string list" \<comment> \<open>of the coverage report\<close>
  SwEvents :: "(string \<times> string \<times> int64) list"
  SwTrailer :: "string list"
  SwMemory :: "memory_row list"
  SwDatapaths :: "printed_datapath list"
  SwStats :: "printed_dpctl list"
  SwUpcalls :: "printed_upcall list"

definition switch_ok :: "switch \<Rightarrow> bool" where
  "switch_ok sw \<longleftrightarrow>
     list_all noise_ok (SwHeader sw) \<and> list_all row_ok (SwEvents sw) \<and> list_all noise_ok (SwTrailer sw)
     \<and> distinct (map fst (SwEvents sw))
     \<and> list_all memory_row_ok (SwMemory sw) \<and> distinct (map (fst \<circ> memory_row_entry) (SwMemory sw))
     \<and> list_all printed_datapath_ok (SwDatapaths sw) \<and> distinct (map fst (SwDatapaths sw))
     \<and> list_all printed_dpctl_ok (SwStats sw) \<and> distinct (map (DC_Name \<circ> Value) (SwStats sw))
     \<and> list_all printed_upcall_ok (SwUpcalls sw) \<and> distinct (map (U_Name \<circ> UValue) (SwUpcalls sw))"

text \<open>The replies to the five calls of a refresh, in the order of the calls.\<close>

definition switch_replies :: "switch \<Rightarrow> string list" where
  "switch_replies sw = map json_quote
     [coverage_report (SwHeader sw) (SwEvents sw) (SwTrailer sw), memory_report (SwMemory sw),
      dpif_report (SwDatapaths sw), dpctl_report (SwStats sw), upcall_report (SwUpcalls sw)]"

definition switch_answers :: "(nat \<Rightarrow> call_env) \<Rightarrow> client_config \<Rightarrow> switch \<Rightarrow> bool" where
  "switch_answers envs cfg sw \<longleftrightarrow> (\<forall>i \<in> {..<5}. answers (envs i) cfg (switch_replies sw ! i))"

definition switch_snapshot :: "switch \<Rightarrow> ovs_snapshot" where
  "switch_snapshot sw =
     \<lparr>SnapCoverage = Some \<lparr>Events = map row_entry (SwEvents sw)\<rparr>,
      SnapMemory = Some \<lparr>Usage = map memory_row_entry (SwMemory sw)\<rparr>,
      SnapDPIF = Some \<lparr>DPIF_Datapaths = map datapath_entry (SwDatapaths sw)\<rparr>,
      SnapDPCTL = Some \<lparr>DPCTL_Datapaths = map (\<lambda>p. (DC_Name (Value p), Value p)) (SwStats sw)\<rparr>,
      SnapUpcall = Some \<lparr>Upcall_Datapaths = map (\<lambda>p. (U_Name (UValue p), UValue p)) (SwUpcalls sw)\<rparr>\<rparr>"

section \<open>The metrics of a switch\<close>

text \<open>
  What the exporter reports of a switch, straight from its values; the order of a list is of no account. A
  port is labelled with its OpenFlow number under \<open>port_no\<close> and with its number in the datapath under
  \<open>of_port\<close>, although the instrument promises the kernel port number and the OpenFlow port number.
\<close>

definition event_metrics :: "switch \<Rightarrow> observation list" where
  "event_metrics sw = map (\<lambda>(name, rates, n). observe ''ovs.coverage.events'' n [(''event'', name)]) (SwEvents sw)"

definition memory_metrics :: "switch \<Rightarrow> observation list" where
  "memory_metrics sw =
     map (\<lambda>(ws, w, n). observe ''ovs.memory.usage'' n [(''resource'', join '' '' (ws @ [w]))]) (SwMemory sw)"

definition upcall_metrics :: "switch \<Rightarrow> observation list" where
  "upcall_metrics sw = concat (map (\<lambda>p.
     let u = UValue p; at = (''datapath'', U_Name u)
     in [observe ''ovs.upcall.flows.current'' (FlowsCurrent u) [at],
         observe ''ovs.upcall.flows.max'' (FlowsMax u) [at],
         observe ''ovs.upcall.flows.limit'' (FlowsLimit u) [at],
         observe ''ovs.upcall.dump.duration'' (DumpDurationMs u) [at]]
        @ map (\<lambda>(handler, n). observe ''ovs.upcall.handler.keys'' n [at, (''handler'', format_int handler)])
            (HandlerKeys u)) (SwUpcalls sw))"

definition datapath_metrics :: "switch \<Rightarrow> observation list" where
  "datapath_metrics sw =
     concat (map (\<lambda>(name, l, bridges).
       map (\<lambda>(result, n). observe ''ovs.datapath.lookups'' n [(''datapath'', name), (''result'', result)])
         [(''hit'', Hit l), (''missed'', Missed l), (''lost'', Lost l)]) (SwDatapaths sw))
     @ concat (map (\<lambda>p. let d = Value p in
         map (\<lambda>(inst, n). observe inst n [(''datapath'', DC_Name d)])
           [(''ovs.datapath.flows'', DC_Flows d), (''ovs.datapath.masks.hit'', DC_MasksHit d),
            (''ovs.datapath.cache.hit'', DC_CacheHit d)]) (SwStats sw))"

definition port_metrics :: "switch \<Rightarrow> observation list" where
  "port_metrics sw =
     [observe ''ovs.datapath.interface.info'' 1
        [(''datapath'', name), (''bridge'', br), (''port'', SP_Name p), (''port_no'', format_int (SP_OpenFlow p)),
         (''of_port'', datapath_number (SP_Datapath p)), (''type'', SP_Type p)].
        (name, l, bridges) \<leftarrow> SwDatapaths sw, (br, ports) \<leftarrow> bridges, p \<leftarrow> ports]"

section \<open>Composition\<close>

lemma switch_parsed:
  assumes "switch_ok sw"
  shows "parse_coverage (switch_replies sw ! 0) = Inr \<lparr>Events = map row_entry (SwEvents sw)\<rparr>"
    and "parse_memory (switch_replies sw ! 1) = Inr \<lparr>Usage = map memory_row_entry (SwMemory sw)\<rparr>"
    and "parse_dpif (switch_replies sw ! 2) = Inr \<lparr>DPIF_Datapaths = map datapath_entry (SwDatapaths sw)\<rparr>"
    and "parse_dpctl (switch_replies sw ! 3)
      = Inr \<lparr>DPCTL_Datapaths = map (\<lambda>p. (DC_Name (Value p), Value p)) (SwStats sw)\<rparr>"
    and "parse_upcall (switch_replies sw ! 4)
      = Inr \<lparr>Upcall_Datapaths = map (\<lambda>p. (U_Name (UValue p), UValue p)) (SwUpcalls sw)\<rparr>"
  using assms
  by (simp_all add: switch_replies_def switch_ok_def cov.parse_quote mem.parse_quote dpif_p.parse_quote
      dpctl_p.parse_quote upcall_p.parse_quote coverage_report_text memory_report_text dpif_report_text
      dpctl_report_text upcall_report_text)

lemma switch_refresh:
  assumes "switch_ok sw" and "switch_answers envs (Cfg c) sw"
  shows "\<exists>c'. ovs_refresh_fun envs c = (c', Inr (Some (switch_snapshot sw)))"
proof -
  let ?rs = "call_results envs 0 (map fst ovs_methods) c"
  have "?rs ! i = Inr (switch_replies sw ! i)" if "i < 5" for i
    using assms(2) that by (intro answered_result) (simp_all add: switch_answers_def)
  then have "?rs ! 0 = Inr (switch_replies sw ! 0)" "?rs ! 1 = Inr (switch_replies sw ! 1)"
      "?rs ! 2 = Inr (switch_replies sw ! 2)" "?rs ! 3 = Inr (switch_replies sw ! 3)"
      "?rs ! 4 = Inr (switch_replies sw ! 4)"
    by simp_all
  then have "snapshot_of ?rs = switch_snapshot sw"
    using switch_parsed [OF assms(1)] by (simp add: snapshot_of_def switch_snapshot_def field_of_def)
  moreover have "\<not> snapshot_empty (switch_snapshot sw)"
    by (simp add: snapshot_empty_def switch_snapshot_def)
  ultimately show ?thesis
    by (simp add: ovs_refresh_fun_def ovs_refresh_results Let_def)
qed

text \<open>The observations of each collector, up to the order in which it visits the maps.\<close>

lemma coverage_observed:
  assumes "UnixCtlOVS src = Some (switch_snapshot sw)"
  shows "mset (coverage_observe ord src) = mset (event_metrics sw)"
  using assms
  by (simp add: coverage_observe_def switch_snapshot_def event_metrics_def row_entry_def case_prod_unfold
      multiset.map_comp comp_def)

lemma memory_observed:
  assumes "UnixCtlOVS src = Some (switch_snapshot sw)"
  shows "mset (memory_observe ord src) = mset (memory_metrics sw)"
  using assms
  by (simp add: memory_observe_def switch_snapshot_def memory_metrics_def memory_row_entry_def case_prod_unfold
      multiset.map_comp comp_def)

lemma upcall_observed:
  assumes "UnixCtlOVS src = Some (switch_snapshot sw)"
  shows "mset (upcall_observe ord src) = mset (upcall_metrics sw)"
  using assms
  by (simp add: upcall_observe_def switch_snapshot_def upcall_metrics_def upcall_emit_def Let_def
      mset_concat_map case_prod_unfold multiset.map_comp comp_def)

lemma datapath_observed:
  assumes "UnixCtlOVS src = Some (switch_snapshot sw)"
  shows "mset (datapath_observe ord src) = mset (datapath_metrics sw)"
  using assms
  by (simp add: datapath_observe_def switch_snapshot_def datapath_metrics_def datapath_lookups_emit_def
      datapath_flows_emit_def datapath_entry_def datapath_value_def Let_def mset_concat_map case_prod_unfold
      multiset.map_comp comp_def)

lemma ports_observed:
  assumes "UnixCtlOVS src = Some (switch_snapshot sw)"
  shows "mset (datapath_interfaces_observe ord src) = mset (port_metrics sw)"
  using assms
  by (simp add: datapath_interfaces_observe_def switch_snapshot_def port_metrics_def datapath_entry_def
      datapath_value_def bridge_entry_def bridge_value_def port_emit_def port_value_def mset_concat_map
      case_prod_unfold multiset.map_comp comp_def)

lemmas switch_observed = coverage_observed memory_observed upcall_observed datapath_observed ports_observed

section \<open>Properties\<close>

text \<open>Property C2. From the switch to the metrics: whatever happened before, after a refresh in which the switch
  answers its five calls with the reports of its state, the five collectors of these reports make exactly
  the observations that state calls for, each of them once, in whatever order they visit the maps and
  whatever the database holds. The label \<open>port_no\<close> of a port carries its OpenFlow number and the label
  \<open>of_port\<close> its number in the datapath.\<close>

theorem metrics_of_switch:
  assumes "scraper_run ovs_refresh_fun t0 (evs @ [Tick t]) c s = (c', s', e)"
    and "0 < sint (ConfInterval (ScConfig s))" and "Cancelled \<notin> set evs"
    and "switch_ok sw" and "switch_answers (World t) (Cfg c) sw"
    and "src = source_of cache_of (NewDataSource db (Some s'))"
  shows "mset (kind_observe ord Coverage_events src) = mset (event_metrics sw)
    \<and> mset (kind_observe ord Memory_usage src) = mset (memory_metrics sw)
    \<and> mset (kind_observe ord Upcalls src) = mset (upcall_metrics sw)
    \<and> mset (kind_observe ord Datapath src) = mset (datapath_metrics sw)
    \<and> mset (kind_observe ord Datapath_interfaces src) = mset (port_metrics sw)"
proof -
  have "\<exists>snap. ScSnap s' = Some snap \<and> snap = switch_snapshot sw
      \<and> ScOutcome s' = Some (outcome_of t (Inr (Some snap) :: refresh_error + ovs_snapshot option))"
    using switch_refresh [OF assms(4)] assms(5) by (intro last_refresh_run [OF assms(1-3)]) simp
  then have "UnixCtlOVS src = Some (switch_snapshot sw)"
    by (auto simp: assms(6) source_of_def ds_UnixCtlOVS_def NewDataSource_def scraper_snapshot_def)
  then show ?thesis
    by (simp add: switch_observed)
qed

section \<open>Example\<close>

definition ex_switch :: switch where
  "ex_switch = \<lparr>SwHeader = [''Event coverage, avg rate over last:''],
     SwEvents = [(''nln_changed'', ''  0.0/sec '', 11359)], SwTrailer = [''121 events never hit'', ''''],
     SwMemory = [([''udpif''], ''keys'', 117)],
     SwDatapaths = [(''system@ovs-system'', \<lparr>Hit = 14778031, Missed = 1583622, Lost = 0\<rparr>,
        [(''br-int'', [\<lparr>SP_Name = ''p'', SP_OpenFlow = 29, SP_Datapath = None, SP_Type = ''patch'',
           SP_Options = ''peer=q''\<rparr>])])],
     SwStats = [\<lparr>Value = \<lparr>DC_Name = ''system@ovs-system'',
          DC_Lookups = \<lparr>Hit = 21901868, Missed = 2331661, Lost = 0\<rparr>, DC_Flows = 122,
          DC_MasksHit = 52499122, DC_MasksTotal = 8, DC_CacheHit = 18277721\<rparr>,
        HitPerPkt = ''2.17'', HitRate = ''75.42%'', Extra = []\<rparr>],
     SwUpcalls = [\<lparr>UValue = \<lparr>U_Name = ''system@ovs-system'', FlowsCurrent = 259, FlowsAvg = 287,
          FlowsMax = 2511, FlowsLimit = 200000, DumpDurationMs = 1, HandlerKeys = [(75, 24), (76, 29)]\<rparr>,
        UExtra = []\<rparr>]\<rparr>"

lemma ex_switch_ok: "switch_ok ex_switch"
proof -
  have "list_all noise_ok (SwHeader ex_switch)" "list_all row_ok (SwEvents ex_switch)"
      "list_all noise_ok (SwTrailer ex_switch)"
    by (simp_all add: ex_switch_def noise_ok_def row_ok_def plain_def ascii_def blank_def)
  moreover have "list_all memory_row_ok (SwMemory ex_switch)"
    by (simp add: ex_switch_def memory_row_ok_def plain_def ascii_def blank_def)
  moreover have "list_all printed_datapath_ok (SwDatapaths ex_switch)"
    by (simp add: ex_switch_def printed_datapath_ok_def printed_bridge_ok_def printed_port_ok_def plain_simps)
  moreover have "list_all printed_dpctl_ok (SwStats ex_switch)"
    by (simp add: ex_switch_def printed_dpctl_ok_def plain_simps)
  moreover have "list_all printed_upcall_ok (SwUpcalls ex_switch)"
    by (simp add: ex_switch_def printed_upcall_ok_def upcall_datapath_ok_def handler_ok_def plain_simps is_digit_def
        map_ok_def)
  ultimately show ?thesis
    by (simp add: switch_ok_def) (simp add: ex_switch_def)
qed

definition ex_switch_tick :: "(nat \<Rightarrow> call_env) tick" where
  "ex_switch_tick = \<lparr>World = (\<lambda>i. ex_env 1 (Some \<lparr>RespResult = switch_replies ex_switch ! i, RespError = ''null'',
     RespID = 1\<rparr>)), Start = 100, Finish = 105\<rparr>"

lemma ex_switch_answers: "switch_answers (World ex_switch_tick) (Cfg (ex_client 0 None)) ex_switch"
  by (simp add: switch_answers_def answers_def socket_found_def ex_switch_tick_def ex_defs response_failed_def)

theorem metrics_of_switch_witness:
  "\<exists>s'. \<forall>ord. kind_observe ord Datapath_interfaces (source_of (\<lambda>_::nat. None) (NewDataSource None (Some s')))
     = [observe ''ovs.datapath.interface.info'' 1 [(''datapath'', ''system@ovs-system''), (''bridge'', ''br-int''),
         (''port'', ''p''), (''port_no'', ''29''), (''of_port'', ''none''), (''type'', ''patch'')]]"
proof -
  let ?down = "ex_switch_tick\<lparr>World := (\<lambda>_. ex_env 0 None)\<rparr>"
  let ?s = "\<lparr>ScConfig = ex_scraper_config\<lparr>ConfInterval := 15 * 1000000000\<rparr>, ScSnap = None, ScOutcome = None\<rparr>"
  obtain c' s' e where run: "scraper_run ovs_refresh_fun ?down ([] @ [Tick ex_switch_tick]) (ex_client 0 None) ?s
      = (c', s', e)"
    by (metis prod_cases3)
  have "0 < sint (ConfInterval (ScConfig ?s))" and "Cancelled \<notin> set []"
    by simp_all
  from metrics_of_switch [OF run this ex_switch_ok ex_switch_answers refl, where cache_of = "\<lambda>_::nat. None" and db = None]
  have "kind_observe ord Datapath_interfaces (source_of (\<lambda>_::nat. None) (NewDataSource None (Some s')))
      = port_metrics ex_switch" for ord
    by (simp add: port_metrics_def ex_switch_def)
  moreover have "format_int 29 = ''29''"
    by code_simp
  ultimately show ?thesis
    by (auto simp: port_metrics_def ex_switch_def datapath_number_def)
qed

end
