(* ===== verification/Series.thy ===== *)
theory Series
  imports Collectors
begin

text \<open>
  The time series a collection reports: which collector owns a metric, that the README describes it,
  and that no collection reports a series twice. A duplicate would silently be overwritten in the
  metrics pipeline.
\<close>

section \<open>No series twice\<close>

text \<open>The identity of a time series: its instrument and its attributes.\<close>

definition series :: "observation \<Rightarrow> string \<times> (string \<times> string) list" where
  "series x = (ObsInst x, ObsAttrs x)"

lemma distinct_concat_keyed:
  assumes "distinct (map key xs)" and "\<And>x. x \<in> set xs \<Longrightarrow> distinct (map ser (f x))"
    and "\<And>x y. x \<in> set xs \<Longrightarrow> y \<in> set (f x) \<Longrightarrow> tag (ser y) = key x"
  shows "distinct (map ser (concat (map f xs)))"
  using assms
proof (induction xs)
  case (Cons x xs)
  have "ser ` set (f x) \<inter> ser ` (\<Union>z \<in> set xs. set (f z)) = {}"
  proof (rule ccontr)
    assume "\<not> ?thesis"
    then obtain y z w where "y \<in> set (f x)" "z \<in> set xs" "w \<in> set (f z)" "ser y = ser w"
      by auto
    then have "key x = key z"
      using Cons.prems(3) [of x y] Cons.prems(3) [of z w] by simp
    with Cons.prems(1) \<open>z \<in> set xs\<close> show False by (auto simp: image_iff)
  qed
  then show ?case
    using Cons by auto
qed simp

lemma distinct_entries:
  assumes "map_ok m" and "\<And>e. series (f e) = (inst, [(k, fst e)])"
  shows "distinct (map series (map f m))"
  using assms by (simp add: map_ok_def distinct_map comp_def inj_on_def)

lemma distinct_entries_with:
  assumes "map_ok m" and "\<And>e. series (f e) = (inst, as @ [(k, fst e), (l, g e)])"
  shows "distinct (map series (map f m))"
  using assms by (auto simp: map_ok_def distinct_map comp_def inj_on_def)

lemma distinct_handlers:
  assumes "map_ok hs"
  shows "distinct (map series (map (\<lambda>h. observe inst (snd h) [(''datapath'', name), (''handler'', format_int (fst h))]) hs))"
  using assms format_int_inj by (fastforce simp: map_ok_def distinct_map comp_def inj_on_def series_def)

lemma upcall_emit_distinct:
  assumes "map_ok (HandlerKeys (snd e))"
  shows "distinct (map series (upcall_emit ord e))"
  using distinct_handlers [OF map_ok_go_range [THEN iffD2, OF assms]]
  by (auto simp: upcall_emit_def Let_def series_def)

lemma map_ok_keys: "map_ok m \<Longrightarrow> distinct (map fst m)"
  by (simp add: map_ok_def)

lemma upcall_series:
  assumes "upcall_ok u"
  shows "distinct (map series (concat (map (upcall_emit ord) (go_range ord loop (Upcall_Datapaths u)))))"
proof (rule distinct_concat_keyed [where key = fst and tag = "snd \<circ> hd \<circ> snd"])
  show "distinct (map fst (go_range ord loop (Upcall_Datapaths u)))"
    using assms by (simp add: upcall_ok_def map_ok_def)
  show "distinct (map series (upcall_emit ord x))" if "x \<in> set (go_range ord loop (Upcall_Datapaths u))" for x
    using assms that by (intro upcall_emit_distinct)
      (auto simp: upcall_ok_def list_all_iff upcall_datapath_ok_def split_beta)
qed (auto simp: upcall_emit_def Let_def series_def)

lemma lookups_series:
  assumes "dpif_ok d"
  shows "distinct (map series (concat (map datapath_lookups_emit (go_range ord loop (DPIF_Datapaths d)))))"
proof (rule distinct_concat_keyed [where key = fst and tag = "snd \<circ> hd \<circ> snd"])
  show "distinct (map fst (go_range ord loop (DPIF_Datapaths d)))"
    using assms by (simp add: dpif_ok_def datapaths_ok_def map_ok_def)
qed (auto simp: datapath_lookups_emit_def Let_def series_def)

lemma flows_series:
  assumes "dpctl_ok d"
  shows "distinct (map series (concat (map datapath_flows_emit (go_range ord loop (DPCTL_Datapaths d)))))"
proof (rule distinct_concat_keyed [where key = fst and tag = "snd \<circ> hd \<circ> snd"])
  show "distinct (map fst (go_range ord loop (DPCTL_Datapaths d)))"
    using assms by (simp add: dpctl_ok_def map_ok_def)
qed (auto simp: datapath_flows_emit_def Let_def series_def)

lemma datapath_series:
  assumes "pred_option dpif_ok (SnapDPIF snap)" and "pred_option dpctl_ok (SnapDPCTL snap)"
    and "UnixCtlOVS src = Some snap"
  shows "distinct (map series (datapath_observe ord src))"
proof -
  have apart: "series x \<noteq> series y" if "x \<in> set (datapath_lookups_emit e)" and "y \<in> set (datapath_flows_emit e')"
    for x y e e'
    using that by (auto simp: datapath_lookups_emit_def datapath_flows_emit_def series_def Let_def)
  show ?thesis
    using assms lookups_series flows_series
    by (cases "SnapDPIF snap"; cases "SnapDPCTL snap") (auto simp: datapath_observe_def dest: apart)
qed

section \<open>The walk visits pairs\<close>

text \<open>
  The pairs of a bridge and an interface UUID in the order of the walk, and the rows they name. The three
  tables are read one after the other, so each comes from its own view.
\<close>

definition walk_uuids :: "ovs_view option \<Rightarrow> ovs_view option \<Rightarrow> (bridge_row \<times> string) list" where
  "walk_uuids view1 view3 = concat (map (\<lambda>b. concat (map (\<lambda>pu.
     case map_get (ports_by_uuid view1) pu of
       None \<Rightarrow> []
     | Some p \<Rightarrow> map (Pair b) (P_Interfaces p)) (B_Ports b))) (view_bridges view3))"

definition walk_row :: "ovs_view option \<Rightarrow> bridge_row \<times> string \<Rightarrow> (bridge_row \<times> interface_row) option" where
  "walk_row view2 = (\<lambda>(b, u). map_option (Pair b) (map_get (interfaces_by_uuid view2) u))"

lemma concat_map_filter: "concat (map (\<lambda>x. case f x of None \<Rightarrow> [] | Some y \<Rightarrow> g y) xs) = concat (map g (List.map_filter f xs))"
  by (induction xs) (simp_all add: List.map_filter_simps split: option.split)

lemma concat_map_concat: "concat (map f (concat xss)) = concat (map (\<lambda>xs. concat (map f xs)) xss)"
  by (induction xss) simp_all

lemma walk_pairs:
  "interface_walk emit view1 view2 view3
     = concat (map (\<lambda>(b, i). emit (B_Name b) i) (List.map_filter (walk_row view2) (walk_uuids view1 view3)))"
proof -
  have "concat (map (\<lambda>u. case map_get (interfaces_by_uuid view2) u of None \<Rightarrow> [] | Some i \<Rightarrow> emit (B_Name b) i) us)
      = concat (map (\<lambda>e. case walk_row view2 e of None \<Rightarrow> [] | Some (b, i) \<Rightarrow> emit (B_Name b) i) (map (Pair b) us))"
    for b us
    by (induction us) (simp_all add: walk_row_def split: option.split)
  then show ?thesis
    unfolding concat_map_filter [symmetric]
    by (simp add: interface_walk_def walk_uuids_def Let_def comp_def concat_map_concat
        option.case_distrib [of "\<lambda>xs. concat (map _ xs)"] cong: option.case_cong)
qed

text \<open>
  What the database is expected to hold at every moment: the names of bridges and of interfaces are unique
  (they are indexes of the schema), the key-value columns are maps, and each port is on one bridge and each
  interface on one port, listed once (as the switch's tools keep it; the schema does not demand it).
\<close>

definition schema_ok :: "ovs_view option \<Rightarrow> bool" where
  "schema_ok view \<longleftrightarrow> rows_unique view
     \<and> distinct (map B_Name (view_bridges view)) \<and> distinct (map I_Name (view_interfaces view))
     \<and> list_all (\<lambda>i. map_ok (I_Status i) \<and> map_ok (I_Options i) \<and> map_ok (I_ExternalIDs i)) (view_interfaces view)
     \<and> distinct (concat (map B_Ports (view_bridges view)))
     \<and> distinct (concat (map P_Interfaces (view_ports view)))"

lemma distinct_concat_some:
  assumes "distinct (concat (map f ys))" and "distinct xs" and "set xs \<subseteq> set ys"
  shows "distinct (concat (map f xs))"
  using assms(2,3)
proof (induction xs)
  case (Cons x xs)
  have apart: "set (f x) \<inter> set (f y) = {}" if "y \<in> set xs" for y
  proof -
    have "x \<in> set ys" "y \<in> set ys" "x \<noteq> y"
      using Cons.prems that by auto
    with assms(1) show ?thesis
      by (induction ys) auto
  qed
  have "distinct (f x)"
    using assms(1) Cons.prems(2) by (auto simp: distinct_concat_iff)
  then show ?case
    using Cons apart by auto
qed simp

lemma distinct_map_filter:
  assumes "distinct us" and "\<And>u u' p. g u = Some p \<Longrightarrow> g u' = Some p \<Longrightarrow> u = u'"
  shows "distinct (List.map_filter g us)"
  using assms(1)
proof (induction us)
  case (Cons u us)
  have "p \<notin> set (List.map_filter g us)" if "g u = Some p" for p
    using Cons.prems assms(2) [OF that] by (auto simp: set_map_filter)
  with Cons show ?case
    by (auto simp: List.map_filter_simps split: option.split)
qed (simp add: List.map_filter_simps)

lemma walk_uuids_distinct:
  assumes "schema_ok view1" and "schema_ok view3"
  shows "distinct (map snd (walk_uuids view1 view3))"
proof -
  let ?get = "map_get (ports_by_uuid view1)"
  let ?us = "concat (map B_Ports (view_bridges view3))"
  have get: "?get u = Some p \<longleftrightarrow> p \<in> set (view_ports view1) \<and> P_UUID p = u" for u p
    using assms(1) by (simp add: ports_by_uuid_def keyed_get schema_ok_def rows_unique_def)
  have "concat (map P_Interfaces (List.map_filter ?get ?us)) = map snd (walk_uuids view1 view3)"
    unfolding concat_map_filter [symmetric]
    by (simp add: walk_uuids_def map_concat comp_def concat_map_concat concat_map_concat [where f = "\<lambda>x. x", simplified]
        option.case_distrib [of "map snd"] cong: option.case_cong)
  moreover have "distinct (concat (map P_Interfaces (List.map_filter ?get ?us)))"
  proof (rule distinct_concat_some [where ys = "view_ports view1"])
    show "distinct (concat (map P_Interfaces (view_ports view1)))"
      using assms(1) by (simp add: schema_ok_def)
    have "distinct ?us"
      using assms(2) by (simp add: schema_ok_def)
    then show "distinct (List.map_filter ?get ?us)"
      by (rule distinct_map_filter) (metis get)
    show "set (List.map_filter ?get ?us) \<subseteq> set (view_ports view1)"
    proof
      fix p
      assume "p \<in> set (List.map_filter ?get ?us)"
      then obtain u where "?get u = Some p"
        unfolding set_map_filter by blast
      then show "p \<in> set (view_ports view1)"
        using get by blast
    qed
  qed
  ultimately show ?thesis by simp
qed

lemma walked_interface:
  assumes "rows_unique view" and "e \<in> set (List.map_filter (walk_row view) us)"
  shows "snd e \<in> set (view_interfaces view) \<and> (fst e, I_UUID (snd e)) \<in> set us"
  using assms
  by (auto simp: set_map_filter walk_row_def interfaces_by_uuid_def keyed_get rows_unique_def)

lemma walked_uuids_distinct:
  assumes "rows_unique view" and "distinct (map snd us)"
  shows "distinct (map (I_UUID \<circ> snd) (List.map_filter (walk_row view) us))"
  using assms(2)
proof (induction us)
  case (Cons u us)
  have "I_UUID i = snd u" if "walk_row view u = Some (b, i)" for b i
    using that assms(1)
    by (auto simp: walk_row_def interfaces_by_uuid_def keyed_get rows_unique_def split: prod.splits)
  moreover have "snd u \<notin> (I_UUID \<circ> snd) ` set (List.map_filter (walk_row view) us)"
    using Cons.prems walked_interface [OF assms(1), of _ us] by force
  ultimately show ?case
    using Cons by (auto simp: List.map_filter_simps split: option.split)
qed (simp add: List.map_filter_simps)

lemma walked_names_distinct:
  assumes "schema_ok view1" and "schema_ok view2" and "schema_ok view3"
  shows "distinct (map (I_Name \<circ> snd) (List.map_filter (walk_row view2) (walk_uuids view1 view3)))"
proof -
  let ?es = "List.map_filter (walk_row view2) (walk_uuids view1 view3)"
  have unique: "rows_unique view2" and names: "inj_on I_Name (set (view_interfaces view2))"
    using assms(2) by (auto simp: schema_ok_def distinct_map)
  have uuids: "distinct (map (I_UUID \<circ> snd) ?es)"
    by (rule walked_uuids_distinct [OF unique walk_uuids_distinct [OF assms(1,3)]])
  have "inj_on (I_Name \<circ> snd) (set ?es)"
  proof (rule inj_onI)
    fix x y
    assume xy: "x \<in> set ?es" "y \<in> set ?es" "(I_Name \<circ> snd) x = (I_Name \<circ> snd) y"
    then have "snd x = snd y"
      using walked_interface [OF unique xy(1)] walked_interface [OF unique xy(2)]
      by (intro inj_onD [OF names]) simp_all
    moreover have "inj_on (I_UUID \<circ> snd) (set ?es)"
      using uuids by (simp add: distinct_map)
    ultimately show "x = y"
      using xy(1,2) by (auto simp: inj_on_def)
  qed
  then show ?thesis
    using uuids by (auto simp: distinct_map)
qed

lemma walk_series:
  assumes "schema_ok view1" and "schema_ok view2" and "schema_ok view3"
    and "\<And>b i. i \<in> set (view_interfaces view2) \<Longrightarrow> distinct (map series (emit b i))"
    and "\<And>b i x. x \<in> set (emit b i) \<Longrightarrow> \<exists>as. ObsAttrs x = (''bridge'', b) # (''interface'', I_Name i) # as"
  shows "distinct (map series (interface_walk emit view1 view2 view3))"
  unfolding walk_pairs
proof (rule distinct_concat_keyed [OF walked_names_distinct [OF assms(1-3)],
      where tag = "\<lambda>s. snd (snd s ! 1)"])
  have "rows_unique view2"
    using assms(2) by (simp add: schema_ok_def)
  then show "distinct (map series (case e of (b, i) \<Rightarrow> emit (B_Name b) i))"
    if "e \<in> set (List.map_filter (walk_row view2) (walk_uuids view1 view3))" for e
    using that assms(4) walked_interface by (auto split: prod.split)
  show "snd (snd (series x) ! 1) = (I_Name \<circ> snd) e"
    if "x \<in> set (case e of (b, i) \<Rightarrow> emit (B_Name b) i)" for e x
    using that assms(5) by (fastforce simp: series_def split: prod.splits)
qed

lemma emitMap_series: "map_ok m \<Longrightarrow> distinct (map series (emitMap ord inst b i m))"
  unfolding emitMap_def by (rule distinct_entries_with [OF map_ok_go_range [THEN iffD2]]) (simp_all add: series_def)

lemma interfaces_series: "distinct (map series (interfaces_emit b i))"
  by (simp add: interfaces_emit_def series_def Let_def)

lemma interface_status_series:
  "map_ok (I_Status i) \<Longrightarrow> map_ok (I_Options i) \<Longrightarrow> map_ok (I_ExternalIDs i)
     \<Longrightarrow> distinct (map series (interface_status_emit ord b i))"
  by (auto simp: interface_status_emit_def emitMap_series) (auto simp: emitMap_def series_def)

lemma distinct_insts_series: "distinct (map ObsInst xs) \<Longrightarrow> distinct (map series xs)"
  by (auto simp: distinct_map series_def inj_on_def)

lemma opt_obs_append:
  "distinct (map ObsInst xs) \<Longrightarrow> n \<notin> set (map ObsInst xs) \<Longrightarrow> distinct (map ObsInst (opt_obs n v as @ xs))"
  by (simp add: opt_obs_def split: option.split)

lemma opt_obs_other:
  "n \<noteq> n' \<Longrightarrow> n \<notin> set (map ObsInst xs) \<Longrightarrow> n \<notin> set (map ObsInst (opt_obs n' v as @ xs))"
  by (cases v) (simp_all add: opt_obs_def)

lemma interface_info_series: "distinct (map series (interface_info_emit b i))"
  unfolding interface_info_emit_def Let_def
  by (intro distinct_insts_series opt_obs_append opt_obs_other) simp_all

text \<open>
  The report of datapath ports repeats a port when the switch lists it twice on a bridge, which
  nothing in the parser excludes: \<^verbatim>\<open>dpif/show\<close> is expected to list each port once.
\<close>

definition ports_once :: "dpif \<Rightarrow> bool" where
  "ports_once d \<longleftrightarrow>
     list_all (\<lambda>dp. list_all (\<lambda>br. distinct (Bridge_Ports (snd br))) (DP_Bridges (snd dp))) (DPIF_Datapaths d)"

lemma port_emit_inj: "inj_on (series \<circ> port_emit dp br) A"
  by (auto simp: inj_on_def series_def port_emit_def dest: format_int_inj intro: dpif_port.equality)

lemma bridge_ports_series:
  assumes "map_ok brs" and "\<forall>br \<in> set brs. distinct (Bridge_Ports (snd br))"
  shows "distinct (map series (concat (map (\<lambda>br. map (port_emit dp (fst br)) (Bridge_Ports (snd br))) brs)))"
proof (rule distinct_concat_keyed [where key = fst and tag = "\<lambda>s. snd (snd s ! 1)"])
  show "distinct (map fst brs)"
    using assms(1) by (rule map_ok_keys)
  show "distinct (map series (map (port_emit dp (fst br)) (Bridge_Ports (snd br))))" if "br \<in> set brs" for br
    using assms(2) that port_emit_inj by (simp add: distinct_map)
qed (auto simp: series_def port_emit_def)

lemma datapath_interfaces_series:
  assumes "UnixCtlOVS src = Some snap" and "SnapDPIF snap = Some d" and "dpif_ok d" and "ports_once d"
  shows "distinct (map series (datapath_interfaces_observe ord src))"
  unfolding datapath_interfaces_observe_def assms(1,2) option.case
proof (rule distinct_concat_keyed [where key = fst and tag = "snd \<circ> hd \<circ> snd"])
  show "distinct (map fst (go_range ord [''datapath-interfaces''] (DPIF_Datapaths d)))"
    using assms(3) by (simp add: dpif_ok_def datapaths_ok_def map_ok_def)
  show "distinct (map series (concat (map (\<lambda>br. map (port_emit (fst dp) (fst br)) (Bridge_Ports (snd br)))
      (go_range ord [''datapath-interfaces'', fst dp] (DP_Bridges (snd dp))))))"
    if "dp \<in> set (go_range ord [''datapath-interfaces''] (DPIF_Datapaths d))" for dp
    using assms(3,4) that
    by (intro bridge_ports_series)
      (auto simp: dpif_ok_def datapaths_ok_def datapath_ok_def ports_once_def list_all_iff split_beta)
qed (auto simp: series_def port_emit_def)

text \<open>For a snapshot as a refresh publishes it, the collectors of the appctl reports report each series once.\<close>

lemma snapshot_series_distinct:
  assumes "UnixCtlOVS src = Some snap" and "snapshot_ok snap"
    and "k \<in> {Memory_usage, Coverage_events, Upcalls, Datapath, Datapath_interfaces}"
    and "k = Datapath_interfaces \<Longrightarrow> pred_option ports_once (SnapDPIF snap)"
  shows "distinct (map series (kind_observe ord k src))"
proof -
  have "distinct (map series (memory_observe ord src))" and "distinct (map series (coverage_observe ord src))"
    using assms(1,2)
    by (auto simp: memory_observe_def coverage_observe_def snapshot_ok_def memory_ok_def coverage_ok_def series_def
        simp del: map_map split: option.splits intro!: distinct_entries)
  moreover have "distinct (map series (upcall_observe ord src))"
    using assms(1,2) upcall_series by (auto simp: upcall_observe_def snapshot_ok_def split: option.splits)
  moreover have "distinct (map series (datapath_observe ord src))"
    using assms(1,2) by (intro datapath_series) (simp_all add: snapshot_ok_def)
  moreover have "distinct (map series (datapath_interfaces_observe ord src))" if "k = Datapath_interfaces"
  proof (cases "SnapDPIF snap")
    case None
    then show ?thesis
      using assms(1) by (simp add: datapath_interfaces_observe_def)
  next
    case (Some d)
    then show ?thesis
      using assms(2,4) that by (intro datapath_interfaces_series [OF assms(1)]) (simp_all add: snapshot_ok_def)
  qed
  ultimately show ?thesis
    using assms(3) by auto
qed

text \<open>
  So do the collectors of the database, as long as it is in that form whenever one of its tables is read.
\<close>

lemma walk_at_series:
  assumes "\<And>r. schema_ok (cache_seen (at r))"
    and "\<And>b i. i \<in> set (view_interfaces (cache_seen (at Interfaces_read))) \<Longrightarrow> distinct (map series (emit b i))"
    and "\<And>b i x. x \<in> set (emit b i) \<Longrightarrow> \<exists>as. ObsAttrs x = (''bridge'', b) # (''interface'', I_Name i) # as"
  shows "distinct (map series (walk_at emit at))"
  using walk_series [where emit = emit, OF assms(1) assms(1) assms(1) assms(2) assms(3)]
  by (simp add: walk_at_seen)

lemma walk_collectors_series:
  assumes "\<And>r. schema_ok (cache_seen (at r))"
  shows "distinct (map series (walk_at interfaces_emit at))"
    and "distinct (map series (walk_at (interface_status_emit ord) at))"
    and "distinct (map series (walk_at interface_info_emit at))"
proof -
  show "distinct (map series (walk_at interfaces_emit at))"
    by (rule walk_at_series [OF assms interfaces_series]) (auto simp: interfaces_emit_def Let_def)
  show "distinct (map series (walk_at interface_info_emit at))"
    by (rule walk_at_series [OF assms interface_info_series])
      (auto simp: interface_info_emit_def opt_obs_def Let_def split: option.splits)
  have "distinct (map series (interface_status_emit ord b i))"
    if "i \<in> set (view_interfaces (cache_seen (at Interfaces_read)))" for b i
    using assms [of Interfaces_read] that
    by (intro interface_status_series) (simp_all add: schema_ok_def list_all_iff)
  then show "distinct (map series (walk_at (interface_status_emit ord) at))"
    by (rule walk_at_series [OF assms]) (auto simp: interface_status_emit_def emitMap_def)
qed

lemma bridges_series:
  assumes "schema_ok (cache_seen src)"
  shows "distinct (map series (bridges_observe src))"
  using assms
  by (auto simp: bridges_observe_def bridges_fold cache_seen_def schema_ok_def distinct_map series_def
      comp_def inj_on_def split: view_iface.splits)

lemma ports_series: "distinct (map series (ports_observe src))"
  by (simp add: ports_observe_def split: view_iface.split)

text \<open>Every collector, wherever the system stands at each of its reads.\<close>

lemma collector_series:
  assumes "\<And>r. pred_option snapshot_ok (UnixCtlOVS (at r))" and "\<And>r. schema_ok (cache_seen (at r))"
    and "\<And>r snap. k = Datapath_interfaces \<Longrightarrow> UnixCtlOVS (at r) = Some snap \<Longrightarrow> pred_option ports_once (SnapDPIF snap)"
  shows "distinct (map series (kind_observe_at ord k at))"
proof (cases "k \<in> {Bridges, Ports, Interfaces, Interface_status, Interface_info}")
  case True
  then show ?thesis
    using walk_collectors_series [OF assms(2)] bridges_series [OF assms(2)] ports_series by auto
next
  case False
  then have k: "kind_observe_at ord k at = kind_observe ord k (at Ports_read)"
      "k \<in> {Memory_usage, Coverage_events, Upcalls, Datapath, Datapath_interfaces}"
    by (cases k; simp)+
  show ?thesis
  proof (cases "UnixCtlOVS (at Ports_read)")
    case None
    with k(2) have "\<not> kind_dep k (Some (at Ports_read))"
      by (auto simp: UnixctlHas_def)
    then show ?thesis
      using collector.down_silent [OF kind_collector [of k]] k(1) by auto
  next
    case (Some snap)
    then show ?thesis
      using assms(1) [of Ports_read] assms(3) [of Ports_read] k
      by (simp only: k(1)) (intro snapshot_series_distinct [of _ snap]; simp)
  qed
qed

section \<open>Properties\<close>

text \<open>Every instrument with the collector that registers it.\<close>

definition all_instruments :: "(collector_kind \<times> instrument) list" where
  "all_instruments = concat (map (\<lambda>k. map (Pair k) (kind_instruments k)) all_kinds)"

lemma all_instruments_distinct: "distinct (map (InstName \<circ> snd) all_instruments)"
  by code_simp

lemma all_instruments_iff: "(k, i) \<in> set all_instruments \<longleftrightarrow> i \<in> set (kind_instruments k)"
  by (cases k) (auto simp: all_instruments_def all_kinds_def)

text \<open>
  The table of metrics in \<^verbatim>\<open>README.md\<close>, its alternatives in braces spelt out: name, type and source of each.
\<close>

definition readme_metrics :: "(string \<times> inst_kind \<times> string) list" where
  "readme_metrics =
     [(''ovs.bridge.ports.count'', Gauge, ''ovsdb''), (''ovs.bridges.count'', Gauge, ''ovsdb''),
      (''ovs.coverage.events'', Counter, ''unixctl''), (''ovs.datapath.cache.hit'', Counter, ''unixctl''),
      (''ovs.datapath.flows'', Gauge, ''unixctl''), (''ovs.datapath.interface.info'', Gauge, ''unixctl''),
      (''ovs.datapath.lookups'', Counter, ''unixctl''), (''ovs.datapath.masks.hit'', Counter, ''unixctl''),
      (''ovs.interface.errors'', Counter, ''ovsdb''), (''ovs.interface.drops'', Counter, ''ovsdb''),
      (''ovs.interface.collisions'', Counter, ''ovsdb''), (''ovs.interface.rx.bytes'', Counter, ''ovsdb''),
      (''ovs.interface.rx.packets'', Counter, ''ovsdb''), (''ovs.interface.tx.bytes'', Counter, ''ovsdb''),
      (''ovs.interface.tx.packets'', Counter, ''ovsdb''), (''ovs.interface.admin_state'', Gauge, ''ovsdb''),
      (''ovs.interface.external_ids'', Gauge, ''ovsdb''), (''ovs.interface.if_index'', Gauge, ''ovsdb''),
      (''ovs.interface.info'', Gauge, ''ovsdb''),
      (''ovs.interface.ingress_policing.rate'', Gauge, ''ovsdb''),
      (''ovs.interface.ingress_policing.burst'', Gauge, ''ovsdb''),
      (''ovs.interface.ingress_policing.kpkts_rate'', Gauge, ''ovsdb''),
      (''ovs.interface.ingress_policing.kpkts_burst'', Gauge, ''ovsdb''),
      (''ovs.interface.link_speed'', Gauge, ''ovsdb''), (''ovs.interface.link_state'', Gauge, ''ovsdb''),
      (''ovs.interface.mtu'', Gauge, ''ovsdb''), (''ovs.interface.of_port'', Gauge, ''ovsdb''),
      (''ovs.interface.options'', Gauge, ''ovsdb''), (''ovs.interface.status'', Gauge, ''ovsdb''),
      (''ovs.memory.usage'', Gauge, ''unixctl''), (''ovs.ports.count'', Gauge, ''ovsdb''),
      (''ovs.upcall.dump.duration'', Gauge, ''unixctl''),
      (''ovs.upcall.flows.current'', Gauge, ''unixctl''), (''ovs.upcall.flows.max'', Gauge, ''unixctl''),
      (''ovs.upcall.flows.limit'', Gauge, ''unixctl''), (''ovs.upcall.handler.keys'', Gauge, ''unixctl'')]"

text \<open>The source a collector depends on, by its dependency check.\<close>

definition kind_source :: "collector_kind \<Rightarrow> string" where
  "kind_source k =
     (if k \<in> {Bridges, Ports, Interfaces, Interface_status, Interface_info} then ''ovsdb'' else ''unixctl'')"

lemma kind_source_dep:
  "if kind_source k = ''ovsdb'' then kind_dep k = OVSViewAvailable else \<exists>present. kind_dep k = UnixctlHas present"
  by (cases k) (auto simp: kind_source_def)

lemma readme_metrics_distinct: "distinct (map fst readme_metrics)"
  by code_simp

lemma readme_metrics_complete:
  "set readme_metrics = (\<lambda>(k, i). (InstName i, InstKind i, kind_source k)) ` set all_instruments"
  by code_simp

text \<open>Property C20. Every observation a collector reports is of exactly one instrument of the whole
  program, and it is the collector's own: no metric name is registered twice or reported by two
  collectors. The README lists that metric once, with the type it is registered with and the source the
  collector depends on.\<close>

theorem observations_declared:
  assumes "x \<in> set (kind_observe_at ord k at)"
  shows "(\<exists>!e. e \<in> set all_instruments \<and> InstName (snd e) = ObsInst x)
    \<and> (\<exists>i \<in> set (kind_instruments k). InstName i = ObsInst x
         \<and> (\<forall>entry. entry \<in> set readme_metrics \<and> fst entry = ObsInst x
              \<longleftrightarrow> entry = (ObsInst x, InstKind i, kind_source k)))"
proof -
  have own: "ObsInst x \<in> set (map InstName (kind_instruments k))"
    by (rule declared_at [OF assms])
  have "inj_on (InstName \<circ> snd) (set all_instruments)"
    using all_instruments_distinct by (simp add: distinct_map)
  then have one: "e = e'" if "e \<in> set all_instruments" "e' \<in> set all_instruments"
      "InstName (snd e) = InstName (snd e')" for e e'
    using that by (intro inj_onD [of "InstName \<circ> snd" "set all_instruments"]) simp_all
  obtain i where i: "i \<in> set (kind_instruments k)" "InstName i = ObsInst x"
    using own by auto
  then have mine: "(k, i) \<in> set all_instruments"
    by (simp add: all_instruments_iff)
  have "(ObsInst x, InstKind i, kind_source k) \<in> set readme_metrics"
    unfolding readme_metrics_complete using mine i(2) by (intro image_eqI [of _ _ "(k, i)"]) simp_all
  moreover have "inj_on fst (set readme_metrics)"
    using readme_metrics_distinct by (simp add: distinct_map)
  ultimately have "entry \<in> set readme_metrics \<and> fst entry = ObsInst x
      \<longleftrightarrow> entry = (ObsInst x, InstKind i, kind_source k)" for entry
    by (auto simp: inj_on_def)
  moreover have "\<exists>!e. e \<in> set all_instruments \<and> InstName (snd e) = ObsInst x"
    using one mine i(2) by (intro ex1I [of _ "(k, i)"]) simp_all
  ultimately show ?thesis
    using i by blast
qed

section \<open>Examples\<close>

lemma ex_schema: "schema_ok ex_view"
  by (simp add: schema_ok_def rows_unique_def ex_rows map_ok_def walk_uuids_def ports_by_uuid_def)

theorem observations_declared_witness:
  "\<exists>!e. e \<in> set all_instruments \<and> InstName (snd e) = ''ovs.memory.usage''"
proof -
  have "observe ''ovs.memory.usage'' 5 [(''resource'', ''handlers'')]
      \<in> set (kind_observe_at ord Memory_usage (\<lambda>_. ex_source))"
    by (simp add: memory_observe_def ex_source_def)
  from observations_declared [OF this] show ?thesis by simp
qed

end
