(* ===== verification/Database.thy ===== *)
theory Database
  imports OvsModel Series
begin

text \<open>
  The databases the exporter reads: what a server holds that keeps to the schema of \<open>VswitchSchema\<close>, how the
  rows of such a database fit the structs of \<open>OvsModel\<close>, and what the interface collectors report of one.
  The server and the library that copies its tables are outside the repository; what is said of them here
  is the data model of RFC 7047: a column holds a set or a map of atoms with bounds on their number and
  their values, a strong reference leads to a row, the columns of an index identify a row.
\<close>

section \<open>Conforming databases\<close>

datatype atom_value = V_int int64 | V_bool bool | V_string string | V_uuid string

text \<open>The elements of a set in some order, each once; the entries of a map in some order, each key once.\<close>

datatype datum = Set_datum "atom_value list" | Map_datum "(atom_value \<times> atom_value) list"

type_synonym db_row = "string \<Rightarrow> datum option"

text \<open>The rows of each table with their UUIDs.\<close>

type_synonym database = "string \<Rightarrow> (string \<times> db_row) list"

definition at_least :: "int option \<Rightarrow> int \<Rightarrow> bool" where
  "at_least lo n = (case lo of None \<Rightarrow> True | Some l \<Rightarrow> l \<le> n)"

definition at_most :: "int option \<Rightarrow> int \<Rightarrow> bool" where
  "at_most hi n = (case hi of None \<Rightarrow> True | Some h \<Rightarrow> n \<le> h)"

definition atom_conforms :: "database \<Rightarrow> base_type \<Rightarrow> atom_value \<Rightarrow> bool" where
  "atom_conforms db b a =
     (case a of
        V_int n \<Rightarrow> Atom b = Integer_atom \<and> at_least (MinInteger b) (sint n) \<and> at_most (MaxInteger b) (sint n)
      | V_bool x \<Rightarrow> Atom b = Boolean_atom
      | V_string s \<Rightarrow> Atom b = String_atom \<and> (Enum b = [] \<or> s \<in> set (Enum b))
      | V_uuid u \<Rightarrow> Atom b = Uuid_atom
          \<and> (case RefTable b of None \<Rightarrow> True | Some t \<Rightarrow> u \<in> set (map fst (db t))))"

definition count_ok :: "column_type \<Rightarrow> nat \<Rightarrow> bool" where
  "count_ok t n \<longleftrightarrow> MinCount t \<le> n \<and> (case MaxCount t of None \<Rightarrow> True | Some hi \<Rightarrow> n \<le> hi)"

definition datum_conforms :: "database \<Rightarrow> column_type \<Rightarrow> datum \<Rightarrow> bool" where
  "datum_conforms db t d =
     (case d of
        Set_datum xs \<Rightarrow> ValueType t = None \<and> distinct xs \<and> count_ok t (length xs)
          \<and> list_all (atom_conforms db (KeyType t)) xs
      | Map_datum kvs \<Rightarrow>
          (case ValueType t of
             None \<Rightarrow> False
           | Some v \<Rightarrow> distinct (map fst kvs) \<and> count_ok t (length kvs)
               \<and> list_all (\<lambda>(k, x). atom_conforms db (KeyType t) k \<and> atom_conforms db v x) kvs))"

definition column_conforms :: "database \<Rightarrow> db_row \<Rightarrow> column \<Rightarrow> bool" where
  "column_conforms db r c = (case r (ColumnName c) of None \<Rightarrow> False | Some d \<Rightarrow> datum_conforms db (ColumnType c) d)"

definition table_conforms :: "database \<Rightarrow> table_schema \<Rightarrow> (string \<times> db_row) list \<Rightarrow> bool" where
  "table_conforms db ts rows \<longleftrightarrow> distinct (map fst rows)
     \<and> list_all (\<lambda>(u, r). list_all (column_conforms db r) (Columns ts)) rows
     \<and> list_all (\<lambda>ix. distinct (map (\<lambda>(u, r). map r ix) rows)) (Indexes ts)"

definition conforms :: "database_schema \<Rightarrow> database \<Rightarrow> bool" where
  "conforms sch db \<longleftrightarrow> list_all (\<lambda>(t, ts). table_conforms db ts (db t)) (Tables sch)"

section \<open>Rows and structs\<close>

text \<open>
  A field of a struct can hold the value of a column: a plain field exactly one element, a pointer at most
  one, a slice any number, a map a map; and the value of a named string type is one of its constants.
\<close>

definition atom_fits :: "row_struct \<Rightarrow> go_atom \<Rightarrow> atom_value \<Rightarrow> bool" where
  "atom_fits st g a =
     (case g of
        G_int \<Rightarrow> (case a of V_int n \<Rightarrow> True | _ \<Rightarrow> False)
      | G_bool \<Rightarrow> (case a of V_bool x \<Rightarrow> True | _ \<Rightarrow> False)
      | G_string \<Rightarrow> (case a of V_string s \<Rightarrow> True | V_uuid u \<Rightarrow> True | _ \<Rightarrow> False)
      | G_alias n \<Rightarrow>
          (case a of
             V_string s \<Rightarrow> (case map_of (Aliases st) n of None \<Rightarrow> False | Some cs \<Rightarrow> s \<in> set (map snd cs))
           | _ \<Rightarrow> False))"

definition datum_fits :: "row_struct \<Rightarrow> go_type \<Rightarrow> datum \<Rightarrow> bool" where
  "datum_fits st g d =
     (case d of
        Set_datum xs \<Rightarrow>
          (case g of
             Plain a \<Rightarrow> length xs = 1 \<and> list_all (atom_fits st a) xs
           | Pointer a \<Rightarrow> length xs \<le> 1 \<and> list_all (atom_fits st a) xs
           | Slice a \<Rightarrow> list_all (atom_fits st a) xs
           | Map k v \<Rightarrow> False)
      | Map_datum kvs \<Rightarrow>
          (case g of
             Map k v \<Rightarrow> list_all (\<lambda>(x, y). atom_fits st k x \<and> atom_fits st v y) kvs
           | _ \<Rightarrow> False))"

definition field_fits :: "row_struct \<Rightarrow> db_row \<Rightarrow> struct_field \<Rightarrow> bool" where
  "field_fits st r f =
     (if OvsdbTag f = ''_uuid'' then FieldType f = Plain G_string
      else (case r (OvsdbTag f) of None \<Rightarrow> False | Some d \<Rightarrow> datum_fits st (FieldType f) d))"

text \<open>A check on the schema and the struct alone that is enough.\<close>

definition atom_typed :: "row_struct \<Rightarrow> base_type \<Rightarrow> go_atom \<Rightarrow> bool" where
  "atom_typed st b g =
     (case Atom b of
        Integer_atom \<Rightarrow> g = G_int
      | Boolean_atom \<Rightarrow> g = G_bool
      | Uuid_atom \<Rightarrow> g = G_string
      | String_atom \<Rightarrow>
          (case g of
             G_string \<Rightarrow> True
           | G_alias n \<Rightarrow> Enum b \<noteq> []
               \<and> (case map_of (Aliases st) n of None \<Rightarrow> False | Some cs \<Rightarrow> set (Enum b) \<subseteq> set (map snd cs))
           | _ \<Rightarrow> False))"

definition type_typed :: "row_struct \<Rightarrow> column_type \<Rightarrow> go_type \<Rightarrow> bool" where
  "type_typed st t g =
     (case g of
        Plain a \<Rightarrow> ValueType t = None \<and> MinCount t = 1 \<and> MaxCount t = Some 1 \<and> atom_typed st (KeyType t) a
      | Pointer a \<Rightarrow> ValueType t = None \<and> MaxCount t = Some 1 \<and> atom_typed st (KeyType t) a
      | Slice a \<Rightarrow> ValueType t = None \<and> atom_typed st (KeyType t) a
      | Map k v \<Rightarrow>
          (case ValueType t of None \<Rightarrow> False | Some vt \<Rightarrow> atom_typed st (KeyType t) k \<and> atom_typed st vt v))"

definition column_typed :: "row_struct \<Rightarrow> struct_field \<Rightarrow> column \<Rightarrow> bool" where
  "column_typed st f c \<longleftrightarrow> OvsdbTag f = ColumnName c \<and> type_typed st (ColumnType c) (FieldType f)"

definition struct_typed :: "row_struct \<Rightarrow> table_schema \<Rightarrow> bool" where
  "struct_typed st ts \<longleftrightarrow>
     (case Fields st of
        [] \<Rightarrow> False
      | f # fs \<Rightarrow> OvsdbTag f = ''_uuid'' \<and> FieldType f = Plain G_string \<and> list_all2 (column_typed st) fs (Columns ts))"

lemma atom_typed_fits: "atom_typed st b g \<Longrightarrow> atom_conforms db b a \<Longrightarrow> atom_fits st g a"
  by (cases a; cases g) (auto simp: atom_typed_def atom_conforms_def atom_fits_def split: option.splits)

lemma type_typed_fits:
  assumes "type_typed st t g" and "datum_conforms db t d"
  shows "datum_fits st g d"
  using assms
  by (cases d; cases g)
    (auto simp: type_typed_def datum_conforms_def datum_fits_def count_ok_def list_all_iff
      intro: atom_typed_fits split: option.splits)

lemma column_typed_fits:
  assumes "column_typed st f c" and "column_conforms db r c"
  shows "field_fits st r f \<or> OvsdbTag f = ''_uuid''"
  using assms type_typed_fits
  by (auto simp: column_typed_def column_conforms_def field_fits_def split: option.splits)

lemma struct_typed_fits:
  assumes "struct_typed st ts" and "list_all (column_conforms db r) (Columns ts)"
    and "list_all (\<lambda>c. ColumnName c \<noteq> ''_uuid'') (Columns ts)"
  shows "list_all (field_fits st r) (Fields st)"
proof -
  obtain f fs where fs: "Fields st = f # fs" "field_fits st r f" "list_all2 (column_typed st) fs (Columns ts)"
    using assms(1) by (auto simp: struct_typed_def field_fits_def split: list.splits)
  have "field_fits st r g" if g: "g \<in> set fs" for g
  proof -
    obtain c where c: "c \<in> set (Columns ts)" "column_typed st g c"
      using g fs(3) by (metis in_set_conv_nth list_all2_conv_all_nth)
    then have "column_conforms db r c" and "OvsdbTag g \<noteq> ''_uuid''"
      using assms(2,3) by (auto simp: list_all_iff column_typed_def)
    then show ?thesis
      using column_typed_fits [OF c(2)] by blast
  qed
  then show ?thesis
    using fs by (simp add: list_all_iff)
qed

lemma struct_typed_tags: "struct_typed st ts \<Longrightarrow> map OvsdbTag (Fields st) = ''_uuid'' # map ColumnName (Columns ts)"
  by (auto simp: struct_typed_def column_typed_def list_all2_conv_all_nth intro!: nth_equalityI split: list.splits)

text \<open>The tables of the model are those of the schema, and their structs pass the check.\<close>

lemma model_typed: "list_all2 (\<lambda>(n, st) (t, ts). n = t \<and> struct_typed st ts) FullDatabaseModel (Tables schema)"
  by code_simp

lemma no_uuid_column: "list_all (\<lambda>(t, ts). list_all (\<lambda>c. ColumnName c \<noteq> ''_uuid'') (Columns ts)) (Tables schema)"
  by code_simp

lemma model_struct:
  assumes "(t, st) \<in> set FullDatabaseModel"
  obtains ts where "(t, ts) \<in> set (Tables schema)" and "struct_typed st ts"
proof -
  obtain i where i: "i < length FullDatabaseModel" "FullDatabaseModel ! i = (t, st)"
    using assms by (auto simp: in_set_conv_nth)
  moreover obtain t' ts where ts: "Tables schema ! i = (t', ts)"
    by force
  ultimately have "t = t'" and "struct_typed st ts"
    using list_all2_nthD [OF model_typed i(1)] by simp_all
  moreover have "Tables schema ! i \<in> set (Tables schema)"
    using i(1) list_all2_lengthD [OF model_typed] by simp
  ultimately show ?thesis
    using that ts by simp
qed

lemma conforms_table:
  assumes "conforms sch db" and "(t, ts) \<in> set (Tables sch)"
  shows "table_conforms db ts (db t)"
  using assms by (auto simp: conforms_def list_all_iff)

section \<open>The cache of a database\<close>

text \<open>The column a field is tagged with.\<close>

definition tag_of :: "string \<Rightarrow> string \<Rightarrow> string" where
  "tag_of t n =
     (case map_of FullDatabaseModel t of
        None \<Rightarrow> []
      | Some st \<Rightarrow> (case find (\<lambda>f. FieldName f = n) (Fields st) of None \<Rightarrow> [] | Some f \<Rightarrow> OvsdbTag f))"

definition strings :: "string list \<Rightarrow> datum" where
  "strings xs = Set_datum (map V_string xs)"

definition uuids :: "string list \<Rightarrow> datum" where
  "uuids xs = Set_datum (map V_uuid xs)"

definition opt_list :: "'a option \<Rightarrow> 'a list" where
  "opt_list x = (case x of None \<Rightarrow> [] | Some v \<Rightarrow> [v])"

definition string_map :: "(string, string) gomap \<Rightarrow> datum" where
  "string_map m = Map_datum (map (\<lambda>(k, v). (V_string k, V_string v)) m)"

text \<open>
  The rows of the cache are those of the database, each field the value of the column of its tag. Only the
  fields the properties need are listed.
\<close>

definition presents_bridge :: "string \<times> db_row \<Rightarrow> bridge_row \<Rightarrow> bool" where
  "presents_bridge = (\<lambda>(u, r) b. B_UUID b = u
     \<and> r (tag_of ''Bridge'' ''Name'') = Some (strings [B_Name b])
     \<and> r (tag_of ''Bridge'' ''Ports'') = Some (uuids (B_Ports b)))"

definition presents_port :: "string \<times> db_row \<Rightarrow> port_row \<Rightarrow> bool" where
  "presents_port = (\<lambda>(u, r) p. P_UUID p = u
     \<and> r (tag_of ''Port'' ''Name'') = Some (strings [P_Name p])
     \<and> r (tag_of ''Port'' ''Interfaces'') = Some (uuids (P_Interfaces p)))"

definition presents_interface :: "string \<times> db_row \<Rightarrow> interface_row \<Rightarrow> bool" where
  "presents_interface = (\<lambda>(u, r) i. I_UUID i = u
     \<and> r (tag_of ''Interface'' ''Name'') = Some (strings [I_Name i])
     \<and> r (tag_of ''Interface'' ''AdminState'') = Some (strings (opt_list (I_AdminState i)))
     \<and> r (tag_of ''Interface'' ''LinkState'') = Some (strings (opt_list (I_LinkState i)))
     \<and> r (tag_of ''Interface'' ''Status'') = Some (string_map (I_Status i))
     \<and> r (tag_of ''Interface'' ''Options'') = Some (string_map (I_Options i))
     \<and> r (tag_of ''Interface'' ''ExternalIDs'') = Some (string_map (I_ExternalIDs i)))"

definition presents :: "database \<Rightarrow> ovs_view option \<Rightarrow> bool" where
  "presents db view \<longleftrightarrow> list_all2 presents_bridge (db ''Bridge'') (view_bridges view)
     \<and> list_all2 presents_port (db ''Port'') (view_ports view)
     \<and> list_all2 presents_interface (db ''Interface'') (view_interfaces view)"

lemma tags:
  "tag_of ''Bridge'' ''Name'' = ''name''" "tag_of ''Bridge'' ''Ports'' = ''ports''"
  "tag_of ''Port'' ''Name'' = ''name''" "tag_of ''Port'' ''Interfaces'' = ''interfaces''"
  "tag_of ''Interface'' ''Name'' = ''name''" "tag_of ''Interface'' ''AdminState'' = ''admin_state''"
  "tag_of ''Interface'' ''LinkState'' = ''link_state''" "tag_of ''Interface'' ''Status'' = ''status''"
  "tag_of ''Interface'' ''Options'' = ''options''" "tag_of ''Interface'' ''ExternalIDs'' = ''external_ids''"
  by code_simp+

text \<open>What the schema says of these columns.\<close>

definition column_named :: "table_schema \<Rightarrow> string \<Rightarrow> column_type option" where
  "column_named ts n = map_option ColumnType (find (\<lambda>c. ColumnName c = n) (Columns ts))"

lemma schema_tables:
  "(''Bridge'', table_Bridge) \<in> set (Tables schema)" "(''Port'', table_Port) \<in> set (Tables schema)"
  "(''Interface'', table_Interface) \<in> set (Tables schema)"
  by (simp_all add: schema_def)

lemma name_indexes:
  "[''name''] \<in> set (Indexes table_Bridge)" "[''name''] \<in> set (Indexes table_Port)"
  "[''name''] \<in> set (Indexes table_Interface)"
  by (simp_all add: table_Bridge_def table_Port_def table_Interface_def)

lemma read_types:
  "column_named table_Bridge ''ports'' = Some (many 0 None (ref ''Port''))"
  "column_named table_Port ''interfaces'' = Some (many 1 None (ref ''Interface''))"
  "column_named table_Interface ''admin_state'' = Some (optional (enumeration [''up'', ''down'']))"
  "column_named table_Interface ''link_state'' = Some (optional (enumeration [''up'', ''down'']))"
  "column_named table_Interface ''status'' = Some (mapping_of string_base string_base)"
  "column_named table_Interface ''options'' = Some (mapping_of string_base string_base)"
  "column_named table_Interface ''external_ids'' = Some (mapping_of string_base string_base)"
  by code_simp+

lemma named_column_conforms:
  assumes "table_conforms db ts rows" and "(u, r) \<in> set rows" and "column_named ts n = Some t" and "r n = Some d"
  shows "datum_conforms db t d"
proof -
  obtain c where c: "find (\<lambda>c. ColumnName c = n) (Columns ts) = Some c" "ColumnType c = t"
    using assms(3) by (auto simp: column_named_def)
  then have "c \<in> set (Columns ts)" "ColumnName c = n"
    by (auto simp: find_Some_iff in_set_conv_nth)
  with c(2) show ?thesis
    using assms(1,2,4) by (fastforce simp: table_conforms_def list_all_iff column_conforms_def)
qed

lemma presented:
  assumes "list_all2 P rows xs" and "x \<in> set xs"
  shows "\<exists>u r. (u, r) \<in> set rows \<and> P (u, r) x"
  using assms by (induction rule: list_all2_induct) auto

lemma presented_uuids:
  assumes "list_all2 P rows xs" and "\<And>u r x. P (u, r) x \<Longrightarrow> key x = u"
  shows "map key xs = map fst rows"
  using assms(1) by (induction rule: list_all2_induct) (auto dest: assms(2))

lemma presented_names:
  assumes "list_all2 P rows xs" and "\<And>u r x. P (u, r) x \<Longrightarrow> r n = Some (strings [name x])"
    and "distinct (map (\<lambda>(u, r). map r [n]) rows)"
  shows "distinct (map name xs)"
proof -
  have "map (\<lambda>(u, r). map r [n]) rows = map (\<lambda>x. [Some (strings [name x])]) xs"
    using assms(1) by (induction rule: list_all2_induct) (auto dest: assms(2))
  then have "distinct (map (\<lambda>s. [Some (strings [s])]) (map name xs))"
    using assms(3) by (simp add: comp_def)
  then show ?thesis
    by (simp only: distinct_map)
qed

lemma indexed:
  "table_conforms db ts rows \<Longrightarrow> ix \<in> set (Indexes ts) \<Longrightarrow> distinct (map (\<lambda>(u, r). map r ix) rows)"
  by (simp add: table_conforms_def list_all_iff)

lemma string_map_conforms: "datum_conforms db (mapping_of string_base string_base) (string_map m) \<Longrightarrow> map_ok m"
  by (auto simp: datum_conforms_def mapping_of_def string_map_def map_ok_def comp_def split_beta distinct_map inj_on_def)

lemma references_conform:
  "datum_conforms db (many lo hi (ref t)) (uuids us) \<Longrightarrow> set us \<subseteq> set (map fst (db t)) \<and> lo \<le> length us \<and> distinct us"
  by (auto simp: datum_conforms_def many_def ref_def base_of_def uuids_def count_ok_def atom_conforms_def list_all_iff
      distinct_map)

lemma state_conforms:
  "datum_conforms db (optional (enumeration vs)) (strings (opt_list s)) \<Longrightarrow> vs \<noteq> [] \<Longrightarrow> s = None \<or> the s \<in> set vs"
  by (cases s) (auto simp: datum_conforms_def optional_def enumeration_def string_base_def base_of_def strings_def
      opt_list_def atom_conforms_def)

section \<open>The view of a conforming database\<close>

lemma conforming_tables:
  assumes "conforms schema db"
  shows "table_conforms db table_Bridge (db ''Bridge'')" "table_conforms db table_Port (db ''Port'')"
    "table_conforms db table_Interface (db ''Interface'')"
  using assms by (auto intro: conforms_table schema_tables)

lemmas presents_defs = presents_bridge_def presents_port_def presents_interface_def

lemma conforming_unique:
  assumes "conforms schema db" and "presents db view"
  shows "rows_unique view" and "distinct (map B_Name (view_bridges view))"
    and "distinct (map I_Name (view_interfaces view))"
proof -
  note tables = conforming_tables [OF assms(1)]
  have rows: "list_all2 presents_bridge (db ''Bridge'') (view_bridges view)"
      "list_all2 presents_port (db ''Port'') (view_ports view)"
      "list_all2 presents_interface (db ''Interface'') (view_interfaces view)"
    using assms(2) by (simp_all add: presents_def)
  have "map P_UUID (view_ports view) = map fst (db ''Port'')"
      "map I_UUID (view_interfaces view) = map fst (db ''Interface'')"
    by (rule presented_uuids [OF rows(2)], simp add: presents_defs)
      (rule presented_uuids [OF rows(3)], simp add: presents_defs)
  then show "rows_unique view"
    using tables by (simp add: rows_unique_def table_conforms_def)
  show "distinct (map B_Name (view_bridges view))"
    by (rule presented_names [OF rows(1) _ indexed [OF tables(1) name_indexes(1)]]) (simp add: presents_defs tags)
  show "distinct (map I_Name (view_interfaces view))"
    by (rule presented_names [OF rows(3) _ indexed [OF tables(3) name_indexes(3)]]) (simp add: presents_defs tags)
qed

lemma conforming_references:
  assumes "conforms schema db" and "presents db view"
  shows "b \<in> set (view_bridges view) \<Longrightarrow> u \<in> set (B_Ports b) \<Longrightarrow> \<exists>p \<in> set (view_ports view). P_UUID p = u"
    and "p \<in> set (view_ports view) \<Longrightarrow> P_Interfaces p \<noteq> []"
    and "p \<in> set (view_ports view) \<Longrightarrow> v \<in> set (P_Interfaces p) \<Longrightarrow> \<exists>i \<in> set (view_interfaces view). I_UUID i = v"
proof -
  note tables = conforming_tables [OF assms(1)]
  have rows: "list_all2 presents_bridge (db ''Bridge'') (view_bridges view)"
      "list_all2 presents_port (db ''Port'') (view_ports view)"
      "list_all2 presents_interface (db ''Interface'') (view_interfaces view)"
    using assms(2) by (simp_all add: presents_def)
  have keys: "map P_UUID (view_ports view) = map fst (db ''Port'')"
      "map I_UUID (view_interfaces view) = map fst (db ''Interface'')"
    by (rule presented_uuids [OF rows(2)], simp add: presents_defs)
      (rule presented_uuids [OF rows(3)], simp add: presents_defs)
  have ports: "set (B_Ports b) \<subseteq> set (map P_UUID (view_ports view))" if b: "b \<in> set (view_bridges view)" for b
  proof -
    obtain u r where r: "(u, r) \<in> set (db ''Bridge'')" "r ''ports'' = Some (uuids (B_Ports b))"
      using presented [OF rows(1) b] by (auto simp: presents_defs tags)
    show ?thesis
      using references_conform [OF named_column_conforms [OF tables(1) r(1) read_types(1) r(2)]] keys(1) by simp
  qed
  then show "\<exists>p \<in> set (view_ports view). P_UUID p = u" if "b \<in> set (view_bridges view)" "u \<in> set (B_Ports b)"
    using that by fastforce
  have ifaces: "set (P_Interfaces p) \<subseteq> set (map I_UUID (view_interfaces view)) \<and> P_Interfaces p \<noteq> []"
    if p: "p \<in> set (view_ports view)" for p
  proof -
    obtain u r where r: "(u, r) \<in> set (db ''Port'')" "r ''interfaces'' = Some (uuids (P_Interfaces p))"
      using presented [OF rows(2) p] by (auto simp: presents_defs tags)
    show ?thesis
      using references_conform [OF named_column_conforms [OF tables(2) r(1) read_types(2) r(2)]] keys(2) by auto
  qed
  then show "P_Interfaces p \<noteq> []" if "p \<in> set (view_ports view)"
    using that by blast
  show "\<exists>i \<in> set (view_interfaces view). I_UUID i = v" if "p \<in> set (view_ports view)" "v \<in> set (P_Interfaces p)"
    using ifaces [OF that(1)] that(2) by fastforce
qed

lemma conforming_interface:
  assumes "conforms schema db" and "presents db view" and "i \<in> set (view_interfaces view)"
  shows "map_ok (I_Status i) \<and> map_ok (I_Options i) \<and> map_ok (I_ExternalIDs i)"
    and "I_AdminState i \<in> {None, Some ''up'', Some ''down''}" and "I_LinkState i \<in> {None, Some ''up'', Some ''down''}"
proof -
  note table = conforming_tables(3) [OF assms(1)]
  have "list_all2 presents_interface (db ''Interface'') (view_interfaces view)"
    using assms(2) by (simp add: presents_def)
  then obtain u r where r: "(u, r) \<in> set (db ''Interface'')" "presents_interface (u, r) i"
    using presented [OF _ assms(3)] by blast
  note column = named_column_conforms [OF table r(1)]
  have cols: "r ''status'' = Some (string_map (I_Status i))" "r ''options'' = Some (string_map (I_Options i))"
    "r ''external_ids'' = Some (string_map (I_ExternalIDs i))"
    "r ''admin_state'' = Some (strings (opt_list (I_AdminState i)))"
    "r ''link_state'' = Some (strings (opt_list (I_LinkState i)))"
    using r(2) by (simp_all add: presents_defs tags)
  show "map_ok (I_Status i) \<and> map_ok (I_Options i) \<and> map_ok (I_ExternalIDs i)"
    using column [OF read_types(5) cols(1)] column [OF read_types(6) cols(2)] column [OF read_types(7) cols(3)]
    by (simp add: string_map_conforms)
  show "I_AdminState i \<in> {None, Some ''up'', Some ''down''}"
    using state_conforms [OF column [OF read_types(3) cols(4)]] by (cases "I_AdminState i") auto
  show "I_LinkState i \<in> {None, Some ''up'', Some ''down''}"
    using state_conforms [OF column [OF read_types(4) cols(5)]] by (cases "I_LinkState i") auto
qed

text \<open>The two state gauges of the interface information.\<close>

lemma opt_obs_iff: "x \<in> set (opt_obs inst v as) \<longleftrightarrow> (\<exists>k. v = Some k \<and> x = observe inst k as)"
  by (cases v) (auto simp: opt_obs_def)

lemma state_emitted:
  assumes "inst = ''ovs.interface.admin_state'' \<and> state = I_AdminState
    \<or> inst = ''ovs.interface.link_state'' \<and> state = I_LinkState"
  shows "observe inst n [(''bridge'', x), (''interface'', m)] \<in> set (interface_info_emit y j)
    \<longleftrightarrow> x = y \<and> m = I_Name j \<and> map_option up_value (state j) = Some n"
  using assms
  by (elim disjE conjE; simp add: interface_info_emit_def Let_def opt_obs_iff; blast)

section \<open>Properties\<close>

text \<open>Property C28. Every row a server can hold fits the struct the exporter registers for its table: for every
  database that conforms to the schema, every field of the struct is the UUID or can hold the value of its
  column (a value for a plain field, at most one for a pointer, and a named constant of the field's type
  where the column is an enumeration), and every column of the table has its field.\<close>

theorem rows_fit_structs:
  assumes "conforms schema db" and "(t, st) \<in> set FullDatabaseModel" and "(u, r) \<in> set (db t)"
  shows "list_all (field_fits st r) (Fields st)
    \<and> (\<exists>ts. (t, ts) \<in> set (Tables schema) \<and> map OvsdbTag (Fields st) = ''_uuid'' # map ColumnName (Columns ts))"
proof -
  obtain ts where ts: "(t, ts) \<in> set (Tables schema)" "struct_typed st ts"
    using assms(2) by (rule model_struct)
  have "list_all (column_conforms db r) (Columns ts)"
    using conforms_table [OF assms(1) ts(1)] assms(3) by (auto simp: table_conforms_def list_all_iff)
  moreover have "list_all (\<lambda>c. ColumnName c \<noteq> ''_uuid'') (Columns ts)"
    using no_uuid_column ts(1) by (auto simp: list_all_iff)
  ultimately have "list_all (field_fits st r) (Fields st)"
    by (rule struct_typed_fits [OF ts(2)])
  then show ?thesis
    by (intro conjI exI [of _ ts] ts(1) struct_typed_tags [OF ts(2)])
qed

text \<open>Property C29. What the interface collectors report of a database that conforms to the schema, when the cache
  presents it and the tables are read at one moment: nothing is skipped, since every port of a bridge is
  there with at least one interface, and every such interface is there and reported for the bridge by all three
  collectors; and the conditions under which no series is reported twice hold as soon as no port is on two
  bridges and no interface on two ports.\<close>

theorem database_reported:
  assumes "conforms schema db" and "presents db view" and "OVS src = View_iface view"
  shows "(\<forall>b \<in> set (view_bridges view). \<forall>u \<in> set (B_Ports b). \<exists>p \<in> set (view_ports view). P_UUID p = u
      \<and> P_Interfaces p \<noteq> []
      \<and> (\<forall>v \<in> set (P_Interfaces p). \<exists>i \<in> set (view_interfaces view). I_UUID i = v
          \<and> set (interfaces_emit (B_Name b) i) \<subseteq> set (kind_observe ord Interfaces src)
          \<and> set (interface_status_emit ord (B_Name b) i) \<subseteq> set (kind_observe ord Interface_status src)
          \<and> set (interface_info_emit (B_Name b) i) \<subseteq> set (kind_observe ord Interface_info src)))
    \<and> (schema_ok view \<longleftrightarrow> distinct (concat (map B_Ports (view_bridges view)))
        \<and> distinct (concat (map P_Interfaces (view_ports view))))"
proof -
  note unique = conforming_unique [OF assms(1,2)]
  note refs = conforming_references [OF assms(1,2)]
  have reported: "set (emit (B_Name b) i) \<subseteq> set (interface_walk emit view view view)"
    if a: "b \<in> set (view_bridges view)" "p \<in> set (view_ports view)" "P_UUID p \<in> set (B_Ports b)"
      "i \<in> set (view_interfaces view)" "I_UUID i \<in> set (P_Interfaces p)"
    for b p i and emit :: "string \<Rightarrow> interface_row \<Rightarrow> observation list"
    using a walk_linked [OF unique(1,1), of _ emit view] unfolding linked_def by blast
  have "list_all (\<lambda>i. map_ok (I_Status i) \<and> map_ok (I_Options i) \<and> map_ok (I_ExternalIDs i)) (view_interfaces view)"
    using conforming_interface(1) [OF assms(1,2)] by (auto simp: list_all_iff)
  then have "schema_ok view \<longleftrightarrow> distinct (concat (map B_Ports (view_bridges view)))
      \<and> distinct (concat (map P_Interfaces (view_ports view)))"
    using unique by (simp add: schema_ok_def)
  moreover have "\<exists>i \<in> set (view_interfaces view). I_UUID i = v
      \<and> set (interfaces_emit (B_Name b) i) \<subseteq> set (kind_observe ord Interfaces src)
      \<and> set (interface_status_emit ord (B_Name b) i) \<subseteq> set (kind_observe ord Interface_status src)
      \<and> set (interface_info_emit (B_Name b) i) \<subseteq> set (kind_observe ord Interface_info src)"
    if a: "b \<in> set (view_bridges view)" "p \<in> set (view_ports view)" "P_UUID p \<in> set (B_Ports b)"
      "v \<in> set (P_Interfaces p)" for b p v
  proof -
    obtain i where "i \<in> set (view_interfaces view)" "I_UUID i = v"
      using refs(3) [OF a(2,4)] by blast
    then show ?thesis
      using reported [OF a(1-3), of i] a(4) assms(3)
      by (auto simp: interfaces_observe_def interface_status_observe_def interface_info_observe_def)
  qed
  ultimately show ?thesis
    using refs(1,2) by blast
qed

text \<open>Property C30. The state gauges are exact: of a conforming database, an interface attached to a bridge is
  reported with the value 1 exactly when the state in its row is up, and with the value 0 exactly when it
  is down; without a state it has no such series.\<close>

theorem states_reported:
  assumes "conforms schema db" and "presents db view" and "OVS src = View_iface view"
    and "linked view view view b i"
    and "(inst, state) \<in> {(''ovs.interface.admin_state'', I_AdminState), (''ovs.interface.link_state'', I_LinkState)}"
  shows "observe inst n [(''bridge'', B_Name b), (''interface'', I_Name i)] \<in> set (kind_observe ord Interface_info src)
    \<longleftrightarrow> (n = 1 \<and> state i = Some ''up'') \<or> (n = 0 \<and> state i = Some ''down'')"
proof -
  note unique = conforming_unique [OF assms(1,2)]
  have kind: "inst = ''ovs.interface.admin_state'' \<and> state = I_AdminState
      \<or> inst = ''ovs.interface.link_state'' \<and> state = I_LinkState"
    using assms(5) by auto
  have iface: "i \<in> set (view_interfaces view)"
    using assms(4) by (simp add: linked_def)
  have known: "state i \<in> {None, Some ''up'', Some ''down''}"
    using kind by (elim disjE conjE) (simp_all only: conforming_interface(2,3) [OF assms(1,2) iface])
  have same: "j = i" if "linked view view view a j" "I_Name j = I_Name i" for a j
    using that assms(4) unique(3) by (auto simp: linked_def distinct_map dest: inj_onD)
  have "observe inst n [(''bridge'', B_Name b), (''interface'', I_Name i)] \<in> set (kind_observe ord Interface_info src)
      \<longleftrightarrow> (\<exists>a j. linked view view view a j \<and> B_Name b = B_Name a \<and> I_Name i = I_Name j
          \<and> map_option up_value (state j) = Some n)"
    unfolding kind_observe.simps interface_info_observe_def assms(3) view_iface.case
      walk_linked [OF unique(1,1)] state_emitted [OF kind] by (rule refl)
  also have "\<dots> \<longleftrightarrow> map_option up_value (state i) = Some n"
    using same by (auto intro: assms(4))
  also have "\<dots> \<longleftrightarrow> (n = 1 \<and> state i = Some ''up'') \<or> (n = 0 \<and> state i = Some ''down'')"
    using known unfolding insert_iff empty_iff
    by (elim disjE FalseE) (simp_all add: up_value_def eq_commute [where b = n])
  finally show ?thesis .
qed

section \<open>Example\<close>

text \<open>A database with one bridge, one port and one interface, every other column at its least value.\<close>

definition default_atom :: "base_type \<Rightarrow> atom_value" where
  "default_atom b =
     (case Atom b of
        Integer_atom \<Rightarrow> V_int (case MinInteger b of None \<Rightarrow> 0 | Some lo \<Rightarrow> word_of_int lo)
      | Boolean_atom \<Rightarrow> V_bool False
      | String_atom \<Rightarrow> V_string (if Enum b = [] then [] else hd (Enum b))
      | Uuid_atom \<Rightarrow> V_uuid [])"

definition default_datum :: "column_type \<Rightarrow> datum" where
  "default_datum t =
     (case ValueType t of
        Some v \<Rightarrow> Map_datum []
      | None \<Rightarrow> Set_datum (if MinCount t = 0 then [] else [default_atom (KeyType t)]))"

definition default_row :: "table_schema \<Rightarrow> db_row" where
  "default_row ts = (\<lambda>n. map_option default_datum (column_named ts n))"

definition ex_database :: database where
  "ex_database t =
     (if t = ''Bridge'' then
        [(''b1'', (default_row table_Bridge)(''name'' \<mapsto> strings [''br0''], ''ports'' \<mapsto> uuids [''p1'']))]
      else if t = ''Port'' then
        [(''p1'', (default_row table_Port)(''name'' \<mapsto> strings [''eth0''], ''interfaces'' \<mapsto> uuids [''i1'']))]
      else if t = ''Interface'' then
        [(''i1'', (default_row table_Interface)(''name'' \<mapsto> strings [''eth0''], ''admin_state'' \<mapsto> strings [''up'']))]
      else [])"

lemma ex_database_conforms: "conforms schema ex_database"
  by code_simp

definition ex_db_view :: "ovs_view option" where
  "ex_db_view = Some \<lparr>Cache = Some [
     ''Bridge'' \<mapsto> [(''b1'', Some (Bridge_model (ex_bridge [''p1''])))],
     ''Port'' \<mapsto> [(''p1'', Some (Port_model (ex_port [''i1''])))],
     ''Interface'' \<mapsto> [(''i1'', Some (Interface_model ex_interface))]]\<rparr>"

lemma ex_db_rows:
  "view_bridges ex_db_view = [ex_bridge [''p1'']]" "view_ports ex_db_view = [ex_port [''i1'']]"
  "view_interfaces ex_db_view = [ex_interface]"
  by (simp_all add: ex_db_view_def view_bridges_def view_ports_def view_interfaces_def eachRow_def
      as_bridge_def as_port_def as_interface_def List.map_filter_simps)

lemma ex_database_presented: "presents ex_database ex_db_view"
proof -
  have "default_row table_Interface ''link_state'' = Some (strings [])"
    "default_row table_Interface ''status'' = Some (string_map [])"
    "default_row table_Interface ''options'' = Some (string_map [])"
    "default_row table_Interface ''external_ids'' = Some (string_map [])"
    by code_simp+
  then show ?thesis
    by (simp add: presents_def presents_defs ex_db_rows ex_database_def tags opt_list_def)
      (simp add: ex_port_def ex_interface_def zero_interface_def)
qed

theorem rows_fit_structs_witness:
  "list_all (field_fits struct_Port (snd (hd (ex_database ''Port'')))) (Fields struct_Port)"
proof -
  have "(''Port'', struct_Port) \<in> set FullDatabaseModel"
    by (simp add: FullDatabaseModel_def)
  moreover have "(''p1'', snd (hd (ex_database ''Port''))) \<in> set (ex_database ''Port'')"
    by (simp add: ex_database_def)
  ultimately show ?thesis
    using rows_fit_structs [OF ex_database_conforms] by blast
qed

theorem database_reported_witness:
  "observe ''ovs.interface.rx.bytes'' 42 [(''bridge'', ''br0''), (''interface'', ''eth0'')]
     \<in> set (interfaces_observe \<lparr>OVS = View_iface ex_db_view, UnixCtlOVS = None\<rparr>) \<and> schema_ok ex_db_view"
proof -
  let ?src = "\<lparr>OVS = View_iface ex_db_view, UnixCtlOVS = None\<rparr>"
  have "OVS ?src = View_iface ex_db_view"
    by simp
  note reported = database_reported [OF ex_database_conforms ex_database_presented this]
  have "observe ''ovs.interface.rx.bytes'' 42 [(''bridge'', ''br0''), (''interface'', ''eth0'')]
      \<in> set (interfaces_emit ''br0'' ex_interface)"
    by (simp add: interfaces_emit_def stat_of_def Let_def)
  then show ?thesis
    using reported by (auto simp: ex_db_rows)
qed

theorem states_reported_witness:
  "observe ''ovs.interface.admin_state'' 1 [(''bridge'', ''br0''), (''interface'', ''eth0'')]
     \<in> set (interface_info_observe \<lparr>OVS = View_iface ex_db_view, UnixCtlOVS = None\<rparr>)"
proof -
  let ?src = "\<lparr>OVS = View_iface ex_db_view, UnixCtlOVS = None\<rparr>"
  have view: "OVS ?src = View_iface ex_db_view"
    by simp
  have "linked ex_db_view ex_db_view ex_db_view (ex_bridge [''p1'']) ex_interface"
    by (simp add: linked_def ex_db_rows)
  from states_reported [OF ex_database_conforms ex_database_presented view this,
      of "''ovs.interface.admin_state''" I_AdminState 1] show ?thesis
    by (simp add: ex_interface_def)
qed

end
