(* ===== verification/Registry.thy ===== *)
theory Registry
  imports Collectors
begin

text \<open>
  \<^verbatim>\<open>collector/collector.go\<close>: the registry the \<^verbatim>\<open>init\<close> functions fill, and the group of enabled
  collectors that \<^verbatim>\<open>main\<close> registers and closes. The flag parser (kingpin) and the meter of the
  OpenTelemetry SDK are outside the repository: the values and the flags given on the command
  line, what the meter answers and what unregistering answers are arguments.
\<close>

section \<open>The registry\<close>

text \<open>What calling a factory returns: an error text or the collector.\<close>

type_synonym factory = "string + collector_kind"

record flag_decl =
  FlagName :: string
  FlagHelp :: string
  FlagDefault :: string

record registry =
  Flags :: "flag_decl list"
  Factories :: "(string, factory) gomap"
  Deps :: "(string, dep_check option) gomap"
  State :: "(string, bool) gomap" \<comment> \<open>the flag's value: false until the command line is parsed\<close>
  Forced :: "(string, bool) gomap"

definition empty_registry :: registry where
  "empty_registry = \<lparr>Flags = [], Factories = [], Deps = [], State = [], Forced = []\<rparr>"

definition flag_name :: "string \<Rightarrow> string" where
  "flag_name name = ''collector.'' @ name"

definition registerCollector ::
    "string \<Rightarrow> bool \<Rightarrow> factory \<Rightarrow> dep_check option \<Rightarrow> registry \<Rightarrow> registry" where
  "registerCollector name isDefaultEnabled factory dep reg =
     (let helpDefaultState = (if isDefaultEnabled then ''enabled'' else ''disabled'');
          flag = \<lparr>FlagName = flag_name name,
            FlagHelp = ''Enable the '' @ name @ '' collector (default: '' @ helpDefaultState @ '').'',
            FlagDefault = (if isDefaultEnabled then ''true'' else ''false'')\<rparr>
      in reg\<lparr>Flags := Flags reg @ [flag], State := map_put name False (State reg),
             Factories := map_put name factory (Factories reg), Deps := map_put name dep (Deps reg)\<rparr>)"

definition collectorFlagAction :: "string \<Rightarrow> registry \<Rightarrow> registry" where
  "collectorFlagAction name reg = reg\<lparr>Forced := map_put name True (Forced reg)\<rparr>"

text \<open>
  Parsing the command line: the parser stores a value through each flag's pointer and runs the
  action of the flags that were given.
\<close>

definition flags_parsed :: "(string \<Rightarrow> bool) \<Rightarrow> (string \<Rightarrow> bool) \<Rightarrow> registry \<Rightarrow> registry" where
  "flags_parsed val given reg =
     foldl (\<lambda>r name. if given (flag_name name) then collectorFlagAction name r else r)
       (reg\<lparr>State := map (\<lambda>e. (fst e, val (flag_name (fst e)))) (State reg)\<rparr>) (map_keys (State reg))"

text \<open>
  What the parser stores for a boolean flag: the value given for it on the command line (\<open>cli\<close>), or else its
  declared default.
\<close>

definition flag_value :: "registry \<Rightarrow> (string \<Rightarrow> bool option) \<Rightarrow> string \<Rightarrow> bool" where
  "flag_value reg cli f =
     (case cli f of
        Some b \<Rightarrow> b
      | None \<Rightarrow>
          (case find (\<lambda>d. FlagName d = f) (Flags reg) of
             None \<Rightarrow> False
           | Some d \<Rightarrow> FlagDefault d = ''true''))"

definition command_line :: "(string \<Rightarrow> bool option) \<Rightarrow> registry \<Rightarrow> registry" where
  "command_line cli reg = flags_parsed (flag_value reg cli) (\<lambda>f. cli f \<noteq> None) reg"

definition is_forced :: "registry \<Rightarrow> string \<Rightarrow> bool" where
  "is_forced reg name = (case map_get (Forced reg) name of None \<Rightarrow> False | Some b \<Rightarrow> b)"

definition DisableDefaultCollectors :: "registry \<Rightarrow> registry" where
  "DisableDefaultCollectors reg =
     reg\<lparr>State := map (\<lambda>e. (fst e, if \<not> is_forced reg (fst e) then False else snd e)) (State reg)\<rparr>"

definition Registered :: "registry \<Rightarrow> string list" where
  "Registered reg = sort (map_keys (Factories reg))"

section \<open>Groups\<close>

record collector_inst =
  Kind :: collector_kind
  SrcSet :: bool \<comment> \<open>the data source handle is set\<close>
  Registration :: "nat option"

record group =
  GCollectors :: "(string, collector_inst) gomap"
  GDeps :: "(string, dep_check option) gomap"
  GSrcSet :: bool
  UpGauge :: bool
  UpCallback :: "nat option"

datatype group_error =
    Unknown_collector string
  | Disabled_collector string
  | Instantiate_failed string string

primrec check_filters :: "registry \<Rightarrow> string list \<Rightarrow> group_error option" where
  "check_filters reg [] = None"
| "check_filters reg (f # fs) =
     (case map_get (State reg) f of
        None \<Rightarrow> Some (Unknown_collector f)
      | Some state \<Rightarrow> if \<not> state then Some (Disabled_collector f) else check_filters reg fs)"

text \<open>The loop over \<^verbatim>\<open>collectorState\<close>; a collector that is not registered has a nil factory and
  cannot occur, since both maps are filled together.\<close>

fun instantiate ::
    "registry \<Rightarrow> string list \<Rightarrow> (string \<times> bool) list \<Rightarrow> group \<Rightarrow> group_error + group" where
  "instantiate reg filters [] g = Inr g"
| "instantiate reg filters ((name, state) # es) g =
     (if \<not> state then instantiate reg filters es g
      else if 0 < length filters \<and> name \<notin> set filters then instantiate reg filters es g
      else
        (case the (map_get (Factories reg) name) of
           Inl err \<Rightarrow> Inl (Instantiate_failed name err)
         | Inr kind \<Rightarrow>
             instantiate reg filters es
               (g\<lparr>GCollectors := map_put name \<lparr>Kind = kind, SrcSet = False, Registration = None\<rparr> (GCollectors g),
                  GDeps := map_put name (case map_get (Deps reg) name of None \<Rightarrow> None | Some d \<Rightarrow> d)
                    (GDeps g)\<rparr>)))"

definition empty_group :: group where
  "empty_group = \<lparr>GCollectors = [], GDeps = [], GSrcSet = False, UpGauge = False, UpCallback = None\<rparr>"

definition NewGroup :: "string list \<Rightarrow> registry \<Rightarrow> group_error + group" where
  "NewGroup filters reg =
     (case check_filters reg filters of
        Some e \<Rightarrow> Inl e
      | None \<Rightarrow> instantiate reg filters (State reg) empty_group)"

definition group_names :: "group \<Rightarrow> string list" where
  "group_names g = sort (map_keys (GCollectors g))"

section \<open>Registration with the meter\<close>

text \<open>The meter: the error of creating an instrument, and the handle or error of a callback.\<close>

record meter =
  Create :: "string \<Rightarrow> string option"
  Callback :: "string \<Rightarrow> string + nat"

datatype register_error =
    Create_failed string string
  | Callback_failed string
  | Register_failed string register_error

primrec create_all :: "meter \<Rightarrow> instrument list \<Rightarrow> register_error option" where
  "create_all m [] = None"
| "create_all m (i # is) =
     (case Create m (InstName i) of
        Some e \<Rightarrow> Some (Create_failed (InstName i) e)
      | None \<Rightarrow> create_all m is)"

text \<open>\<^verbatim>\<open>Register\<close> of every collector: remember the source, create the instruments in order, then
  register the callback and keep the handle.\<close>

definition collector_register ::
    "meter \<Rightarrow> collector_inst \<Rightarrow> collector_inst \<times> register_error option" where
  "collector_register m c =
     (let c = c\<lparr>SrcSet := True\<rparr>
      in case create_all m (kind_instruments (Kind c)) of
           Some e \<Rightarrow> (c, Some e)
         | None \<Rightarrow>
             (case Callback m (kind_name (Kind c)) of
                Inl e \<Rightarrow> (c\<lparr>Registration := None\<rparr>, Some (Callback_failed e))
              | Inr h \<Rightarrow> (c\<lparr>Registration := Some h\<rparr>, None)))"

fun register_collectors ::
    "meter \<Rightarrow> (string \<times> collector_inst) list
      \<Rightarrow> (string \<times> collector_inst) list \<times> register_error option" where
  "register_collectors m [] = ([], None)"
| "register_collectors m ((name, c) # cs) =
     (case collector_register m c of
        (c', Some e) \<Rightarrow> ((name, c') # cs, Some (Register_failed name e))
      | (c', None) \<Rightarrow>
          (case register_collectors m cs of (cs', res) \<Rightarrow> ((name, c') # cs', res)))"

definition up_name :: string where
  "up_name = ''ovs.collector.up''"

definition RegisterAll :: "meter \<Rightarrow> group \<Rightarrow> group \<times> register_error option" where
  "RegisterAll m g0 =
     (let g1 = g0\<lparr>GSrcSet := True\<rparr>
      in case register_collectors m (GCollectors g1) of
           (cs, Some e) \<Rightarrow> (g1\<lparr>GCollectors := cs\<rparr>, Some e)
         | (cs, None) \<Rightarrow>
             let g = g1\<lparr>GCollectors := cs\<rparr>
             in if cs = [] then (g, None)
                else
                  (case Create m up_name of
                     Some e \<Rightarrow> (g, Some (Create_failed up_name e))
                   | None \<Rightarrow>
                       (case Callback m up_name of
                          Inl e \<Rightarrow> (g\<lparr>UpGauge := True, UpCallback := None\<rparr>, Some (Callback_failed e))
                        | Inr h \<Rightarrow> (g\<lparr>UpGauge := True, UpCallback := Some h\<rparr>, None))))"

text \<open>
  The callbacks read the data source when they run: \<open>src\<close> is what it reads at that moment.
\<close>

definition group_source :: "source \<Rightarrow> group \<Rightarrow> source option" where
  "group_source src g = (if GSrcSet g then Some src else None)"

text \<open>
  The callback of the up gauge asks one dependency check after the other: \<open>src\<close> is what the data source holds
  when the one of the named collector is asked.
\<close>

definition observeUp :: "(string \<Rightarrow> source) \<Rightarrow> group \<Rightarrow> observation list" where
  "observeUp src g =
     map (\<lambda>e. observe up_name
         (case map_get (GDeps g) (fst e) of
            Some (Some dep) \<Rightarrow> if dep (group_source (src (fst e)) g) then 1 else 0
          | _ \<Rightarrow> 0)
         [(''collector'', fst e)]) (GCollectors g)"

text \<open>\<^verbatim>\<open>registrar.Close\<close> and \<^verbatim>\<open>Group.Close\<close>: the handles unregistered, in order, and the errors.\<close>

datatype close_error = Close_up_failed string | Close_failed string string

definition registrar_close :: "(nat \<Rightarrow> string option) \<Rightarrow> collector_inst \<Rightarrow> nat list \<times> string option" where
  "registrar_close unreg c =
     (case Registration c of None \<Rightarrow> ([], None) | Some h \<Rightarrow> ([h], unreg h))"

definition close_one ::
    "(nat \<Rightarrow> string option) \<Rightarrow> nat list \<times> close_error list \<Rightarrow> string \<times> collector_inst
      \<Rightarrow> nat list \<times> close_error list" where
  "close_one unreg st e =
     (case registrar_close unreg (snd e) of
        (hs, None) \<Rightarrow> (fst st @ hs, snd st)
      | (hs, Some err) \<Rightarrow> (fst st @ hs, snd st @ [Close_failed (fst e) err]))"

definition group_close :: "(nat \<Rightarrow> string option) \<Rightarrow> group \<Rightarrow> nat list \<times> close_error list" where
  "group_close unreg g =
     (let up = (case UpCallback g of
                  None \<Rightarrow> ([], [])
                | Some h \<Rightarrow> ([h], case unreg h of None \<Rightarrow> [] | Some err \<Rightarrow> [Close_up_failed err]))
      in foldl (close_one unreg) up (GCollectors g))"

section \<open>The registry of the program\<close>

text \<open>The \<^verbatim>\<open>init\<close> functions of the collector files, which Go runs in the order of the file names.\<close>

definition DefaultEnabled :: bool where
  "DefaultEnabled = True"

definition DefaultDisabled :: bool where
  "DefaultDisabled = False"

definition bridges_init :: "registry \<Rightarrow> registry" where
  "bridges_init = registerCollector ''bridges'' DefaultEnabled (Inr Bridges)
     (Some OVSViewAvailable)"

definition coverage_init :: "registry \<Rightarrow> registry" where
  "coverage_init = registerCollector ''coverage'' DefaultEnabled (Inr Coverage_events)
     (Some (UnixctlHas (\<lambda>s. SnapCoverage s \<noteq> None)))"

definition datapath_init :: "registry \<Rightarrow> registry" where
  "datapath_init = registerCollector ''datapath'' DefaultEnabled (Inr Datapath)
     (Some (UnixctlHas (\<lambda>s. SnapDPIF s \<noteq> None \<or> SnapDPCTL s \<noteq> None)))"

definition datapath_interfaces_init :: "registry \<Rightarrow> registry" where
  "datapath_interfaces_init = registerCollector ''datapath-interfaces'' DefaultDisabled (Inr Datapath_interfaces)
     (Some (UnixctlHas (\<lambda>s. SnapDPIF s \<noteq> None)))"

definition interfaces_init :: "registry \<Rightarrow> registry" where
  "interfaces_init = registerCollector ''interfaces'' DefaultEnabled (Inr Interfaces)
     (Some OVSViewAvailable)"

definition interfaces_info_init :: "registry \<Rightarrow> registry" where
  "interfaces_info_init = registerCollector ''interface-info'' DefaultDisabled (Inr Interface_info)
     (Some OVSViewAvailable)"

definition interfaces_status_init :: "registry \<Rightarrow> registry" where
  "interfaces_status_init = registerCollector ''interface-status'' DefaultDisabled (Inr Interface_status)
     (Some OVSViewAvailable)"

definition memory_init :: "registry \<Rightarrow> registry" where
  "memory_init = registerCollector ''memory'' DefaultEnabled (Inr Memory_usage)
     (Some (UnixctlHas (\<lambda>s. SnapMemory s \<noteq> None)))"

definition ports_init :: "registry \<Rightarrow> registry" where
  "ports_init = registerCollector ''ports'' DefaultEnabled (Inr Ports)
     (Some OVSViewAvailable)"

definition upcall_init :: "registry \<Rightarrow> registry" where
  "upcall_init = registerCollector ''upcall'' DefaultEnabled (Inr Upcalls)
     (Some (UnixctlHas (\<lambda>s. SnapUpcall s \<noteq> None)))"

lemmas init_defs = bridges_init_def coverage_init_def datapath_init_def datapath_interfaces_init_def interfaces_init_def interfaces_info_init_def interfaces_status_init_def memory_init_def ports_init_def upcall_init_def
  DefaultEnabled_def DefaultDisabled_def

definition ovs_registry :: registry where
  "ovs_registry = foldl (\<lambda>reg init. init reg) empty_registry
     [bridges_init, coverage_init, datapath_init, datapath_interfaces_init, interfaces_init, interfaces_info_init, interfaces_status_init, memory_init, ports_init, upcall_init]"

text \<open>Together they register every kind with its name, default and dependency check.\<close>

lemma ovs_registry_kinds:
  "ovs_registry = foldl (\<lambda>r k. registerCollector (kind_name k) (kind_default k) (Inr k) (Some (kind_dep k)) r)
     empty_registry all_kinds"
  by (simp add: ovs_registry_def init_defs all_kinds_def)

text \<open>Every name has a flag value, a factory and a dependency check.\<close>

definition registry_ok :: "registry \<Rightarrow> bool" where
  "registry_ok reg \<longleftrightarrow> map_ok (State reg) \<and> map_ok (Factories reg)
     \<and> set (map_keys (State reg)) = set (map_keys (Factories reg))
     \<and> set (map_keys (Deps reg)) = set (map_keys (Factories reg))"

lemma registerCollector_ok [inv_intros]:
  "registry_ok reg \<Longrightarrow> registry_ok (registerCollector n d f dep reg)"
  by (simp add: registry_ok_def registerCollector_def Let_def keys_put [simplified])

lemma Disable_ok [inv_intros]: "registry_ok reg \<Longrightarrow> registry_ok (DisableDefaultCollectors reg)"
  by (simp add: registry_ok_def DisableDefaultCollectors_def map_ok_def comp_def image_image)

lemma flags_parsed_forced:
  "foldl (\<lambda>r name. if given (flag_name name) then collectorFlagAction name r else r) reg names
     = reg\<lparr>Forced := put_all (map (\<lambda>n. (n, True)) (filter (\<lambda>n. given (flag_name n)) names)) (Forced reg)\<rparr>"
  by (induction names arbitrary: reg) (simp_all add: collectorFlagAction_def)

lemma flags_parsed_simps:
  "State (flags_parsed val given reg) = map (\<lambda>e. (fst e, val (flag_name (fst e)))) (State reg)"
  "Factories (flags_parsed val given reg) = Factories reg"
  "Deps (flags_parsed val given reg) = Deps reg"
  by (simp_all add: flags_parsed_def flags_parsed_forced)

lemma flags_parsed_ok [inv_intros]: "registry_ok reg \<Longrightarrow> registry_ok (flags_parsed val given reg)"
  by (simp add: registry_ok_def flags_parsed_simps map_ok_def comp_def image_image)

text \<open>A key of an adjusted map.\<close>

lemma map_of_map_key: "map_of (map (\<lambda>e. (fst e, f (fst e) (snd e))) m) k = map_option (f k) (map_of m k)"
  by (induction m) auto

lemma flags_parsed_state:
  "map_of (State (flags_parsed val given reg)) n
     = (if n \<in> set (map_keys (State reg)) then Some (val (flag_name n)) else None)"
  using map_of_map_key [of "\<lambda>k _. val (flag_name k)" "State reg" n] map_of_eq_None_iff [of "State reg" n]
  by (auto simp: flags_parsed_simps)

lemma flags_parsed_is_forced:
  assumes "Forced reg = []"
  shows "is_forced (flags_parsed val given reg) n \<longleftrightarrow> n \<in> set (map_keys (State reg)) \<and> given (flag_name n)"
proof -
  let ?fs = "map (\<lambda>n. (n, True)) (filter (\<lambda>n. given (flag_name n)) (map_keys (State reg)))"
  have "map_of (rev ?fs) n = (if n \<in> set (map_keys (State reg)) \<and> given (flag_name n) then Some True else None)"
    by (simp add: rev_map map_of_map_restrict restrict_map_def)
  then show ?thesis
    using assms by (simp add: is_forced_def flags_parsed_def flags_parsed_forced map_get_put_all)
qed

section \<open>Which collectors a group has\<close>

definition enabled :: "registry \<Rightarrow> string \<Rightarrow> bool" where
  "enabled reg n \<longleftrightarrow> map_of (State reg) n = Some True"

definition selected :: "string list \<Rightarrow> string \<times> bool \<Rightarrow> bool" where
  "selected filters e \<longleftrightarrow> snd e \<and> (filters = [] \<or> fst e \<in> set filters)"

definition new_inst :: "registry \<Rightarrow> string \<Rightarrow> collector_inst" where
  "new_inst reg n = \<lparr>Kind = projr (the (map_of (Factories reg) n)), SrcSet = False, Registration = None\<rparr>"

definition dep_entry :: "registry \<Rightarrow> string \<Rightarrow> dep_check option" where
  "dep_entry reg n = (case map_of (Deps reg) n of None \<Rightarrow> None | Some d \<Rightarrow> d)"

lemma instantiate_result:
  assumes "\<And>n. n \<in> fst ` set es \<Longrightarrow> \<not> isl (the (map_of (Factories reg) n))"
  shows "instantiate reg filters es g = Inr (g\<lparr>
      GCollectors := put_all (map (\<lambda>n. (n, new_inst reg n)) (map fst (filter (selected filters) es))) (GCollectors g),
      GDeps := put_all (map (\<lambda>n. (n, dep_entry reg n)) (map fst (filter (selected filters) es))) (GDeps g)\<rparr>)"
  using assms
proof (induction es arbitrary: g)
  case (Cons e es)
  obtain n st where e: "e = (n, st)" by force
  obtain k where k: "the (map_of (Factories reg) n) = Inr k"
    using Cons.prems [of n] by (cases "the (map_of (Factories reg) n)") (auto simp: e)
  show ?case
    using Cons by (simp add: e k selected_def new_inst_def dep_entry_def)
qed simp

lemma check_filters_cases:
  "case check_filters reg fs of
     None \<Rightarrow> \<forall>f \<in> set fs. enabled reg f
   | Some (Unknown_collector f) \<Rightarrow> f \<in> set fs \<and> map_of (State reg) f = None
   | Some (Disabled_collector f) \<Rightarrow> f \<in> set fs \<and> map_of (State reg) f = Some False
   | Some (Instantiate_failed n e) \<Rightarrow> False"
  by (induction fs) (auto simp: enabled_def split: option.splits group_error.splits)

lemma filter_selected_set:
  "map_ok (State reg) \<Longrightarrow> fst ` set (filter (selected filters) (State reg))
     = {n. enabled reg n \<and> (filters = [] \<or> n \<in> set filters)}"
  by (force simp: selected_def enabled_def map_get_iff)

lemma filter_distinct_keys: "map_ok m \<Longrightarrow> distinct (map fst (filter p m))"
  by (simp add: map_ok_def distinct_map_filter)

definition factories_work :: "registry \<Rightarrow> bool" where
  "factories_work reg \<longleftrightarrow> registry_ok reg \<and> list_all (\<lambda>e. \<not> isl (snd e)) (Factories reg)"

lemma factory_present:
  assumes "factories_work reg" and "n \<in> fst ` set (State reg)"
  shows "\<exists>k. map_of (Factories reg) n = Some (Inr k)"
proof -
  have "n \<in> fst ` set (Factories reg)"
    using assms by (simp add: factories_work_def registry_ok_def)
  then obtain f where f: "map_of (Factories reg) n = Some f"
    using map_of_eq_None_iff [of "Factories reg" n] by (cases "map_of (Factories reg) n") auto
  then have "\<not> isl f"
    using assms(1) map_of_SomeD [OF f] by (auto simp: factories_work_def list_all_iff)
  with f show ?thesis
    by (cases f) auto
qed

lemma put_all_graph: "distinct ns \<Longrightarrow> put_all (map (\<lambda>n. (n, f n)) ns) [] = map (\<lambda>n. (n, f n)) ns"
  by (simp add: comp_def)

text \<open>The group before it is registered.\<close>

definition selected_names :: "registry \<Rightarrow> string list \<Rightarrow> string list" where
  "selected_names reg filters = map fst (filter (selected filters) (State reg))"

lemma new_group_result:
  assumes ok: "factories_work reg" and g: "NewGroup filters reg = Inr g"
  shows "g = empty_group\<lparr>GCollectors := map (\<lambda>n. (n, new_inst reg n)) (selected_names reg filters),
      GDeps := map (\<lambda>n. (n, dep_entry reg n)) (selected_names reg filters)\<rparr>"
proof -
  have "\<not> isl (the (map_of (Factories reg) n))" if "n \<in> fst ` set (State reg)" for n
    using factory_present [OF ok that] by auto
  note inst = instantiate_result [of "State reg" reg filters empty_group, OF this]
  have "distinct (selected_names reg filters)"
    using ok by (simp add: selected_names_def filter_distinct_keys factories_work_def registry_ok_def)
  with g inst show ?thesis
    by (simp add: NewGroup_def empty_group_def put_all_graph flip: selected_names_def split: option.splits)
qed

section \<open>Registering and closing a group\<close>

definition handles :: "(string \<times> collector_inst) list \<Rightarrow> nat list" where
  "handles cs = List.map_filter (Registration \<circ> snd) cs"

lemma register_collectors_ok:
  assumes "register_collectors m cs = (cs', None)"
  shows "map fst cs' = map fst cs \<and> map (Kind \<circ> snd) cs' = map (Kind \<circ> snd) cs
    \<and> list_all (\<lambda>e. SrcSet (snd e)
        \<and> (\<exists>h. Registration (snd e) = Some h \<and> Callback m (kind_name (Kind (snd e))) = Inr h)) cs'"
  using assms
proof (induction cs arbitrary: cs')
  case (Cons e cs)
  obtain n c where e: "e = (n, c)" by force
  obtain c' where c': "collector_register m c = (c', None)"
    using Cons.prems by (cases "collector_register m c") (auto simp: e split: option.splits)
  then obtain cs'' where cs'': "register_collectors m cs = (cs'', None)" "cs' = (n, c') # cs''"
    using Cons.prems by (auto simp: e split: prod.splits)
  have "Kind c' = Kind c \<and> SrcSet c' \<and> (\<exists>h. Registration c' = Some h \<and> Callback m (kind_name (Kind c')) = Inr h)"
    using c' by (auto simp: collector_register_def Let_def split: option.splits sum.splits)
  with Cons.IH [OF cs''(1)] show ?case
    by (auto simp: e cs''(2))
qed simp

lemma close_loop:
  "foldl (close_one unreg) st cs =
     (fst st @ handles cs,
      snd st @ List.map_filter (\<lambda>e. case Registration (snd e) of
          None \<Rightarrow> None | Some h \<Rightarrow> map_option (Close_failed (fst e)) (unreg h)) cs)"
proof (induction cs arbitrary: st)
  case (Cons e cs)
  then show ?case
    by (auto simp: close_one_def registrar_close_def handles_def List.map_filter_simps split: option.splits)
qed (simp add: handles_def List.map_filter_simps)

lemma group_close_handles:
  "fst (group_close unreg g) = (case UpCallback g of None \<Rightarrow> [] | Some h \<Rightarrow> [h]) @ handles (GCollectors g)"
  by (simp add: group_close_def Let_def close_loop split: option.split)

lemma RegisterAll_ok:
  assumes "RegisterAll m g = (g', None)"
  shows "\<exists>cs. register_collectors m (GCollectors g) = (cs, None) \<and> GCollectors g' = cs
    \<and> GDeps g' = GDeps g \<and> GSrcSet g'
    \<and> UpCallback g' = (if cs = [] then UpCallback g else Some (projr (Callback m up_name)))"
  using assms by (auto simp: RegisterAll_def Let_def split: prod.splits option.splits if_splits sum.splits)

text \<open>A meter that never refuses anything registers every group.\<close>

definition meter_works :: "meter \<Rightarrow> bool" where
  "meter_works m \<longleftrightarrow> (\<forall>n. Create m n = None \<and> (\<exists>h. Callback m n = Inr h))"

lemma working_create_all: "meter_works m \<Longrightarrow> create_all m is = None"
  by (induction "is") (simp_all add: meter_works_def)

lemma working_register:
  assumes "meter_works m"
  shows "\<exists>cs'. register_collectors m cs = (cs', None)"
proof (induction cs)
  case (Cons e cs)
  obtain n c where e: "e = (n, c)" by force
  obtain h where "Callback m (kind_name (Kind c)) = Inr h"
    using assms by (auto simp: meter_works_def)
  then have "\<exists>c'. collector_register m c = (c', None)"
    using working_create_all [OF assms] by (simp add: collector_register_def Let_def)
  with Cons show ?case
    by (auto simp: e)
qed simp

lemma working_RegisterAll:
  assumes "meter_works m"
  shows "\<exists>g'. RegisterAll m g = (g', None) \<and> group_names g' = group_names g"
proof -
  obtain cs where cs: "register_collectors m (GCollectors g) = (cs, None)"
    using working_register [OF assms] by blast
  then have "map fst cs = map fst (GCollectors g)"
    using register_collectors_ok by blast
  moreover obtain h where "Create m up_name = None" "Callback m up_name = Inr h"
    using assms by (auto simp: meter_works_def)
  ultimately show ?thesis
    using cs by (auto simp: RegisterAll_def Let_def group_names_def)
qed

text \<open>The wiring of the program's registry: names, kinds and dependency checks belong together.\<close>

definition registry_wired :: "registry \<Rightarrow> bool" where
  "registry_wired reg \<longleftrightarrow> registry_ok reg \<and>
     (\<forall>n f. map_of (Factories reg) n = Some f \<longrightarrow>
        (\<exists>k. f = Inr k \<and> n = kind_name k \<and> map_of (Deps reg) n = Some (Some (kind_dep k))))"

lemma register_wired:
  "registry_wired reg \<Longrightarrow>
     registry_wired (registerCollector (kind_name k) (kind_default k) (Inr k) (Some (kind_dep k)) reg)"
  using registerCollector_ok [of reg "kind_name k" "kind_default k" "Inr k" "Some (kind_dep k)"]
  by (auto simp: registry_wired_def) (auto simp: registerCollector_def Let_def split: if_splits)

lemma ovs_registry_wired: "registry_wired ovs_registry"
  unfolding ovs_registry_kinds
  by (rule foldl_invariant [where P = registry_wired], rule register_wired, assumption)
    (simp add: registry_wired_def registry_ok_def empty_registry_def)

lemma ovs_registry_names: "map_keys (State ovs_registry) = map kind_name all_kinds"
  by (simp add: ovs_registry_kinds all_kinds_def registerCollector_def empty_registry_def Let_def)

lemma ovs_registry_unforced: "Forced ovs_registry = []"
  by (simp add: ovs_registry_kinds all_kinds_def registerCollector_def empty_registry_def Let_def)

lemma wired_flags: "registry_wired reg \<Longrightarrow> registry_wired (flags_parsed val given reg)"
  using flags_parsed_ok [of reg val given] by (simp add: registry_wired_def flags_parsed_simps)

lemma wired_disable: "registry_wired reg \<Longrightarrow> registry_wired (DisableDefaultCollectors reg)"
  using Disable_ok [of reg] by (simp add: registry_wired_def DisableDefaultCollectors_def)

lemma wired_factories: "registry_wired reg \<Longrightarrow> factories_work reg"
proof -
  assume w: "registry_wired reg"
  have "\<not> isl f" if "(n, f) \<in> set (Factories reg)" for n f
  proof -
    have "map_of (Factories reg) n = Some f"
      using w that by (simp add: registry_wired_def registry_ok_def map_get_iff)
    with w show ?thesis
      by (fastforce simp: registry_wired_def)
  qed
  with w show ?thesis
    by (auto simp: factories_work_def registry_wired_def list_all_iff)
qed

lemma wired_group:
  assumes w: "registry_wired reg" and g: "NewGroup filters reg = Inr g"
  shows "list_all (\<lambda>(n, c). n = kind_name (Kind c) \<and> map_of (GDeps g) n = Some (Some (kind_dep (Kind c))))
    (GCollectors g)"
proof -
  have one: "n = kind_name (Kind (new_inst reg n)) \<and> dep_entry reg n = Some (kind_dep (Kind (new_inst reg n)))"
    if "n \<in> set (selected_names reg filters)" for n
  proof -
    have "n \<in> fst ` set (State reg)"
      using that by (auto simp: selected_names_def)
    then obtain k where k: "map_of (Factories reg) n = Some (Inr k)"
      using factory_present [OF wired_factories [OF w]] by blast
    with w show ?thesis
      by (fastforce simp: registry_wired_def new_inst_def dep_entry_def)
  qed
  then show ?thesis
    using new_group_result [OF wired_factories [OF w] g]
    by (auto simp: list_all_iff map_of_map_restrict restrict_map_def)
qed

lemma all_kinds_complete [simp]: "k \<in> set all_kinds"
  by (cases k) (simp_all add: all_kinds_def)

lemma enabled_flags:
  "enabled (flags_parsed val given ovs_registry) n
     \<longleftrightarrow> (\<exists>k. n = kind_name k \<and> val (flag_name (kind_name k)))"
proof -
  have "set (map kind_name all_kinds) = range kind_name"
    by auto
  then show ?thesis
    by (auto simp: enabled_def flags_parsed_state ovs_registry_names)
qed

section \<open>Properties\<close>

text \<open>Property C31. A group is refused exactly for a filter that is unknown or disabled, and the
  error names it; otherwise it has the enabled collectors, restricted to the filters when there
  are any, listed in alphabetical order, each once.\<close>

theorem new_group_selects:
  assumes "factories_work reg"
  shows "case NewGroup filters reg of
      Inl (Unknown_collector f) \<Rightarrow> f \<in> set filters \<and> map_of (State reg) f = None
    | Inl (Disabled_collector f) \<Rightarrow> f \<in> set filters \<and> map_of (State reg) f = Some False
    | Inl (Instantiate_failed n e) \<Rightarrow> False
    | Inr g \<Rightarrow> list_all (enabled reg) filters \<and> sorted (group_names g) \<and> distinct (group_names g)
        \<and> set (group_names g) = {n. enabled reg n \<and> (filters = [] \<or> n \<in> set filters)}"
proof (cases "check_filters reg filters")
  case (Some e)
  then show ?thesis
    using check_filters_cases [where reg = reg and fs = filters] by (simp add: NewGroup_def split: group_error.splits)
next
  case None
  have ok: "map_ok (State reg)"
    using assms by (simp add: factories_work_def registry_ok_def)
  have "\<not> isl (the (map_of (Factories reg) n))" if "n \<in> fst ` set (State reg)" for n
    using factory_present [OF assms that] by auto
  then obtain g where g: "NewGroup filters reg = Inr g"
    using None instantiate_result by (simp add: NewGroup_def)
  have "map_keys (GCollectors g) = selected_names reg filters"
    by (simp add: new_group_result [OF assms g] comp_def)
  then show ?thesis
    using None check_filters_cases [where reg = reg and fs = filters] g filter_selected_set [OF ok] filter_distinct_keys [OF ok]
    by (simp add: group_names_def selected_names_def list_all_iff)
qed

lemma startup_names:
  "\<exists>g. NewGroup [] (flags_parsed val given ovs_registry) = Inr g
    \<and> group_names g = sort (map kind_name (filter (\<lambda>k. val (flag_name (kind_name k))) all_kinds))"
proof -
  let ?reg = "flags_parsed val given ovs_registry"
  have work: "factories_work ?reg"
    by (intro wired_factories wired_flags ovs_registry_wired)
  have "\<not> isl (the (map_of (Factories ?reg) n))" if "n \<in> fst ` set (State ?reg)" for n
    using factory_present [OF work that] by auto
  then obtain g where g: "NewGroup [] ?reg = Inr g"
    using instantiate_result by (simp add: NewGroup_def)
  have "State ?reg = map (\<lambda>n. (n, val (flag_name n))) (map kind_name all_kinds)"
    by (simp add: flags_parsed_simps flip: ovs_registry_names)
  then have "selected_names ?reg [] = map kind_name (filter (\<lambda>k. val (flag_name (kind_name k))) all_kinds)"
    by (simp add: selected_names_def selected_def filter_map comp_def)
  with g show ?thesis
    by (simp add: group_names_def new_group_result [OF work g] comp_def)
qed

text \<open>After \<open>DisableDefaultCollectors\<close> the program runs exactly the collectors that
  the operator turned on explicitly, whatever the defaults.\<close>

lemma disable_defaults_opt_in:
  assumes "\<And>k. val (flag_name (kind_name k)) = (case cli k of Some b \<Rightarrow> b | None \<Rightarrow> kind_default k)"
    and "\<And>k. given (flag_name (kind_name k)) = (cli k \<noteq> None)"
  shows "\<exists>g. NewGroup [] (DisableDefaultCollectors (flags_parsed val given ovs_registry)) = Inr g
    \<and> group_names g = sort (map kind_name (filter (\<lambda>k. cli k = Some True) all_kinds))"
proof -
  let ?p = "flags_parsed val given ovs_registry"
  let ?reg = "DisableDefaultCollectors ?p"
  have work: "factories_work ?reg"
    by (intro wired_factories wired_disable wired_flags ovs_registry_wired)
  have "\<not> isl (the (map_of (Factories ?reg) n))" if "n \<in> fst ` set (State ?reg)" for n
    using factory_present [OF work that] by auto
  then obtain g where g: "NewGroup [] ?reg = Inr g"
    using instantiate_result by (simp add: NewGroup_def)
  have forced: "is_forced ?p (kind_name k) = (cli k \<noteq> None)" for k
    using assms(2) by (simp add: flags_parsed_is_forced ovs_registry_unforced ovs_registry_names)
  have "State ?p = map (\<lambda>n. (n, val (flag_name n))) (map kind_name all_kinds)"
    by (simp add: flags_parsed_simps flip: ovs_registry_names)
  then have "selected_names ?reg []
      = map kind_name (filter (\<lambda>k. is_forced ?p (kind_name k) \<and> val (flag_name (kind_name k))) all_kinds)"
    by (simp add: selected_names_def selected_def DisableDefaultCollectors_def filter_map comp_def
        cong: conj_cong)
  also have "filter (\<lambda>k. is_forced ?p (kind_name k) \<and> val (flag_name (kind_name k))) all_kinds
      = filter (\<lambda>k. cli k = Some True) all_kinds"
    using forced assms(1) by (intro filter_cong refl) (auto split: option.splits)
  finally show ?thesis
    using g by (simp add: group_names_def new_group_result [OF work g] comp_def)
qed

text \<open>The defaults the \<^verbatim>\<open>init\<close> functions declare, through their flags.\<close>

lemma declared_default:
  "flag_value ovs_registry cli (flag_name (kind_name k))
     = (case cli (flag_name (kind_name k)) of Some b \<Rightarrow> b | None \<Rightarrow> kind_default k)"
proof -
  have "(case find (\<lambda>d. FlagName d = flag_name (kind_name k)) (Flags ovs_registry) of
      None \<Rightarrow> False | Some d \<Rightarrow> FlagDefault d = ''true'') = kind_default k"
    by (cases k) (simp_all add: ovs_registry_def init_defs registerCollector_def Let_def empty_registry_def flag_name_def)
  then show ?thesis
    by (simp add: flag_value_def split: option.split)
qed

lemma sorted_names:
  "sort (map kind_name (filter (\<lambda>k. P (kind_name k)) all_kinds)) = filter P
     [''bridges'', ''coverage'', ''datapath'', ''datapath-interfaces'', ''interface-info'', ''interface-status'',
      ''interfaces'', ''memory'', ''ports'', ''upcall'']"
proof -
  have "map kind_name (filter (\<lambda>k. P (kind_name k)) all_kinds) = filter P (map kind_name all_kinds)"
    by (simp add: filter_map comp_def)
  moreover have "sort (map kind_name all_kinds) =
     [''bridges'', ''coverage'', ''datapath'', ''datapath-interfaces'', ''interface-info'', ''interface-status'',
      ''interfaces'', ''memory'', ''ports'', ''upcall'']"
    by code_simp
  ultimately show ?thesis
    by (metis filter_sort)
qed

lemma names_selected:
  assumes "group_names g = sort (map kind_name (filter R all_kinds))" and "\<forall>k. R k = P (kind_name k)"
  shows "group_names g = filter P
     [''bridges'', ''coverage'', ''datapath'', ''datapath-interfaces'', ''interface-info'', ''interface-status'',
      ''interfaces'', ''memory'', ''ports'', ''upcall'']"
proof -
  have "R = (\<lambda>k. P (kind_name k))"
    using assms(2) by (intro ext) blast
  then show ?thesis
    using assms(1) sorted_names [of P] by (simp only:)
qed

lemma startup_names_disabled:
  "\<exists>g. NewGroup [] (DisableDefaultCollectors (command_line cli ovs_registry)) = Inr g
    \<and> group_names g = sort (map kind_name (filter (\<lambda>k. cli (flag_name (kind_name k)) = Some True) all_kinds))"
  unfolding command_line_def
  by (intro disable_defaults_opt_in [where cli = "\<lambda>k. cli (flag_name (kind_name k))"]) (simp_all add: declared_default)

lemma default_names:
  "kind_default k \<longleftrightarrow> kind_name k \<in> set [''bridges'', ''coverage'', ''datapath'', ''interfaces'', ''memory'', ''ports'', ''upcall'']"
  by (cases k) simp_all

text \<open>Property C27. At startup the program runs, of the ten collectors it registers, exactly those whose flag is
  given as true and those whose flag is not given but is declared with the default true, which are seven by
  name; after a call of \<open>DisableDefaultCollectors\<close> (which nothing in the program makes) only the former. They
  are listed in alphabetical order.\<close>

theorem startup_collectors:
  "\<exists>g. NewGroup [] (if disable then DisableDefaultCollectors (command_line cli ovs_registry)
          else command_line cli ovs_registry) = Inr g
    \<and> group_names g = filter (\<lambda>n. case cli (flag_name n) of
          Some b \<Rightarrow> b
        | None \<Rightarrow> \<not> disable
            \<and> n \<in> set [''bridges'', ''coverage'', ''datapath'', ''interfaces'', ''memory'', ''ports'', ''upcall''])
      [''bridges'', ''coverage'', ''datapath'', ''datapath-interfaces'', ''interface-info'', ''interface-status'',
       ''interfaces'', ''memory'', ''ports'', ''upcall'']"
    (is "\<exists>g. NewGroup [] ?reg = Inr g \<and> group_names g = filter ?on _")
proof -
  have "\<exists>g R. NewGroup [] ?reg = Inr g \<and> group_names g = sort (map kind_name (filter R all_kinds))
      \<and> (\<forall>k. R k = ?on (kind_name k))"
  proof (cases disable)
    case True
    have "(cli (flag_name (kind_name k)) = Some True) = ?on (kind_name k)" for k
      using True by (cases "cli (flag_name (kind_name k))") simp_all
    then show ?thesis
      using startup_names_disabled [of cli] unfolding if_P [OF True] by blast
  next
    case False
    have "flag_value ovs_registry cli (flag_name (kind_name k)) = ?on (kind_name k)" for k
      unfolding declared_default default_names using False by (cases "cli (flag_name (kind_name k))") simp_all
    then show ?thesis
      using startup_names [of "flag_value ovs_registry cli" "\<lambda>f. cli f \<noteq> None"]
      unfolding if_not_P [OF False] command_line_def by blast
  qed
  then obtain g R where g: "NewGroup [] ?reg = Inr g" "group_names g = sort (map kind_name (filter R all_kinds))"
      "\<forall>k. R k = ?on (kind_name k)"
    by (elim exE conjE)
  show ?thesis
    by (rule exI, rule conjI, rule g(1), rule names_selected [OF g(2,3)])
qed

lemma registered_entries:
  assumes "RegisterAll m g = (g', None)"
    and "list_all (\<lambda>(n, c). n = kind_name (Kind c) \<and> map_of (GDeps g) n = Some (Some (kind_dep (Kind c)))) (GCollectors g)"
  shows "list_all (\<lambda>(n, c). n = kind_name (Kind c) \<and> map_of (GDeps g') n = Some (Some (kind_dep (Kind c)))
    \<and> Registration c = Some (projr (Callback m n))) (GCollectors g')"
proof -
  obtain cs where cs: "register_collectors m (GCollectors g) = (cs, None)" "GCollectors g' = cs" "GDeps g' = GDeps g"
    using RegisterAll_ok [OF assms(1)] by blast
  have r: "map fst cs = map fst (GCollectors g)" "map (Kind \<circ> snd) cs = map (Kind \<circ> snd) (GCollectors g)"
    "list_all (\<lambda>e. SrcSet (snd e) \<and> (\<exists>h. Registration (snd e) = Some h
        \<and> Callback m (kind_name (Kind (snd e))) = Inr h)) cs"
    using register_collectors_ok [OF cs(1)] by simp_all
  let ?P = "\<lambda>(n, k). n = kind_name k \<and> map_of (GDeps g) n = Some (Some (kind_dep k))"
  have zip: "map (\<lambda>e. (fst e, Kind (snd e))) xs = zip (map fst xs) (map (Kind \<circ> snd) xs)"
    for xs :: "(string \<times> collector_inst) list"
    by (induction xs) auto
  have "list_all ?P (map (\<lambda>e. (fst e, Kind (snd e))) (GCollectors g))"
    using assms(2) by (auto simp: list_all_iff)
  then have "list_all ?P (map (\<lambda>e. (fst e, Kind (snd e))) cs)"
    by (simp only: zip r)
  with r(3) show ?thesis
    by (fastforce simp: cs list_all_iff)
qed

lemma fresh_group_callback:
  "factories_work reg \<Longrightarrow> NewGroup filters reg = Inr g \<Longrightarrow> UpCallback g = None"
  using new_group_result [of reg filters g] by (simp add: empty_group_def)

lemma registered_distinct:
  assumes "factories_work reg" and "NewGroup filters reg = Inr g" and "RegisterAll m g = (g', None)"
  shows "distinct (map fst (GCollectors g'))"
proof -
  have "map_ok (State reg)"
    using assms(1) by (simp add: factories_work_def registry_ok_def)
  then have "distinct (map fst (GCollectors g))"
    using filter_distinct_keys by (simp add: new_group_result [OF assms(1,2)] selected_names_def comp_def)
  moreover have "map fst (GCollectors g') = map fst (GCollectors g)"
    using RegisterAll_ok [OF assms(3)] register_collectors_ok by metis
  ultimately show ?thesis by simp
qed

text \<open>Property C19. The up gauge tells the truth: once the group is registered, every collection
  reports each collector exactly once, with 1 exactly when its data is available as its check is asked; and a
  collector reported as down reports no other observation at that moment.\<close>

theorem up_gauge_truthful:
  assumes "NewGroup filters (flags_parsed val given ovs_registry) = Inr g"
    and "RegisterAll m g = (g', None)"
  shows "observeUp src g' = map (\<lambda>(n, c). observe ''ovs.collector.up''
      (if kind_dep (Kind c) (Some (src n)) then 1 else 0) [(''collector'', n)]) (GCollectors g')
    \<and> distinct (map fst (GCollectors g'))
    \<and> list_all (\<lambda>(n, c). kind_dep (Kind c) (Some (src n)) \<or> kind_observe ord (Kind c) (src n) = []) (GCollectors g')"
proof -
  have wired: "registry_wired (flags_parsed val given ovs_registry)"
    by (intro wired_flags ovs_registry_wired)
  have entries: "list_all (\<lambda>(n, c). n = kind_name (Kind c)
      \<and> map_of (GDeps g') n = Some (Some (kind_dep (Kind c)))
      \<and> Registration c = Some (projr (Callback m n))) (GCollectors g')"
    by (rule registered_entries [OF assms(2) wired_group [OF wired assms(1)]])
  have "GSrcSet g'"
    using RegisterAll_ok [OF assms(2)] by blast
  then have "observeUp src g' = map (\<lambda>(n, c). observe ''ovs.collector.up''
      (if kind_dep (Kind c) (Some (src n)) then 1 else 0) [(''collector'', n)]) (GCollectors g')"
    using entries by (auto simp: observeUp_def group_source_def up_name_def list_all_iff)
  moreover have "kind_dep k (Some x) \<or> kind_observe ord k x = []" for k x
    using collector.down_silent [OF kind_collector [of k]] by blast
  ultimately show ?thesis
    using registered_distinct [OF wired_factories [OF wired] assms] by (simp add: list_all_iff)
qed

text \<open>Property C26. Closing a registered group unregisters every callback that was registered, the
  shared one first, each exactly once, and reports an error exactly when one of them fails.\<close>

theorem close_unregisters_all:
  assumes "NewGroup filters (flags_parsed val given ovs_registry) = Inr g"
    and "RegisterAll m g = (g', None)"
  shows "case group_close unreg g' of (hs, errs) \<Rightarrow>
      hs = (if GCollectors g' = [] then [] else [projr (Callback m ''ovs.collector.up'')])
         @ map (\<lambda>(n, c). projr (Callback m n)) (GCollectors g')
      \<and> (errs = []) = list_all (\<lambda>h. unreg h = None) hs"
proof -
  have wired: "registry_wired (flags_parsed val given ovs_registry)"
    by (intro wired_flags ovs_registry_wired)
  have entries: "list_all (\<lambda>(n, c). n = kind_name (Kind c)
      \<and> map_of (GDeps g') n = Some (Some (kind_dep (Kind c)))
      \<and> Registration c = Some (projr (Callback m n))) (GCollectors g')"
    by (rule registered_entries [OF assms(2) wired_group [OF wired assms(1)]])
  then have reg: "Registration (snd e) = Some (projr (Callback m (fst e)))" if "e \<in> set (GCollectors g')" for e
    using that by (auto simp: list_all_iff)
  have "handles cs = map (\<lambda>(n, c). projr (Callback m n)) cs"
    if "\<And>e. e \<in> set cs \<Longrightarrow> Registration (snd e) = Some (projr (Callback m (fst e)))" for cs
    using that by (induction cs) (auto simp: handles_def List.map_filter_simps)
  then have h: "handles (GCollectors g') = map (\<lambda>(n, c). projr (Callback m n)) (GCollectors g')"
    using reg by blast
  have up: "UpCallback g' = (if GCollectors g' = [] then None else Some (projr (Callback m up_name)))"
    using RegisterAll_ok [OF assms(2)] fresh_group_callback [OF wired_factories [OF wired] assms(1)] by auto
  have errs: "snd (group_close unreg g') = [] \<longleftrightarrow> list_all (\<lambda>h. unreg h = None) (fst (group_close unreg g'))"
    using reg by (auto simp: group_close_def Let_def close_loop up h map_filter_Nil_iff list_all_iff
        split: option.splits)
  show ?thesis
    using errs by (simp add: split_beta group_close_handles h up up_name_def)
qed

section \<open>Examples\<close>

definition ex_meter :: meter where
  "ex_meter = \<lparr>Create = (\<lambda>_. None), Callback = (\<lambda>n. Inr (length n))\<rparr>"

definition ex_registry :: registry where
  "ex_registry = flags_parsed (\<lambda>_. True) (\<lambda>_. False) ovs_registry"

definition ex_group :: "nat option \<Rightarrow> bool \<Rightarrow> nat option \<Rightarrow> group" where
  "ex_group h r up = \<lparr>GCollectors = [(''memory'', \<lparr>Kind = Memory_usage, SrcSet = r, Registration = h\<rparr>)],
     GDeps = [(''memory'', Some (kind_dep Memory_usage))], GSrcSet = r, UpGauge = r, UpCallback = up\<rparr>"

lemma ex_group_new: "NewGroup [''memory''] ex_registry = Inr (ex_group None False None)"
  by (simp add: ex_registry_def NewGroup_def flags_parsed_def ovs_registry_kinds all_kinds_def
      registerCollector_def empty_registry_def empty_group_def ex_group_def Let_def)

lemma ex_group_registered:
  "RegisterAll ex_meter (ex_group None False None) = (ex_group (Some 6) True (Some 16), None)"
  by (simp add: RegisterAll_def ex_group_def ex_meter_def collector_register_def Let_def
      memory_instruments_def up_name_def)

theorem new_group_selects_witness:
  "group_names (ex_group None False None) = [''memory''] \<and> enabled ex_registry ''memory''"
proof -
  have "factories_work ex_registry"
    unfolding ex_registry_def by (intro wired_factories wired_flags ovs_registry_wired)
  from new_group_selects [OF this, of "[''memory'']"] show ?thesis
    by (simp add: ex_group_new) (simp add: group_names_def ex_group_def)
qed

theorem up_gauge_truthful_witness:
  "observeUp (\<lambda>_. ex_source) (ex_group (Some 6) True (Some 16))
     = [observe ''ovs.collector.up'' 1 [(''collector'', ''memory'')]]"
  using up_gauge_truthful [OF ex_group_new [unfolded ex_registry_def] ex_group_registered, of "\<lambda>_. ex_source"]
  by (simp add: ex_group_def UnixctlHas_def ex_source_def)

theorem close_unregisters_all_witness:
  "case group_close (\<lambda>h. if h = 6 then Some ''gone'' else None) (ex_group (Some 6) True (Some 16)) of
     (hs, errs) \<Rightarrow> hs = [16, 6] \<and> errs \<noteq> []"
  using close_unregisters_all [OF ex_group_new [unfolded ex_registry_def] ex_group_registered,
      of "\<lambda>h. if h = 6 then Some ''gone'' else None"]
  by (auto simp: ex_group_def ex_meter_def)

end
