(* ===== verification/Probes.thy ===== *)
theory Probes
  imports GoStrings
begin

text \<open>
  \<^verbatim>\<open>internal/probes\<close>: the health and readiness handlers. A check is the error text it returns,
  \<^const>\<open>None\<close> for \<^verbatim>\<open>nil\<close>; the map of checks may be enumerated in any order.
\<close>

record http_response =
  Status :: nat
  ContentType :: string
  Body :: string

definition Health :: http_response where
  "Health = \<lparr>Status = 200, ContentType = ''text/plain; charset=utf-8'', Body = ''ok'' @ [newline]\<rparr>"

type_synonym checks = "(string, string option) gomap"

definition ready_check :: "checks \<Rightarrow> (string, string) gomap \<times> bool \<Rightarrow> string \<Rightarrow> (string, string) gomap \<times> bool" where
  "ready_check checks st name =
     (case the (map_get checks name) of
        Some err \<Rightarrow> (map_put name err (fst st), False)
      | None \<Rightarrow> (map_put name ''ok'' (fst st), snd st))"

definition ready_line :: "(string, string) gomap \<Rightarrow> string \<Rightarrow> string" where
  "ready_line results name =
     name @ '': '' @ (case map_get results name of None \<Rightarrow> [] | Some r \<Rightarrow> r) @ [newline]"

definition Ready :: "checks \<Rightarrow> http_response" where
  "Ready checks =
     (let names = sort (map_keys checks);
          (results, allOK) = foldl (ready_check checks) ([], True) names
      in \<lparr>Status = (if allOK then 200 else 503), ContentType = ''text/plain; charset=utf-8'',
          Body = concat (map (ready_line results) names)\<rparr>)"

section \<open>What the handler answers\<close>

definition check_text :: "string option \<Rightarrow> string" where
  "check_text c = (case c of None \<Rightarrow> ''ok'' | Some err \<Rightarrow> err)"

lemma ready_check_loop:
  "foldl (ready_check checks) st names =
     (put_all (map (\<lambda>n. (n, check_text (the (map_get checks n)))) names) (fst st),
      snd st \<and> list_all (\<lambda>n. the (map_get checks n) = None) names)"
  by (induction names arbitrary: st) (auto simp: ready_check_def check_text_def split: option.splits)

lemma ready_body:
  assumes "map_ok checks"
  shows "Body (Ready checks) = concat (map (\<lambda>n. n @ '': '' @ check_text (the (map_get checks n)) @ [newline])
    (sort (map_keys checks)))"
proof -
  let ?names = "sort (map_keys checks)"
  let ?results = "map (\<lambda>n. (n, check_text (the (map_get checks n)))) ?names"
  have d: "distinct ?names"
    using assms by (simp add: map_ok_def)
  then have results: "put_all ?results [] = ?results"
    by (intro put_all_distinct) (simp add: comp_def)
  have "ready_line ?results n = n @ '': '' @ check_text (the (map_get checks n)) @ [newline]"
    if "n \<in> set ?names" for n
  proof -
    have "map_of ?results n = Some (check_text (the (map_get checks n)))"
      using that by (simp add: map_of_map_restrict restrict_map_def)
    then show ?thesis by (simp add: ready_line_def)
  qed
  then have "map (ready_line ?results) ?names
      = map (\<lambda>n. n @ '': '' @ check_text (the (map_get checks n)) @ [newline]) ?names"
    by (intro map_cong refl) blast
  then show ?thesis
    by (simp only: Ready_def Let_def ready_check_loop fst_conv results split_conv
        http_response.simps)
qed

lemma ready_status:
  assumes "map_ok checks"
  shows "Status (Ready checks) = (if list_all (\<lambda>(n, c). c = None) checks then 200 else 503)"
proof -
  have get: "map_of checks n = Some c" if "(n, c) \<in> set checks" for n c
    using assms that by (simp add: map_get_iff)
  have "list_all (\<lambda>n. the (map_get checks n) = None) (sort (map_keys checks))
      \<longleftrightarrow> list_all (\<lambda>(n, c). c = None) checks"
    using get by (fastforce simp: list_all_iff)
  then show ?thesis
    by (simp add: Ready_def Let_def ready_check_loop)
qed

section \<open>Properties\<close>

text \<open>Property C35. The readiness answer is 200 exactly when every check passes and 503 otherwise;
  the body names each check exactly once, in alphabetical order, with \<open>ok\<close> or its error.\<close>

theorem ready_answer:
  assumes "map_ok checks"
  shows "Status (Ready checks) = (if list_all (\<lambda>(n, c). c = None) checks then 200 else 503)
    \<and> Body (Ready checks) = concat (map (\<lambda>n. n @ '': '' @ check_text (the (map_get checks n)) @ [newline])
        (sort (map_keys checks)))"
  using ready_status [OF assms] ready_body [OF assms] by simp

theorem ready_answer_witness:
  "Body (Ready [(''unixctl-ovs'', Some ''stale''), (''ovsdb'', None)])
     = ''ovsdb: ok'' @ [newline] @ ''unixctl-ovs: stale'' @ [newline]
   \<and> Status (Ready [(''unixctl-ovs'', Some ''stale''), (''ovsdb'', None)]) = 503"
proof -
  have "map_ok [(''unixctl-ovs'', Some ''stale''), (''ovsdb'', None)]"
    by (simp add: map_ok_def)
  moreover have "sort [''unixctl-ovs'', ''ovsdb''] = [''ovsdb'', ''unixctl-ovs'']"
    by code_simp
  ultimately show ?thesis
    using ready_answer [of "[(''unixctl-ovs'', Some ''stale''), (''ovsdb'', None)]"]
    by (simp add: check_text_def)
qed

text \<open>The answer does not depend on the order in which Go enumerates the map.\<close>

lemma ready_order_independent:
  assumes "map_ok checks" and "mset checks = mset checks'"
  shows "Ready checks = Ready checks'"
proof -
  have keys: "mset (map_keys checks) = mset (map_keys checks')"
    using assms(2) by simp
  have ok: "map_ok checks'"
    using assms keys mset_eq_imp_distinct_iff [of "map_keys checks" "map_keys checks'"]
    by (simp add: map_ok_def)
  have sorted: "sort (map_keys checks') = sort (map_keys checks)"
    using keys by (intro properties_for_sort) simp_all
  have "map_of checks' = map_of checks"
    using assms ok mset_eq_setD [OF assms(2)] by (intro map_of_eqI) (auto simp: map_ok_def map_get_iff)
  then show ?thesis
    by (simp add: Ready_def sorted ready_check_loop)
qed

theorem ready_order_independent_witness:
  "Ready [(''b'', None), (''a'', Some ''e'')] = Ready [(''a'', Some ''e''), (''b'', None)]"
  by (rule ready_order_independent) (simp_all add: map_ok_def)

end
