(* ===== verification/Otel.thy ===== *)
theory Otel
  imports GoPath
begin

text \<open>
  \<^verbatim>\<open>internal/otel\<close>: assembling the OpenTelemetry pipeline. The SDK, the exporters, the YAML parser
  and the Prometheus client are outside the repository, so what they answer is a record of
  arguments (an error text or nothing, as functions of what they are given and of the environment
  variables they read); what the code does with them (the readers it attaches, the providers it
  installs and shuts down, the environment it changes and restores) is modelled.
\<close>

section \<open>Selectors\<close>

text \<open>\<^verbatim>\<open>cmp.Or\<close> on strings and on integers: the first value that is not zero.\<close>

definition str_or :: "string \<Rightarrow> string \<Rightarrow> string" where
  "str_or a b = (if a \<noteq> [] then a else b)"

definition int_or :: "int64 \<Rightarrow> int64 \<Rightarrow> int64" where
  "int_or a b = (if a \<noteq> 0 then a else b)"

definition push_exporter :: "string list \<times> string list \<Rightarrow> string \<Rightarrow> string list \<times> string list" where
  "push_exporter st raw =
     (let k = trim_space raw
      in if k = [] \<or> k = ''prometheus'' then st
         else if k \<in> set (fst st) then st
         else (k # fst st, snd st @ [k]))"

text \<open>The state of the loop: the keys of \<^verbatim>\<open>seen\<close> and \<^verbatim>\<open>out\<close>.\<close>

definition parsePushExporters :: "string \<Rightarrow> string list" where
  "parsePushExporters s =
     (if trim_space s = ''none'' then []
      else snd (foldl push_exporter ([], []) (split_on (CHR '','') s)))"

section \<open>Environment variables\<close>

type_synonym env = "(string, string) gomap"

definition map_del :: "'k \<Rightarrow> ('k, 'v) gomap \<Rightarrow> ('k, 'v) gomap" where
  "map_del k m = filter (\<lambda>e. fst e \<noteq> k) m"

text \<open>\<^verbatim>\<open>setEnvScoped\<close>: the new environment and the function that reinstates the old value.\<close>

definition setEnvScoped :: "string \<Rightarrow> string \<Rightarrow> env \<Rightarrow> env \<times> (env \<Rightarrow> env)" where
  "setEnvScoped key val env =
     (map_put key val env,
      case map_get env key of
        Some prev \<Rightarrow> map_put key prev
      | None \<Rightarrow> map_del key)"

text \<open>\<^verbatim>\<open>exporterForKind\<close> and \<^verbatim>\<open>metricReaderForKind\<close>: the factory runs in the changed environment.\<close>

definition exporterForKind :: "string \<Rightarrow> string \<Rightarrow> (env \<Rightarrow> string option) \<Rightarrow> env \<Rightarrow> env \<times> string option" where
  "exporterForKind envKey kind factory env =
     (case setEnvScoped envKey kind env of
        (env', restore) \<Rightarrow> (restore env', factory env'))"

section \<open>Providers\<close>

record otel_config =
  ServiceName :: string
  ServiceVersion :: string
  MetricsExporter :: string
  TracesExporter :: string
  LogsExporter :: string
  PromMaxRequests :: int64
  ConfigFile :: string
  PrometheusEnabled :: bool

datatype reader = Prom_reader | Push_reader string

datatype provider = Meter_provider "reader list" | Tracer_provider string | Logger_provider string | Yaml_sdk

datatype otel_error =
    Service_name_required
  | Resource_failed string
  | Prom_failed string
  | Reader_failed string string
  | Span_exporter_failed string
  | Log_exporter_failed string
  | Read_config_failed string
  | Parse_yaml_failed string
  | Pull_reader nat
  | Build_sdk_failed string

text \<open>The readers of a YAML configuration: whether each one is a pull reader; no meter provider at all.\<close>

record yaml_config =
  YamlReaders :: "bool list option"
  YamlRest :: string

record otel_world =
  NewResource :: "string \<Rightarrow> string \<Rightarrow> string option"
  NewProm :: "string option"
  NewMetricReader :: "env \<Rightarrow> string option"
  NewSpanExporter :: "env \<Rightarrow> string option"
  NewLogExporter :: "env \<Rightarrow> string option"
  RuntimeStart :: "string option"
  ReadConfig :: "string \<Rightarrow> string option"
  ParseYAML :: "string \<Rightarrow> string + yaml_config"
  NewSDK :: "env \<Rightarrow> yaml_config \<Rightarrow> reader list \<Rightarrow> string + bool" \<comment> \<open>whether it has a logger provider\<close>

text \<open>What the set-up does to the process: installs global objects and logs.\<close>

datatype otel_event =
    Set_error_handler
  | Set_meter_provider "reader list"
  | Set_yaml_providers
  | Set_propagator
  | Set_tracer_provider
  | Log_runtime_failed string
  | Log_configured

record otel_result =
  TracerProvided :: bool \<comment> \<open>the tracer of a provider built here, not the global one\<close>
  PromHandler :: "int64 option" \<comment> \<open>its limit of concurrent requests\<close>
  LoggerTeed :: bool
  ShutdownOf :: "provider list"

definition newPromReader :: "otel_world \<Rightarrow> int64 \<Rightarrow> otel_error + reader \<times> int64" where
  "newPromReader w maxRequests =
     (case NewProm w of Some e \<Rightarrow> Inl (Prom_failed e) | None \<Rightarrow> Inr (Prom_reader, maxRequests))"

fun push_readers :: "otel_world \<Rightarrow> string list \<Rightarrow> env \<Rightarrow> env \<times> (otel_error + reader list)" where
  "push_readers w [] env = (env, Inr [])"
| "push_readers w (kind # kinds) env =
     (case exporterForKind ''OTEL_METRICS_EXPORTER'' kind (NewMetricReader w) env of
        (env', Some e) \<Rightarrow> (env', Inl (Reader_failed kind e))
      | (env', None) \<Rightarrow>
          (case push_readers w kinds env' of
             (env'', Inl e) \<Rightarrow> (env'', Inl e)
           | (env'', Inr rs) \<Rightarrow> (env'', Inr (Push_reader kind # rs))))"

definition buildMeterProvider ::
    "otel_world \<Rightarrow> otel_config \<Rightarrow> env \<Rightarrow> env \<times> (otel_error + reader list \<times> int64 option)" where
  "buildMeterProvider w cfg env =
     (case (if PrometheusEnabled cfg then
              map_sum id (\<lambda>(r, h). ([r], Some h)) (newPromReader w (PromMaxRequests cfg))
            else Inr ([], None)) of
        Inl e \<Rightarrow> (env, Inl e)
      | Inr (readers, promHandler) \<Rightarrow>
          (case push_readers w (parsePushExporters (MetricsExporter cfg)) env of
             (env', Inl e) \<Rightarrow> (env', Inl e)
           | (env', Inr rs) \<Rightarrow> (env', Inr (readers @ rs, promHandler))))"

definition runtime_started :: "otel_world \<Rightarrow> otel_event list" where
  "runtime_started w = (case RuntimeStart w of None \<Rightarrow> [] | Some e \<Rightarrow> [Log_runtime_failed e])"

definition setup_defaults :: "otel_config \<Rightarrow> otel_config" where
  "setup_defaults cfg = cfg\<lparr>MetricsExporter := str_or (MetricsExporter cfg) ''none'',
     TracesExporter := str_or (TracesExporter cfg) ''none'',
     LogsExporter := str_or (LogsExporter cfg) ''none'',
     PromMaxRequests := int_or (PromMaxRequests cfg) 40\<rparr>"

definition buildResource :: "otel_world \<Rightarrow> string \<Rightarrow> string \<Rightarrow> otel_error option" where
  "buildResource w name version = map_option Resource_failed (NewResource w name version)"

definition buildTracerProvider :: "otel_world \<Rightarrow> otel_config \<Rightarrow> env \<Rightarrow> env \<times> (otel_error + provider)" where
  "buildTracerProvider w cfg env =
     (case exporterForKind ''OTEL_TRACES_EXPORTER'' (TracesExporter cfg) (NewSpanExporter w) env of
        (env', Some e) \<Rightarrow> (env', Inl (Span_exporter_failed e))
      | (env', None) \<Rightarrow> (env', Inr (Tracer_provider (TracesExporter cfg))))"

text \<open>The logger it returns with the provider hands every record to the old handler and to the provider's.\<close>

definition buildLoggerProvider :: "otel_world \<Rightarrow> otel_config \<Rightarrow> env \<Rightarrow> env \<times> (otel_error + provider)" where
  "buildLoggerProvider w cfg env =
     (case exporterForKind ''OTEL_LOGS_EXPORTER'' (LogsExporter cfg) (NewLogExporter w) env of
        (env', Some e) \<Rightarrow> (env', Inl (Log_exporter_failed e))
      | (env', None) \<Rightarrow> (env', Inr (Logger_provider (LogsExporter cfg))))"

type_synonym setup_out = "env \<times> otel_event list \<times> (otel_error + otel_result)"

text \<open>The last part of \<^verbatim>\<open>Setup\<close>: logs. \<open>res\<close> is the result so far.\<close>

definition setup_logs :: "otel_world \<Rightarrow> otel_config \<Rightarrow> otel_event list \<Rightarrow> otel_result \<Rightarrow> env \<Rightarrow> setup_out" where
  "setup_logs w cfg evs res env =
     (if LogsExporter cfg \<noteq> ''none'' then
        (case buildLoggerProvider w cfg env of
           (env', Inl e) \<Rightarrow> (env', evs, Inl e)
         | (env', Inr lp) \<Rightarrow>
             (env', evs @ [Log_configured], Inr (res\<lparr>LoggerTeed := True, ShutdownOf := ShutdownOf res @ [lp]\<rparr>)))
      else (env, evs @ [Log_configured], Inr res))"

definition setup_traces :: "otel_world \<Rightarrow> otel_config \<Rightarrow> otel_event list \<Rightarrow> otel_result \<Rightarrow> env \<Rightarrow> setup_out" where
  "setup_traces w cfg evs res env =
     (if TracesExporter cfg \<noteq> ''none'' then
        (case buildTracerProvider w cfg env of
           (env', Inl e) \<Rightarrow> (env', evs, Inl e)
         | (env', Inr tp) \<Rightarrow>
             setup_logs w cfg (evs @ [Set_tracer_provider])
               (res\<lparr>TracerProvided := True, ShutdownOf := ShutdownOf res @ [tp]\<rparr>) env')
      else setup_logs w cfg evs res env)"

definition setup_flags :: "otel_world \<Rightarrow> otel_config \<Rightarrow> env \<Rightarrow> setup_out" where
  "setup_flags w cfg0 env =
     (let cfg = setup_defaults cfg0
      in if ServiceName cfg = [] then (env, [Set_error_handler], Inl Service_name_required)
         else
           (case buildResource w (ServiceName cfg) (ServiceVersion cfg) of
              Some e \<Rightarrow> (env, [Set_error_handler], Inl e)
            | None \<Rightarrow>
                (case buildMeterProvider w cfg env of
                   (env', Inl e) \<Rightarrow> (env', [Set_error_handler], Inl e)
                 | (env', Inr (readers, promHandler)) \<Rightarrow>
                     setup_traces w cfg
                       ([Set_error_handler, Set_meter_provider readers] @ runtime_started w @ [Set_propagator])
                       \<lparr>TracerProvided = False, PromHandler = promHandler, LoggerTeed = False,
                        ShutdownOf = [Meter_provider readers]\<rparr> env')))"

section \<open>The YAML path\<close>

primrec first_index :: "nat \<Rightarrow> bool list \<Rightarrow> nat option" where
  "first_index i [] = None"
| "first_index i (b # bs) = (if b then Some i else first_index (Suc i) bs)"

definition rejectPullReaders :: "yaml_config option \<Rightarrow> nat option" where
  "rejectPullReaders cfg =
     (case cfg of
        None \<Rightarrow> None
      | Some c \<Rightarrow> (case YamlReaders c of None \<Rightarrow> None | Some rs \<Rightarrow> first_index 0 rs))"

definition envVarConfigFile :: string where
  "envVarConfigFile = ''OTEL_CONFIG_FILE''"

definition setup_sdk ::
    "otel_world \<Rightarrow> yaml_config \<Rightarrow> reader list \<Rightarrow> int64 option \<Rightarrow> env \<Rightarrow> setup_out" where
  "setup_sdk w parsed meterOpts promHandler env =
     (let env' = (case map_get env envVarConfigFile of None \<Rightarrow> env | Some _ \<Rightarrow> map_del envVarConfigFile env)
      in case NewSDK w env' parsed meterOpts of
           Inl e \<Rightarrow> (env', [Set_error_handler], Inl (Build_sdk_failed e))
         | Inr hasLogger \<Rightarrow>
             (env', [Set_error_handler, Set_yaml_providers] @ runtime_started w @ [Log_configured],
              Inr \<lparr>TracerProvided = True, PromHandler = promHandler, LoggerTeed = hasLogger,
                   ShutdownOf = [Yaml_sdk]\<rparr>))"

definition setupFromYAML :: "otel_world \<Rightarrow> otel_config \<Rightarrow> env \<Rightarrow> setup_out" where
  "setupFromYAML w cfg0 env =
     (if ServiceName cfg0 = [] then (env, [Set_error_handler], Inl Service_name_required)
      else
        (let cfg = (if PromMaxRequests cfg0 = 0 then cfg0\<lparr>PromMaxRequests := 40\<rparr> else cfg0)
         in case ReadConfig w (ConfigFile cfg) of
              None \<Rightarrow> (env, [Set_error_handler], Inl (Read_config_failed (ConfigFile cfg)))
            | Some raw \<Rightarrow>
                (case ParseYAML w raw of
                   Inl e \<Rightarrow> (env, [Set_error_handler], Inl (Parse_yaml_failed e))
                 | Inr parsed \<Rightarrow>
                     (case rejectPullReaders (Some parsed) of
                        Some i \<Rightarrow> (env, [Set_error_handler], Inl (Pull_reader i))
                      | None \<Rightarrow>
                          if PrometheusEnabled cfg then
                            (case newPromReader w (PromMaxRequests cfg) of
                               Inl e \<Rightarrow> (env, [Set_error_handler], Inl e)
                             | Inr (r, h) \<Rightarrow>
                                 setup_sdk w
                                   (if YamlReaders parsed = None then parsed\<lparr>YamlReaders := Some []\<rparr> else parsed)
                                   [r] (Some h) env)
                          else setup_sdk w parsed [] None env))))"

definition Setup :: "otel_world \<Rightarrow> otel_config \<Rightarrow> env \<Rightarrow> setup_out" where
  "Setup w cfg env = (if ConfigFile cfg \<noteq> [] then setupFromYAML w cfg env else setup_flags w cfg env)"

text \<open>\<^verbatim>\<open>Result.Shutdown\<close>: every provider is shut down, in order, and the errors are joined.\<close>

definition otel_shutdown :: "(provider \<Rightarrow> string option) \<Rightarrow> otel_result \<Rightarrow> provider list \<times> string list" where
  "otel_shutdown stop res = (ShutdownOf res, List.map_filter stop (ShutdownOf res))"

section \<open>The handler that fans out\<close>

text \<open>\<^verbatim>\<open>slog.Level\<close>, ordered as its integers.\<close>

datatype level = Level (level_int: int)

instantiation level :: linorder
begin

definition less_eq_level :: "level \<Rightarrow> level \<Rightarrow> bool" where
  "less_eq_level a b \<longleftrightarrow> level_int a \<le> level_int b"

definition less_level :: "level \<Rightarrow> level \<Rightarrow> bool" where
  "less_level a b \<longleftrightarrow> level_int a < level_int b"

instance
  by standard (auto simp: less_eq_level_def less_level_def level.expand)

end

text \<open>
  A handler is a value of a type variable \<open>'h\<close> with the operations of the interface
  \<^verbatim>\<open>slog.Handler\<close>: whether it is enabled for a level, what handling a record returns, and the
  handlers that \<^verbatim>\<open>WithAttrs\<close> and \<^verbatim>\<open>WithGroup\<close> give.
\<close>

record 'r log_record =
  RecLevel :: level
  RecBody :: 'r

definition multi_Enabled :: "('h \<Rightarrow> level \<Rightarrow> bool) \<Rightarrow> 'h list \<Rightarrow> level \<Rightarrow> bool" where
  "multi_Enabled en m level = list_ex (\<lambda>h. en h level) m"

text \<open>The handlers called, in order, and the errors they returned.\<close>

definition multi_call ::
    "('h \<Rightarrow> level \<Rightarrow> bool) \<Rightarrow> ('h \<Rightarrow> 'r log_record \<Rightarrow> string option) \<Rightarrow> 'r log_record
      \<Rightarrow> 'h list \<times> string list \<Rightarrow> 'h \<Rightarrow> 'h list \<times> string list" where
  "multi_call en handle r st h =
     (if en h (RecLevel r) then
        (fst st @ [h], case handle h r of None \<Rightarrow> snd st | Some e \<Rightarrow> snd st @ [e])
      else st)"

definition multi_Handle ::
    "('h \<Rightarrow> level \<Rightarrow> bool) \<Rightarrow> ('h \<Rightarrow> 'r log_record \<Rightarrow> string option) \<Rightarrow> 'h list \<Rightarrow> 'r log_record
      \<Rightarrow> 'h list \<times> string list" where
  "multi_Handle en handle m r = foldl (multi_call en handle r) ([], []) m"

definition multi_WithAttrs :: "('a \<Rightarrow> 'h \<Rightarrow> 'h) \<Rightarrow> 'a \<Rightarrow> 'h list \<Rightarrow> 'h list" where
  "multi_WithAttrs with_attrs attrs m = map (with_attrs attrs) m"

definition multi_WithGroup :: "(string \<Rightarrow> 'h \<Rightarrow> 'h) \<Rightarrow> string \<Rightarrow> 'h list \<Rightarrow> 'h list" where
  "multi_WithGroup with_group name m = map (with_group name) m"

lemma multi_call_loop:
  "foldl (multi_call en handle r) st m =
     (fst st @ filter (\<lambda>h. en h (RecLevel r)) m,
      snd st @ List.map_filter (\<lambda>h. handle h r) (filter (\<lambda>h. en h (RecLevel r)) m))"
  by (induction m arbitrary: st) (auto simp: multi_call_def List.map_filter_simps split: option.splits)

section \<open>Facts\<close>

definition push_kind :: "string \<Rightarrow> bool" where
  "push_kind k \<longleftrightarrow> k \<noteq> [] \<and> k \<noteq> ''prometheus''"

text \<open>Keeping the first occurrence of each element.\<close>

definition firsts :: "'a list \<Rightarrow> 'a list" where
  "firsts xs = rev (remdups (rev xs))"

lemma firsts_simps [simp]: "firsts [] = []" "firsts (xs @ [x]) = (if x \<in> set xs then firsts xs else firsts xs @ [x])"
  by (simp_all add: firsts_def)

lemma set_firsts [simp]: "set (firsts xs) = set xs"
  by (simp add: firsts_def)

lemma distinct_firsts [simp]: "distinct (firsts xs)"
  by (simp add: firsts_def)

lemma push_exporter_loop:
  "foldl push_exporter ([], []) raws =
     (rev (firsts (filter push_kind (map trim_space raws))), firsts (filter push_kind (map trim_space raws)))"
proof (induction raws rule: rev_induct)
  case (snoc raw raws)
  then show ?case
    by (auto simp: push_exporter_def Let_def push_kind_def)
qed simp

lemma get_del: "map_of (map_del k m) = (map_of m)(k := None)"
  by (induction m) (auto simp: map_del_def fun_eq_iff)

lemma exporterForKind_env: "map_of (fst (exporterForKind key kind factory env)) = map_of env"
  by (auto simp: exporterForKind_def setEnvScoped_def get_del split: option.splits)

lemma exporterForKind_result: "snd (exporterForKind key kind factory env) = factory (map_put key kind env)"
  by (simp add: exporterForKind_def setEnvScoped_def)

lemma push_readers_env: "map_of (fst (push_readers w kinds env)) = map_of env"
proof (induction w kinds env rule: push_readers.induct)
  case (2 w kind kinds env)
  obtain env' r where r: "exporterForKind ''OTEL_METRICS_EXPORTER'' kind (NewMetricReader w) env = (env', r)"
    by force
  then have "map_of env' = map_of env"
    using exporterForKind_env [of "''OTEL_METRICS_EXPORTER''" kind "NewMetricReader w" env] by simp
  with 2 r show ?case
    by (cases r) (auto split: prod.splits sum.splits)
qed simp

lemma push_readers_ok: "push_readers w kinds env = (env', Inr rs) \<Longrightarrow> rs = map Push_reader kinds"
  by (induction kinds arbitrary: env rs) (auto split: prod.splits option.splits sum.splits)

lemma buildMeterProvider_env: "map_of (fst (buildMeterProvider w cfg env)) = map_of env"
  using push_readers_env [of w "parsePushExporters (MetricsExporter cfg)" env]
  by (auto simp: buildMeterProvider_def split: sum.splits prod.splits if_splits)

lemma buildMeterProvider_ok:
  assumes "buildMeterProvider w cfg env = (env', Inr (readers, h))"
  shows "readers = (if PrometheusEnabled cfg then [Prom_reader] else [])
      @ map Push_reader (parsePushExporters (MetricsExporter cfg))"
    and "h = (if PrometheusEnabled cfg then Some (PromMaxRequests cfg) else None)"
  using assms push_readers_ok
  by (auto simp: buildMeterProvider_def newPromReader_def split: sum.splits prod.splits if_splits option.splits)

lemma setup_logs_env: "map_of (fst (setup_logs w cfg evs res env)) = map_of env"
  using exporterForKind_env [of "''OTEL_LOGS_EXPORTER''" "LogsExporter cfg" "NewLogExporter w" env]
  by (auto simp: setup_logs_def buildLoggerProvider_def split: prod.splits option.splits)

lemma setup_traces_env: "map_of (fst (setup_traces w cfg evs res env)) = map_of env"
  using exporterForKind_env [of "''OTEL_TRACES_EXPORTER''" "TracesExporter cfg" "NewSpanExporter w" env]
  by (auto simp: setup_traces_def buildTracerProvider_def setup_logs_env split: prod.splits option.splits)

lemma setup_flags_env: "map_of (fst (setup_flags w cfg env)) = map_of env"
  using buildMeterProvider_env [of w "setup_defaults cfg" env]
  by (auto simp: setup_flags_def buildResource_def Let_def setup_traces_env split: prod.splits option.splits sum.splits)

lemma setup_logs_ok:
  assumes "setup_logs w cfg evs res env = (env', evs', Inr r)"
  shows "r = (if LogsExporter cfg \<noteq> ''none'' then
      res\<lparr>LoggerTeed := True, ShutdownOf := ShutdownOf res @ [Logger_provider (LogsExporter cfg)]\<rparr> else res)"
  using assms by (auto simp: setup_logs_def buildLoggerProvider_def split: if_splits prod.splits option.splits)

lemma setup_traces_ok:
  assumes "setup_traces w cfg evs res env = (env', evs', Inr r)"
    and "\<not> TracerProvided res" and "\<not> LoggerTeed res"
  shows "PromHandler r = PromHandler res \<and> TracerProvided r = (TracesExporter cfg \<noteq> ''none'')
    \<and> LoggerTeed r = (LogsExporter cfg \<noteq> ''none'')
    \<and> ShutdownOf r = ShutdownOf res
      @ (if TracesExporter cfg \<noteq> ''none'' then [Tracer_provider (TracesExporter cfg)] else [])
      @ (if LogsExporter cfg \<noteq> ''none'' then [Logger_provider (LogsExporter cfg)] else [])"
  using assms by (auto simp: setup_traces_def buildTracerProvider_def dest!: setup_logs_ok split: if_splits prod.splits option.splits)

lemma first_index_iff: "first_index i bs = None \<longleftrightarrow> True \<notin> set bs"
  by (induction bs arbitrary: i) auto

lemma first_index_Some:
  "first_index k bs = Some i \<longleftrightarrow> (\<exists>j. i = k + j \<and> j < length bs \<and> bs ! j \<and> (\<forall>l<j. \<not> bs ! l))"
proof (induction bs arbitrary: k)
  case (Cons b bs)
  show ?case
  proof (cases b)
    case True
    have "j = 0" if "\<forall>l<j. \<not> (b # bs) ! l" for j
      using that True by (cases j) auto
    then show ?thesis
      using True by auto
  next
    case False
    have zero_or_Suc: "(\<exists>j. P j) \<longleftrightarrow> P 0 \<or> (\<exists>j. P (Suc j))" for P :: "nat \<Rightarrow> bool"
      by (metis not0_implies_Suc)
    show ?thesis
      using False Cons.IH [of "Suc k"] by (subst zero_or_Suc) (simp add: All_less_Suc2)
  qed
qed simp

text \<open>The refusal of a pull reader is the error of no other step of the YAML path.\<close>

lemma setup_sdk_error: "setup_sdk w parsed opts h env = (env', evs, Inl e) \<Longrightarrow> \<exists>m. e = Build_sdk_failed m"
  by (auto simp: setup_sdk_def Let_def split: sum.splits)

lemma setup_yaml_refuses:
  assumes "ServiceName cfg \<noteq> []" and "ReadConfig w (ConfigFile cfg) = Some raw" and "ParseYAML w raw = Inr p"
    and "rejectPullReaders (Some p) = Some i"
  shows "setupFromYAML w cfg env = (env, [Set_error_handler], Inl (Pull_reader i))"
  using assms by (simp add: setupFromYAML_def Let_def)

lemma setup_yaml_refused:
  assumes "setupFromYAML w cfg env = (env', evs, Inl (Pull_reader i))"
  shows "ServiceName cfg \<noteq> [] \<and> (\<exists>raw p. ReadConfig w (ConfigFile cfg) = Some raw \<and> ParseYAML w raw = Inr p
    \<and> rejectPullReaders (Some p) = Some i)"
  using assms setup_sdk_error
  by (fastforce simp: setupFromYAML_def Let_def newPromReader_def split: if_splits option.splits sum.splits)

text \<open>A failure after the meter provider is installed.\<close>

lemma setup_logs_events: "setup_logs w cfg evs res env = (env', evs', r) \<Longrightarrow> set evs \<subseteq> set evs'"
  by (auto simp: setup_logs_def buildLoggerProvider_def split: if_splits prod.splits option.splits)

lemma setup_traces_events: "setup_traces w cfg evs res env = (env', evs', r) \<Longrightarrow> set evs \<subseteq> set evs'"
  by (fastforce simp: setup_traces_def buildTracerProvider_def dest: setup_logs_events split: if_splits prod.splits option.splits)

text \<open>What a success of the YAML path went through.\<close>

lemma setup_sdk_ok:
  assumes "setup_sdk w parsed opts h env = (env', evs, Inr r)"
  shows "map_of env' = (map_of env)(''OTEL_CONFIG_FILE'' := None) \<and> PromHandler r = h
    \<and> NewSDK w env' parsed opts = Inr (LoggerTeed r)"
  using assms by (auto simp: setup_sdk_def Let_def envVarConfigFile_def get_del fun_eq_iff
      split: sum.splits option.splits)

lemma setup_yaml_ok:
  assumes "setupFromYAML w cfg env = (env', evs, Inr r)"
  shows "\<exists>p h. rejectPullReaders (Some p) = None
    \<and> setup_sdk w (if PrometheusEnabled cfg \<and> YamlReaders p = None then p\<lparr>YamlReaders := Some []\<rparr> else p)
        (if PrometheusEnabled cfg then [Prom_reader] else []) h env = (env', evs, Inr r)
    \<and> (h \<noteq> None) = PrometheusEnabled cfg"
proof -
  obtain raw p where "ReadConfig w (ConfigFile cfg) = Some raw" "ParseYAML w raw = Inr p"
      "rejectPullReaders (Some p) = None"
    using assms by (auto simp: setupFromYAML_def Let_def split: if_splits option.splits sum.splits)
  then show ?thesis
    using assms
    by (intro exI [of _ p]) (auto simp: setupFromYAML_def Let_def newPromReader_def
        split: if_splits option.splits)
qed

lemma setup_yaml_built:
  assumes "setupFromYAML w cfg env = (env', evs, Inr r)"
  shows "\<exists>parsed opts. NewSDK w env' parsed opts = Inr (LoggerTeed r)
    \<and> map_of env' = (map_of env)(''OTEL_CONFIG_FILE'' := None)
    \<and> opts = (if PrometheusEnabled cfg then [Prom_reader] else [])
    \<and> (YamlReaders parsed = None \<longrightarrow> \<not> PrometheusEnabled cfg)
    \<and> pred_option (\<lambda>rs. True \<notin> set rs) (YamlReaders parsed)
    \<and> (PromHandler r \<noteq> None) = PrometheusEnabled cfg"
proof -
  obtain p h where p: "rejectPullReaders (Some p) = None" "(h \<noteq> None) = PrometheusEnabled cfg"
    and r: "setup_sdk w (if PrometheusEnabled cfg \<and> YamlReaders p = None then p\<lparr>YamlReaders := Some []\<rparr> else p)
        (if PrometheusEnabled cfg then [Prom_reader] else []) h env = (env', evs, Inr r)"
    using setup_yaml_ok [OF assms] by blast
  define parsed where
    "parsed = (if PrometheusEnabled cfg \<and> YamlReaders p = None then p\<lparr>YamlReaders := Some []\<rparr> else p)"
  have sdk: "setup_sdk w parsed (if PrometheusEnabled cfg then [Prom_reader] else []) h env = (env', evs, Inr r)"
    using r by (simp add: parsed_def)
  have "pred_option (\<lambda>rs. True \<notin> set rs) (YamlReaders parsed)"
    using p(1) by (auto simp: parsed_def rejectPullReaders_def first_index_iff split: option.splits)
  moreover have "YamlReaders parsed = None \<longrightarrow> \<not> PrometheusEnabled cfg"
    by (auto simp: parsed_def)
  ultimately show ?thesis
    using setup_sdk_ok [OF sdk] p(2)
    by (intro exI [of _ parsed] exI [of _ "if PrometheusEnabled cfg then [Prom_reader] else []"]) simp
qed

section \<open>Properties\<close>

text \<open>The metric exporter selector: \<open>none\<close> alone gives no push reader; otherwise the
  trimmed entries of the list in order of first occurrence, without empty entries, repetitions
  and \<open>prometheus\<close>.\<close>

lemma push_exporters_normalised:
  "parsePushExporters s =
     (if trim_space s = ''none'' then []
      else firsts (filter (\<lambda>k. k \<noteq> [] \<and> k \<noteq> ''prometheus'') (map trim_space (split_on (CHR '','') s))))
   \<and> distinct (parsePushExporters s)"
proof -
  have "push_kind = (\<lambda>k. k \<noteq> [] \<and> k \<noteq> ''prometheus'')"
    by (simp add: push_kind_def fun_eq_iff)
  then show ?thesis
    by (simp add: parsePushExporters_def push_exporter_loop)
qed

text \<open>Property C24. Set-up from flags leaves every environment variable as it was, also when it
  fails. When it succeeds, the Prometheus handler is there exactly when enabled (with 40 concurrent
  requests unless configured), the meter provider has the Prometheus reader and one push reader
  per selected kind, traces and logs have a provider exactly when selected, and shutting down
  covers every provider built.\<close>

theorem setup_pipeline:
  assumes "ConfigFile cfg = []"
  shows "case Setup w cfg env of (env', evs, res) \<Rightarrow>
      map_of env' = map_of env \<and>
      (case res of Inl e \<Rightarrow> True | Inr r \<Rightarrow>
         (let c = setup_defaults cfg;
              readers = (if PrometheusEnabled cfg then [Prom_reader] else [])
                @ map Push_reader (parsePushExporters (MetricsExporter c))
          in PromHandler r = (if PrometheusEnabled cfg then Some (int_or (PromMaxRequests cfg) 40) else None)
             \<and> TracerProvided r = (TracesExporter c \<noteq> ''none'')
             \<and> LoggerTeed r = (LogsExporter c \<noteq> ''none'')
             \<and> ShutdownOf r = [Meter_provider readers]
                 @ (if TracesExporter c \<noteq> ''none'' then [Tracer_provider (TracesExporter c)] else [])
                 @ (if LogsExporter c \<noteq> ''none'' then [Logger_provider (LogsExporter c)] else [])
             \<and> Set_meter_provider readers \<in> set evs))"
proof -
  let ?c = "setup_defaults cfg"
  obtain env' evs res where s: "setup_flags w cfg env = (env', evs, res)"
    by (metis prod_cases3)
  have same: "PrometheusEnabled ?c = PrometheusEnabled cfg" "PromMaxRequests ?c = int_or (PromMaxRequests cfg) 40"
    by (simp_all add: setup_defaults_def)
  have "map_of env' = map_of env"
    using setup_flags_env [of w cfg env] s by simp
  moreover have "\<exists>env1 readers h. buildMeterProvider w ?c env = (env1, Inr (readers, h))
      \<and> setup_traces w ?c ([Set_error_handler, Set_meter_provider readers] @ runtime_started w @ [Set_propagator])
         \<lparr>TracerProvided = False, PromHandler = h, LoggerTeed = False, ShutdownOf = [Meter_provider readers]\<rparr> env1
        = (env', evs, Inr r)" if "res = Inr r" for r
    using s that by (auto simp: setup_flags_def buildResource_def Let_def split: if_splits option.splits prod.splits sum.splits)
  moreover have "PromHandler r = (if PrometheusEnabled cfg then Some (int_or (PromMaxRequests cfg) 40) else None)
      \<and> TracerProvided r = (TracesExporter ?c \<noteq> ''none'') \<and> LoggerTeed r = (LogsExporter ?c \<noteq> ''none'')
      \<and> ShutdownOf r = [Meter_provider readers]
          @ (if TracesExporter ?c \<noteq> ''none'' then [Tracer_provider (TracesExporter ?c)] else [])
          @ (if LogsExporter ?c \<noteq> ''none'' then [Logger_provider (LogsExporter ?c)] else [])
      \<and> Set_meter_provider readers \<in> set evs
      \<and> readers = (if PrometheusEnabled cfg then [Prom_reader] else []) @ map Push_reader (parsePushExporters (MetricsExporter ?c))"
    if b: "buildMeterProvider w ?c env = (env1, Inr (readers, h))"
      and t: "setup_traces w ?c ([Set_error_handler, Set_meter_provider readers] @ runtime_started w @ [Set_propagator])
         \<lparr>TracerProvided = False, PromHandler = h, LoggerTeed = False, ShutdownOf = [Meter_provider readers]\<rparr> env1
        = (env', evs, Inr r)"
    for env1 readers h r
    using buildMeterProvider_ok [OF b] setup_traces_ok [OF t] setup_traces_events [OF t] same by simp
  ultimately show ?thesis
    using assms s by (cases res) (auto simp: Setup_def Let_def)
qed

text \<open>Property C25. Set-up from a YAML file: it is refused with the index of a pull reader exactly when the service
  has a name, the file is read and parsed, and that reader is the first pull reader in it, and then nothing
  but the error handler has been installed and the environment is as it was; when it succeeds, the SDK was built without \<open>OTEL_CONFIG_FILE\<close> in
  the environment, from a configuration without pull readers, and if Prometheus is enabled it was given the
  Prometheus reader together with a meter provider to attach it to.\<close>

theorem yaml_setup:
  assumes "ConfigFile cfg \<noteq> []" and "Setup w cfg env = (env', evs, res)"
  shows "(res = Inl (Pull_reader i) \<longleftrightarrow> ServiceName cfg \<noteq> []
      \<and> (\<exists>raw p rs. ReadConfig w (ConfigFile cfg) = Some raw \<and> ParseYAML w raw = Inr p \<and> YamlReaders p = Some rs
          \<and> i < length rs \<and> rs ! i \<and> True \<notin> set (take i rs)))
    \<and> (res = Inl (Pull_reader i) \<longrightarrow> env' = env \<and> evs = [Set_error_handler])
    \<and> (case res of
         Inl e \<Rightarrow> True
       | Inr r \<Rightarrow> (\<exists>parsed opts. NewSDK w env' parsed opts = Inr (LoggerTeed r)
           \<and> map_of env' = (map_of env)(''OTEL_CONFIG_FILE'' := None)
           \<and> opts = (if PrometheusEnabled cfg then [Prom_reader] else [])
           \<and> (YamlReaders parsed = None \<longrightarrow> \<not> PrometheusEnabled cfg)
           \<and> pred_option (\<lambda>rs. True \<notin> set rs) (YamlReaders parsed)
           \<and> (PromHandler r \<noteq> None) = PrometheusEnabled cfg))"
proof -
  have yaml: "setupFromYAML w cfg env = (env', evs, res)"
    using assms by (simp add: Setup_def)
  have first: "rejectPullReaders (Some p) = Some i \<longleftrightarrow>
      (\<exists>rs. YamlReaders p = Some rs \<and> i < length rs \<and> rs ! i \<and> True \<notin> set (take i rs))" for p
    by (auto simp: rejectPullReaders_def first_index_Some in_set_conv_nth split: option.split)
  have "res = Inl (Pull_reader i) \<longleftrightarrow> ServiceName cfg \<noteq> []
      \<and> (\<exists>raw p. ReadConfig w (ConfigFile cfg) = Some raw \<and> ParseYAML w raw = Inr p
          \<and> rejectPullReaders (Some p) = Some i)"
    using setup_yaml_refused [of w cfg env env' evs i] setup_yaml_refuses [of cfg w _ _ i env] yaml by auto
  moreover have "res = Inl (Pull_reader i) \<longrightarrow> env' = env \<and> evs = [Set_error_handler]"
    using setup_yaml_refused [of w cfg env env' evs i] setup_yaml_refuses [of cfg w _ _ i env] yaml by auto
  ultimately show ?thesis
    using setup_yaml_built [of w cfg env env' evs] yaml unfolding first by (cases res) simp_all
qed

text \<open>The log handler that fans out calls each handler enabled for the record's level
  exactly once and no other, reports exactly the errors they returned, and is enabled exactly when
  one of them is; for handlers with a threshold, from the least threshold on.\<close>

lemma multi_handler_fans_out:
  "multi_Handle en handle m r =
     (filter (\<lambda>h. en h (RecLevel r)) m, List.map_filter (\<lambda>h. handle h r) (filter (\<lambda>h. en h (RecLevel r)) m))
   \<and> multi_Enabled en m l = (\<exists>h \<in> set m. en h l)
   \<and> multi_Enabled (\<lambda>t l. t \<le> l) (t # ts) l = (Min (set (t # ts)) \<le> l)"
  by (simp add: multi_Handle_def multi_call_loop multi_Enabled_def list_ex_iff Min_le_iff del: Min_insert)

text \<open>Property C39. When the trace exporter cannot be built, set-up fails after it has installed the
  meter provider, and hands back no way to shut it down.\<close>

theorem setup_failure_keeps_meter_provider:
  assumes "ConfigFile cfg = []" and "ServiceName cfg \<noteq> []" and "TracesExporter cfg \<notin> {[], ''none''}"
    and "NewResource w (ServiceName cfg) (ServiceVersion cfg) = None"
    and "buildMeterProvider w (setup_defaults cfg) env = (env1, Inr (readers, h))"
    and "NewSpanExporter w (map_put ''OTEL_TRACES_EXPORTER'' (TracesExporter cfg) env1) = Some e"
  shows "case Setup w cfg env of (env', evs, res) \<Rightarrow>
    res = Inl (Span_exporter_failed e) \<and> Set_meter_provider readers \<in> set evs"
proof -
  have c: "ServiceName (setup_defaults cfg) = ServiceName cfg" "ServiceVersion (setup_defaults cfg) = ServiceVersion cfg"
    "TracesExporter (setup_defaults cfg) = TracesExporter cfg"
    using assms(3) by (simp_all add: setup_defaults_def str_or_def)
  show ?thesis
    using assms exporterForKind_result [of "''OTEL_TRACES_EXPORTER''" "TracesExporter cfg" "NewSpanExporter w" env1]
    by (auto simp: Setup_def setup_flags_def buildResource_def Let_def c setup_traces_def buildTracerProvider_def split: prod.splits)
qed

section \<open>Examples\<close>

definition ex_otel_world :: otel_world where
  "ex_otel_world = \<lparr>NewResource = (\<lambda>_ _. None), NewProm = None, NewMetricReader = (\<lambda>_. None),
     NewSpanExporter = (\<lambda>env. if map_of env ''OTEL_TRACES_EXPORTER'' = Some ''otlp'' then None else Some ''unknown''),
     NewLogExporter = (\<lambda>_. None), RuntimeStart = None, ReadConfig = (\<lambda>p. Some ''file''),
     ParseYAML = (\<lambda>_. Inr \<lparr>YamlReaders = None, YamlRest = []\<rparr>), NewSDK = (\<lambda>_ _ _. Inr True)\<rparr>"

definition ex_otel_config :: "string \<Rightarrow> string \<Rightarrow> otel_config" where
  "ex_otel_config traces file = \<lparr>ServiceName = ''ovs-exporter'', ServiceVersion = ''1'', MetricsExporter = [],
     TracesExporter = traces, LogsExporter = ''none'', PromMaxRequests = 0, ConfigFile = file,
     PrometheusEnabled = True\<rparr>"

lemma ex_world_simps:
  "NewResource ex_otel_world n v = None" "NewSpanExporter ex_otel_world env
     = (if map_of env ''OTEL_TRACES_EXPORTER'' = Some ''otlp'' then None else Some ''unknown'')"
  "RuntimeStart ex_otel_world = None"
  by (simp_all add: ex_otel_world_def)

lemma ex_config_simps:
  "ServiceName (setup_defaults (ex_otel_config t f)) \<noteq> []" "ConfigFile (ex_otel_config t f) = f"
  "LogsExporter (setup_defaults (ex_otel_config t f)) = ''none''"
  "TracesExporter (setup_defaults (ex_otel_config t f)) = str_or t ''none''"
  "MetricsExporter (setup_defaults (ex_otel_config t f)) = ''none''"
  "PrometheusEnabled (ex_otel_config t f)"
  by (simp_all add: ex_otel_config_def setup_defaults_def str_or_def)

lemma ex_none: "parsePushExporters ''none'' = []"
proof -
  have "trim_space ''none'' = ''none''"
    by (simp add: plain_simps)
  then show ?thesis
    by (simp add: parsePushExporters_def)
qed

lemma ex_meter_provider: "buildMeterProvider ex_otel_world (setup_defaults (ex_otel_config t f)) env
  = (env, Inr ([Prom_reader], Some 40))"
  by (simp add: buildMeterProvider_def setup_defaults_def ex_otel_config_def str_or_def int_or_def ex_none
      newPromReader_def ex_otel_world_def)

theorem setup_pipeline_witness:
  "map_of (fst (Setup ex_otel_world (ex_otel_config ''otlp'' []) [(''A'', ''1'')])) = [''A'' \<mapsto> ''1'']
   \<and> ShutdownOf (projr (snd (snd (Setup ex_otel_world (ex_otel_config ''otlp'' []) [(''A'', ''1'')]))))
     = [Meter_provider [Prom_reader], Tracer_provider ''otlp'']"
proof -
  let ?s = "Setup ex_otel_world (ex_otel_config ''otlp'' []) [(''A'', ''1'')]"
  have "\<exists>r. snd (snd ?s) = Inr r"
    by (simp add: Setup_def setup_flags_def buildResource_def Let_def ex_meter_provider setup_traces_def buildTracerProvider_def setup_logs_def buildLoggerProvider_def
        exporterForKind_def setEnvScoped_def ex_world_simps ex_config_simps str_or_def)
  then obtain env' evs r where s: "?s = (env', evs, Inr r)"
    by (cases ?s) auto
  show ?thesis
    using setup_pipeline [where cfg = "ex_otel_config ''otlp'' []" and w = ex_otel_world and env = "[(''A'', ''1'')]"]
    by (simp add: s Let_def ex_config_simps ex_none str_or_def)
qed

theorem yaml_setup_witness:
  "snd (snd (Setup (ex_otel_world\<lparr>ParseYAML := \<lambda>_. Inr \<lparr>YamlReaders = Some [False, True, True], YamlRest = []\<rparr>\<rparr>)
     (ex_otel_config [] ''otel.yaml'') [])) = Inl (Pull_reader 1)"
proof -
  let ?w = "ex_otel_world\<lparr>ParseYAML := \<lambda>_. Inr \<lparr>YamlReaders = Some [False, True, True], YamlRest = []\<rparr>\<rparr>"
  obtain env' evs res where s: "Setup ?w (ex_otel_config [] ''otel.yaml'') [] = (env', evs, res)"
    by (metis prod_cases3)
  have "ConfigFile (ex_otel_config [] ''otel.yaml'') \<noteq> []"
    by (simp add: ex_otel_config_def)
  from yaml_setup [OF this s, of 1] have "res = Inl (Pull_reader 1)"
    by (simp add: ex_otel_config_def ex_otel_world_def)
  then show ?thesis
    by (simp add: s)
qed

theorem setup_failure_keeps_meter_provider_witness:
  "case Setup ex_otel_world (ex_otel_config ''oltp'' []) [] of (env', evs, res) \<Rightarrow>
     res = Inl (Span_exporter_failed ''unknown'') \<and> Set_meter_provider [Prom_reader] \<in> set evs"
  by (rule setup_failure_keeps_meter_provider [OF _ _ _ _ ex_meter_provider])
    (simp_all add: ex_otel_config_def ex_otel_world_def)

end
