(* ===== verification/Exporter.thy ===== *)
theory Exporter
  imports Registry Probes Otel
begin

text \<open>
  \<^verbatim>\<open>ovs_exporter.go\<close>: the wiring of the program. The flag parser, the landing page, the web server
  and the clock are outside the repository; \<^verbatim>\<open>http.ServeMux\<close> is modelled for patterns that are
  plain paths or have no slash.
\<close>

section \<open>Routes\<close>

datatype route =
    Prom_route
  | Health_route
  | Ready_route
  | Landing_route "(string \<times> string) list" \<comment> \<open>address and text of its links\<close>

type_synonym mux = "(string \<times> route) list"

datatype mux_result =
    Mux_ok mux
  | Mux_panic string \<comment> \<open>a pattern without a slash, or registered twice\<close>
  | Mux_other string \<comment> \<open>a pattern with a slash that is not a plain path\<close>
  | Landing_failed string

text \<open>
  A plain path: it starts with a slash and holds no wildcard, no blank, and no empty, \<open>.\<close> or \<open>..\<close>
  segment (a final slash is allowed). Two plain paths conflict only when they are equal. A pattern without a
  slash is never accepted.
\<close>

definition plain_path :: "string \<Rightarrow> bool" where
  "plain_path p \<longleftrightarrow> p \<noteq> [] \<and> hd p = slash
     \<and> list_all (\<lambda>c. ascii c \<and> \<not> blank c \<and> c \<noteq> CHR ''{'' \<and> c \<noteq> CHR ''}'') p
     \<and> list_all segment (butlast (tl (split_on slash p)))
     \<and> (last (split_on slash p) = [] \<or> segment (last (split_on slash p)))"

definition mux_handle :: "string \<Rightarrow> route \<Rightarrow> mux_result \<Rightarrow> mux_result" where
  "mux_handle p h m =
     (case m of
        Mux_ok routes \<Rightarrow>
          if slash \<notin> set p then Mux_panic p
          else if \<not> plain_path p then Mux_other p
          else if p \<in> fst ` set routes then Mux_panic p
          else Mux_ok (routes @ [(p, h)])
      | _ \<Rightarrow> m)"

text \<open>\<open>landing\<close> is the error of \<^verbatim>\<open>web.NewLandingPage\<close>, if any.\<close>

definition buildHandler :: "bool \<Rightarrow> string \<Rightarrow> string option \<Rightarrow> mux_result" where
  "buildHandler hasProm metricsPath landing =
     (let m = Mux_ok [];
          m = (if hasProm then mux_handle metricsPath Prom_route m else m);
          m = mux_handle ''/readyz'' Ready_route (mux_handle ''/healthz'' Health_route m)
      in if metricsPath \<noteq> ''/'' then
           (let links = (if hasProm then [(metricsPath, ''Metrics'')] else [])
                  @ [(''/healthz'', ''Health''), (''/readyz'', ''Readiness'')]
            in case m of
                 Mux_ok _ \<Rightarrow>
                   (case landing of
                      Some e \<Rightarrow> Landing_failed e
                    | None \<Rightarrow> mux_handle ''/'' (Landing_route links) m)
               | _ \<Rightarrow> m)
         else m)"



section \<open>Readiness\<close>

text \<open>
  The two checks, evaluated when a request arrives. \<open>health_text\<close> and \<open>stale_text\<close> are the texts of the
  errors; \<^verbatim>\<open>3 * ttl\<close> is a product of 64-bit integers.
\<close>

definition buildReadyChecks ::
    "(health_error \<Rightarrow> string) \<Rightarrow> (refresh_error stale_error \<Rightarrow> string) \<Rightarrow> ('i \<Rightarrow> bool) \<Rightarrow> int
      \<Rightarrow> 'i ovsdb_client option \<Rightarrow> (refresh_error, ovs_snapshot) scraper \<Rightarrow> int64 \<Rightarrow> checks" where
  "buildReadyChecks health_text stale_text connected now ovsClient ovsScraper ttl =
     [(''ovsdb'', map_option health_text (ovsdb_healthy connected ovsClient)),
      (''unixctl-ovs'', map_option stale_text (scraper_stale now (3 * ttl) ovsScraper))]"

section \<open>The program\<close>

record flags =
  MetricsPath :: string
  DbSocket :: string
  OvsRunDir :: string
  CacheTTL :: int64
  WebPrometheus :: bool
  MaxProcs :: int64

text \<open>
  The flags \<^verbatim>\<open>ovs_exporter.go\<close> declares, in order, and the values they have when they are not given. The
  toolkit adds its own flags for the listen address.
\<close>

record env_flag = flag_decl +
  FlagEnvar :: "string option"

definition plain_flag :: "string \<Rightarrow> string \<Rightarrow> string \<Rightarrow> env_flag" where
  "plain_flag name help def = \<lparr>FlagName = name, FlagHelp = help, FlagDefault = def, FlagEnvar = None\<rparr>"

definition program_flags :: "env_flag list" where
  "program_flags =
     [plain_flag ''web.telemetry-path'' ''Path under which to expose metrics.'' ''/metrics'',
      (plain_flag ''runtime.gomaxprocs'' ''The target number of CPUs Go will run on (GOMAXPROCS).'' ''1'')
        \<lparr>FlagEnvar := Some ''GOMAXPROCS''\<rparr>,
      plain_flag ''ovs.db-socket'' ''libovsdb endpoint for the Open_vSwitch database.''
        ''unix:/var/run/openvswitch/db.sock'',
      plain_flag ''ovs.run-dir'' ''Directory containing the ovs-vswitchd unix control socket and pid file.''
        ''/var/run/openvswitch'',
      plain_flag ''cache.ttl''
        ''TTL between successive unixctl scrapes. ovsdb data is monitor-cached and ignores this.'' ''60s'',
      plain_flag ''web.prometheus''
        ''Serve the Prometheus scrape endpoint at --web.telemetry-path. Disable for OTLP-push-only deployments.''
        ''true'']"

definition flag_default :: "string \<Rightarrow> string" where
  "flag_default name = the (map_of (map (\<lambda>d. (FlagName d, FlagDefault d)) program_flags) name)"

text \<open>The durations and numbers are read as \<^verbatim>\<open>60s\<close> and \<^verbatim>\<open>1\<close> stand for.\<close>

definition default_flags :: flags where
  "default_flags = \<lparr>MetricsPath = flag_default ''web.telemetry-path'', DbSocket = flag_default ''ovs.db-socket'',
     OvsRunDir = flag_default ''ovs.run-dir'', CacheTTL = 60 * second_ns,
     WebPrometheus = (flag_default ''web.prometheus'' = ''true''), MaxProcs = 1\<rparr>"

record 'i program_world =
  Getenv :: env
  OtelW :: otel_world
  DbW :: "'i ovsdb_world"
  MeterW :: meter
  ValW :: "string \<Rightarrow> bool" \<comment> \<open>values of the collector flags\<close>
  GivenW :: "string \<Rightarrow> bool" \<comment> \<open>collector flags given\<close>
  LandingW :: "string option"
  ServeError :: "string option" \<comment> \<open>how serving ends: an error, or a signal\<close>
  UnregW :: "nat \<Rightarrow> string option"

datatype program_event =
    Procs_set int64
  | Db_action ovsdb_action
  | Db_unavailable
  | Registered_names "string list"
  | Scraper_started
  | Serving mux
  | Scraper_cancelled
  | Server_shutdown
  | Unregistered nat
  | Unixctl_closed
  | Otel_shutdown provider

datatype exit =
    Exit nat
  | Panic string
  | Other_pattern string

definition getenv :: "env \<Rightarrow> string \<Rightarrow> string" where
  "getenv env k = (case map_get env k of None \<Rightarrow> [] | Some v \<Rightarrow> v)"

definition program_otel_config :: "flags \<Rightarrow> env \<Rightarrow> string \<Rightarrow> otel_config" where
  "program_otel_config fl env version =
     \<lparr>ServiceName = str_or (getenv env ''OTEL_SERVICE_NAME'') ''ovs-exporter'', ServiceVersion = version,
      MetricsExporter = str_or (getenv env ''OTEL_METRICS_EXPORTER'') ''none'',
      TracesExporter = str_or (getenv env ''OTEL_TRACES_EXPORTER'') ''none'',
      LogsExporter = str_or (getenv env ''OTEL_LOGS_EXPORTER'') ''none'',
      PromMaxRequests = 0, ConfigFile = getenv env ''OTEL_CONFIG_FILE'',
      PrometheusEnabled = WebPrometheus fl\<rparr>"

definition program_db :: "'i program_world \<Rightarrow> flags \<Rightarrow> bool \<Rightarrow> program_event list \<times> 'i ovsdb_client option" where
  "program_db w fl tracer =
     (case ovsdb_connect (DbW w)
         \<lparr>Endpoint = DbSocket fl, ReconnectTimeout = 0, DbLogger = True, DbTracer = tracer\<rparr> of
        (acts, Inl e) \<Rightarrow> (map Db_action acts @ [Db_unavailable], None)
      | (acts, Inr c) \<Rightarrow> (map Db_action acts, Some c))"

definition unixctl_config :: "flags \<Rightarrow> client_config" where
  "unixctl_config fl = \<lparr>SocketPath = [], RunDir = OvsRunDir fl, Daemon = ''ovs-vswitchd'', DialTimeout = 0,
     CallTimeout = 0, Logger = True\<rparr>"

definition program_scrape_config :: "flags \<Rightarrow> scrape_config" where
  "program_scrape_config fl = \<lparr>ConfName = ''ovs'', ConfInterval = CacheTTL fl, HasRefresh = True,
     HasLogger = True, HasTracer = True\<rparr>"

text \<open>The end of \<^verbatim>\<open>main\<close>, after serving has ended.\<close>

definition program_shutdown ::
    "'i program_world \<Rightarrow> group \<Rightarrow> 'i ovsdb_client option \<Rightarrow> otel_result \<Rightarrow> program_event list" where
  "program_shutdown w g db otel =
     [Scraper_cancelled, Server_shutdown] @ map Unregistered (fst (group_close (UnregW w) g))
     @ [Unixctl_closed]
     @ (case db of None \<Rightarrow> [] | Some c \<Rightarrow> map Db_action (ovsdb_close c))
     @ map Otel_shutdown (ShutdownOf otel)"

text \<open>
  The scraper runs in its own goroutine (\<^verbatim>\<open>Scraper.Run\<close> in \<open>Scraper\<close>). With a negative TTL that
  goroutine panics as soon as its first refresh has returned, which ends the process while it serves.
\<close>

definition program_serve ::
    "'i program_world \<Rightarrow> flags \<Rightarrow> otel_result \<Rightarrow> 'i ovsdb_client option \<Rightarrow> group \<Rightarrow> program_event list \<times> exit" where
  "program_serve w fl otel db g =
     (case buildHandler (PromHandler otel \<noteq> None) (MetricsPath fl) (LandingW w) of
        Mux_ok routes \<Rightarrow>
          if CacheTTL fl <s 0 then ([Serving routes], Panic ''non-positive interval for NewTicker'')
          else ([Serving routes] @ program_shutdown w g db otel,
            Exit (if ServeError w = None then 0 else 1))
      | Mux_panic p \<Rightarrow> ([], Panic p)
      | Mux_other p \<Rightarrow> ([], Other_pattern p)
      | Landing_failed e \<Rightarrow> ([], Exit 1))"

definition program_main :: "'i program_world \<Rightarrow> flags \<Rightarrow> string \<Rightarrow> program_event list \<times> exit" where
  "program_main w fl version =
     (case Setup (OtelW w) (program_otel_config fl (Getenv w) version) (Getenv w) of
        (_, _, Inl e) \<Rightarrow> ([Procs_set (MaxProcs fl)], Exit 1)
      | (_, _, Inr otel) \<Rightarrow>
          (case program_db w fl True of
             (dbEvents, db) \<Rightarrow>
               let events = Procs_set (MaxProcs fl) # dbEvents
               in (case client_new (unixctl_config fl) of
                  Inl e \<Rightarrow> (events, Exit 1)
                | Inr client \<Rightarrow>
                    (case (scraper_new (program_scrape_config fl)
                           :: scrape_new_error + (refresh_error, ovs_snapshot) scraper) of
                       Inl e \<Rightarrow> (events, Exit 1)
                     | Inr scraper \<Rightarrow>
                         (case NewGroup [] (flags_parsed (ValW w) (GivenW w) ovs_registry) of
                            Inl e \<Rightarrow> (events, Exit 1)
                          | Inr g \<Rightarrow>
                              (case RegisterAll (MeterW w) g of
                                 (g', Some e) \<Rightarrow> (events, Exit 1)
                               | (g', None) \<Rightarrow>
                                   (case program_serve w fl otel db g' of
                                      (evs, ex) \<Rightarrow>
                                        (events @ [Registered_names (group_names g'), Scraper_started] @ evs,
                                         ex))))))))"

section \<open>Facts about the routes\<close>

lemma fixed_paths [simp]: "plain_path ''/healthz''" "plain_path ''/readyz''" "plain_path ''/''"
  by (simp_all add: plain_path_def segment_def ascii_def blank_def)

lemma plain_slash [simp]: "plain_path p \<Longrightarrow> slash \<in> set p"
  by (cases p) (auto simp: plain_path_def)

lemma mux_handle_ok [simp]:
  "mux_handle p h (Mux_ok routes)
     = (if slash \<notin> set p then Mux_panic p else if \<not> plain_path p then Mux_other p
        else if p \<in> fst ` set routes then Mux_panic p else Mux_ok (routes @ [(p, h)]))"
  "mux_handle p h (Mux_panic q) = Mux_panic q"
  "mux_handle p h (Mux_other q) = Mux_other q"
  by (simp_all add: mux_handle_def)

definition the_links :: "bool \<Rightarrow> string \<Rightarrow> (string \<times> string) list" where
  "the_links hasProm mp = (if hasProm then [(mp, ''Metrics'')] else [])
     @ [(''/healthz'', ''Health''), (''/readyz'', ''Readiness'')]"

definition the_routes :: "bool \<Rightarrow> string \<Rightarrow> mux" where
  "the_routes hasProm mp = (if hasProm then [(mp, Prom_route)] else [])
     @ [(''/healthz'', Health_route), (''/readyz'', Ready_route)]
     @ (if mp \<noteq> ''/'' then [(''/'', Landing_route (the_links hasProm mp))] else [])"

lemma buildHandler_result:
  assumes "hasProm \<Longrightarrow> plain_path mp"
  shows "buildHandler hasProm mp landing =
    (if hasProm \<and> mp \<in> {''/healthz'', ''/readyz''} then Mux_panic mp
     else if mp \<noteq> ''/'' \<and> landing \<noteq> None then Landing_failed (the landing)
     else Mux_ok (the_routes hasProm mp))"
  using assms
  by (cases landing) (auto simp: buildHandler_def Let_def the_routes_def the_links_def)


section \<open>The verdict of the checks\<close>

lemma checks_ok: "map_ok (buildReadyChecks health_text stale_text connected now db s ttl)"
  by (simp add: buildReadyChecks_def map_ok_def)

lemma ready_checks_iff:
  "Status (Ready (buildReadyChecks health_text stale_text connected now db s ttl)) = 200
     \<longleftrightarrow> ovsdb_healthy connected db = None \<and> scraper_stale now (3 * ttl) s = None"
  by (simp add: ready_status [OF checks_ok]) (simp add: buildReadyChecks_def)

lemma sint_three:
  assumes "0 \<le> sint (ttl :: int64)" and "3 * sint ttl \<le> max_duration"
  shows "sint (3 * ttl) = 3 * sint ttl"
proof -
  have "3 * ttl = word_of_int (3 * sint ttl)"
    by simp
  then show ?thesis
    using assms by (simp only: sint_word_of_int max_duration_def)
qed

section \<open>Properties\<close>


text \<open>Property C34. A TTL of 0 is accepted and the scraper then refreshes every 15 seconds, but the
  readiness probe measures the age against three times the flag, so it answers 503 at every
  moment after the last refresh began.\<close>

theorem zero_ttl_never_ready:
  assumes "scraper_outcome s = out" and "OTime out < now" and "now - OTime out \<le> max_duration"
  shows "Status (Ready (buildReadyChecks health_text stale_text connected now db s 0)) = 503
    \<and> (\<exists>sc. scraper_new \<lparr>ConfName = ''ovs'', ConfInterval = 0, HasRefresh = True, HasLogger = True,
             HasTracer = True\<rparr> = Inr sc \<and> ConfInterval (ScConfig (sc :: (refresh_error, ovs_snapshot) scraper))
          = 15 * 1000000000)"
proof -
  have "sint (since now (OTime out)) = now - OTime out"
    using assms by (intro since_exact) simp
  then have "scraper_stale now (3 * 0) s \<noteq> None"
    using assms by (auto simp: scraper_stale_def Let_def word_sless_alt)
  then have "\<not> list_all (\<lambda>(n, c). c = None) (buildReadyChecks health_text stale_text connected now db s 0)"
    by (simp add: buildReadyChecks_def)
  moreover have "map_ok (buildReadyChecks health_text stale_text connected now db s 0)"
    by (simp add: buildReadyChecks_def map_ok_def)
  ultimately show ?thesis
    by (simp add: ready_status scraper_new_def)
qed

lemma program_serve_exit: "snd (program_serve (w\<lparr>DbW := d\<rparr>) fl otel db' g) = snd (program_serve w fl otel db g)"
  by (simp add: program_serve_def split: mux_result.split)

lemma startup_group: "\<exists>g. NewGroup [] (flags_parsed val given ovs_registry) = Inr g"
proof -
  have work: "factories_work (flags_parsed val given ovs_registry)"
    by (intro wired_factories wired_flags ovs_registry_wired)
  have "\<not> isl (the (map_of (Factories (flags_parsed val given ovs_registry)) n))"
    if "n \<in> fst ` set (State (flags_parsed val given ovs_registry))" for n
    using factory_present [OF work that] by auto
  then show ?thesis
    using instantiate_result by (simp add: NewGroup_def)
qed

lemma program_scraper: "\<exists>sc. scraper_new (program_scrape_config fl) = Inr sc"
  by (simp add: scraper_new_def program_scrape_config_def)

lemma unixctl_config_new: "(\<exists>c. client_new (unixctl_config fl) = Inr c) = (OvsRunDir fl \<noteq> [])"
  by (auto simp: client_new_def unixctl_config_def Let_def)

text \<open>The three fatal steps before serving, with the results they leave.\<close>

definition started :: "'i program_world \<Rightarrow> flags \<Rightarrow> string \<Rightarrow> otel_result \<Rightarrow> group \<Rightarrow> bool" where
  "started w fl version otel g \<longleftrightarrow>
     snd (snd (Setup (OtelW w) (program_otel_config fl (Getenv w) version) (Getenv w))) = Inr otel
     \<and> OvsRunDir fl \<noteq> []
     \<and> (\<exists>g0. NewGroup [] (flags_parsed (ValW w) (GivenW w) ovs_registry) = Inr g0
          \<and> RegisterAll (MeterW w) g0 = (g, None))"

lemma program_main_started:
  assumes "started w fl version otel g"
  shows "program_main w fl version =
    (Procs_set (MaxProcs fl) # fst (program_db w fl True) @ [Registered_names (group_names g), Scraper_started]
       @ fst (program_serve w fl otel (snd (program_db w fl True)) g),
     snd (program_serve w fl otel (snd (program_db w fl True)) g))"
proof -
  obtain g0 where g: "NewGroup [] (flags_parsed (ValW w) (GivenW w) ovs_registry) = Inr g0"
      "RegisterAll (MeterW w) g0 = (g, None)"
    and otel: "snd (snd (Setup (OtelW w) (program_otel_config fl (Getenv w) version) (Getenv w))) = Inr otel"
    and "OvsRunDir fl \<noteq> []"
    using assms by (auto simp: started_def)
  then obtain c where c: "client_new (unixctl_config fl) = Inr c"
    using unixctl_config_new [of fl] by blast
  obtain sc :: "(refresh_error, ovs_snapshot) scraper" where sc: "scraper_new (program_scrape_config fl) = Inr sc"
    using program_scraper by blast
  show ?thesis
    using otel g c sc by (simp add: program_main_def split_beta)
qed

lemma program_main_failed:
  assumes "\<And>otel g. \<not> started w fl version otel g"
  shows "snd (program_main w fl version) = Exit 1"
proof -
  obtain g0 where g0: "NewGroup [] (flags_parsed (ValW w) (GivenW w) ovs_registry) = Inr g0"
    using startup_group by blast
  obtain g r where g: "RegisterAll (MeterW w) g0 = (g, r)"
    by force
  obtain sc :: "(refresh_error, ovs_snapshot) scraper" where sc: "scraper_new (program_scrape_config fl) = Inr sc"
    using program_scraper by blast
  consider (otel_fails) er where "snd (snd (Setup (OtelW w) (program_otel_config fl (Getenv w) version) (Getenv w))) = Inl er"
    | (dir) otel where "OvsRunDir fl = []"
        "snd (snd (Setup (OtelW w) (program_otel_config fl (Getenv w) version) (Getenv w))) = Inr otel"
    | (register) otel er where "r = Some er" "OvsRunDir fl \<noteq> []"
        "snd (snd (Setup (OtelW w) (program_otel_config fl (Getenv w) version) (Getenv w))) = Inr otel"
    using assms g0 g
    by (cases "snd (snd (Setup (OtelW w) (program_otel_config fl (Getenv w) version) (Getenv w)))"; cases r)
      (auto simp: started_def)
  then show ?thesis
  proof cases
    case otel_fails
    then show ?thesis by (simp add: program_main_def split_beta)
  next
    case dir
    then have "\<nexists>c. client_new (unixctl_config fl) = Inr c"
      using unixctl_config_new [of fl] by simp
    then obtain er where "client_new (unixctl_config fl) = Inl er"
      by (cases "client_new (unixctl_config fl)") auto
    with dir show ?thesis by (simp add: program_main_def split_beta)
  next
    case register
    then obtain c where "client_new (unixctl_config fl) = Inr c"
      using unixctl_config_new [of fl] by blast
    with register sc g0 g show ?thesis by (simp add: program_main_def split_beta)
  qed
qed

lemma started_db [simp]: "started (w\<lparr>DbW := d\<rparr>) fl version otel g = started w fl version otel g"
  by (simp add: started_def)

lemma program_db_close:
  "(case snd (program_db w fl tracer) of None \<Rightarrow> [] | Some c \<Rightarrow> map Db_action (ovsdb_close c))
     = (if ovsdb_ready \<lparr>Endpoint = DbSocket fl, ReconnectTimeout = 0, DbLogger = True, DbTracer = tracer\<rparr> (DbW w)
        then [Db_action Inner_close] else [])"
  by (auto simp: program_db_def ovsdb_defs ovsdb_ready_def ovsdb_close_def
      split: option.splits sum.splits if_splits)

lemma close_handles:
  assumes "NewGroup [] (flags_parsed val given ovs_registry) = Inr g0" and "RegisterAll m g0 = (g, None)"
  shows "fst (group_close unreg g) = (if GCollectors g = [] then [] else [projr (Callback m up_name)])
    @ map (\<lambda>(n, c). projr (Callback m n)) (GCollectors g)"
proof -
  have wired: "registry_wired (flags_parsed val given ovs_registry)"
    by (intro wired_flags ovs_registry_wired)
  have "Registration (snd e) = Some (projr (Callback m (fst e)))" if "e \<in> set (GCollectors g)" for e
    using that registered_entries [OF assms(2) wired_group [OF wired assms(1)]] by (auto simp: list_all_iff)
  then have "handles cs = map (\<lambda>(n, c). projr (Callback m n)) cs" if "set cs \<subseteq> set (GCollectors g)" for cs
    using that by (induction cs) (auto simp: handles_def List.map_filter_simps)
  moreover have "UpCallback g = (if GCollectors g = [] then None else Some (projr (Callback m up_name)))"
    using RegisterAll_ok [OF assms(2)] fresh_group_callback [OF wired_factories [OF wired] assms(1)] by auto
  ultimately show ?thesis
    by (simp add: group_close_handles)
qed

text \<open>A database that cannot be reached at startup never changes how the program
  ends: its exit is the same whatever the database library answers.\<close>

lemma database_outage_not_fatal:
  "snd (program_main (w\<lparr>DbW := d\<rparr>) fl version) = snd (program_main w fl version)"
proof (cases "\<exists>otel g. started w fl version otel g")
  case True
  then obtain otel g where "started w fl version otel g" by blast
  then show ?thesis
    using program_serve_exit [where w = w and d = d and fl = fl and otel = otel and g = g]
    by (simp add: program_main_started)
next
  case False
  then show ?thesis
    using program_main_failed [of w fl version] program_main_failed [of "w\<lparr>DbW := d\<rparr>" fl version] by simp
qed

text \<open>Property C23. Once the program has served, everything it opened is closed, in order: the
  scraper and the server stop, every callback registered with the meter is unregistered (the
  shared one first), the appctl client and the database client (when connected) are closed, and
  last every telemetry provider is shut down.\<close>

theorem program_shutdown_complete:
  assumes "started w fl version otel g" and "0 \<le> sint (CacheTTL fl)"
    and "buildHandler (PromHandler otel \<noteq> None) (MetricsPath fl) (LandingW w) = Mux_ok routes"
  shows "\<exists>startup. program_main w fl version =
    (startup @ [Serving routes, Scraper_cancelled, Server_shutdown]
       @ map Unregistered ((if GCollectors g = [] then [] else [projr (Callback (MeterW w) ''ovs.collector.up'')])
           @ map (\<lambda>(n, c). projr (Callback (MeterW w) n)) (GCollectors g))
       @ [Unixctl_closed]
       @ (if ovsdb_ready \<lparr>Endpoint = DbSocket fl, ReconnectTimeout = 0, DbLogger = True, DbTracer = True\<rparr> (DbW w)
          then [Db_action Inner_close] else [])
       @ map Otel_shutdown (ShutdownOf otel),
     Exit (if ServeError w = None then 0 else 1))"
proof -
  obtain g0 where g: "NewGroup [] (flags_parsed (ValW w) (GivenW w) ovs_registry) = Inr g0"
      "RegisterAll (MeterW w) g0 = (g, None)"
    using assms(1) by (auto simp: started_def)
  have serve: "program_serve w fl otel db g = ([Serving routes] @ program_shutdown w g db otel,
      Exit (if ServeError w = None then 0 else 1))" for db
    using assms(2,3) by (simp add: program_serve_def word_sless_alt)
  show ?thesis
    unfolding program_main_started [OF assms(1)] serve
    by (simp add: program_shutdown_def program_db_close close_handles [OF g] up_name_def)
qed

section \<open>Examples\<close>

definition ex_flags :: flags where
  "ex_flags = \<lparr>MetricsPath = ''/metrics'', DbSocket = ''unix:db'', OvsRunDir = ''/run'', CacheTTL = 60,
     WebPrometheus = True, MaxProcs = 1\<rparr>"

definition ex_program_world :: "nat program_world" where
  "ex_program_world = \<lparr>Getenv = [], OtelW = ex_otel_world,
     DbW = \<lparr>ModelResult = None, NewResult = Inr 0, ConnectResult = Some ''refused'', MonitorResult = None\<rparr>,
     MeterW = ex_meter, ValW = (\<lambda>f. f = ''collector.memory''), GivenW = (\<lambda>_. False), LandingW = None,
     ServeError = None, UnregW = (\<lambda>_. None)\<rparr>"

definition ex_otel_result :: otel_result where
  "ex_otel_result = \<lparr>TracerProvided = False, PromHandler = Some 40, LoggerTeed = False,
     ShutdownOf = [Meter_provider [Prom_reader]]\<rparr>"

lemma ex_started: "started ex_program_world ex_flags ''1'' ex_otel_result (ex_group (Some 6) True (Some 16))"
proof -
  have conf: "program_otel_config ex_flags [] ''1'' = ex_otel_config ''none'' []\<lparr>MetricsExporter := ''none''\<rparr>"
    by (simp add: program_otel_config_def getenv_def str_or_def ex_flags_def ex_otel_config_def)
  have def: "setup_defaults (ex_otel_config ''none'' []\<lparr>MetricsExporter := ''none''\<rparr>) = setup_defaults (ex_otel_config ''none'' [])"
    by (simp add: setup_defaults_def ex_otel_config_def str_or_def)
  have "snd (snd (Setup ex_otel_world (program_otel_config ex_flags [] ''1'') [])) = Inr ex_otel_result"
    unfolding conf
    by (simp add: Setup_def setup_flags_def buildResource_def Let_def def ex_meter_provider setup_traces_def buildTracerProvider_def setup_logs_def buildLoggerProvider_def
        ex_world_simps ex_config_simps str_or_def ex_otel_result_def)
  moreover have "NewGroup [] (flags_parsed (\<lambda>f. f = ''collector.memory'') (\<lambda>_. False) ovs_registry)
      = Inr (ex_group None False None)"
    by (simp add: NewGroup_def flags_parsed_def ovs_registry_kinds all_kinds_def flag_name_def
        registerCollector_def empty_registry_def empty_group_def ex_group_def Let_def)
  ultimately show ?thesis
    using ex_group_registered by (simp add: started_def ex_program_world_def ex_flags_def)
qed

lemma ex_program_simps:
  "MeterW ex_program_world = ex_meter" "ServeError ex_program_world = None" "LandingW ex_program_world = None"
  "ConnectResult (DbW ex_program_world) \<noteq> None" "MetricsPath ex_flags = ''/metrics''"
  "PromHandler ex_otel_result = Some 40" "ShutdownOf ex_otel_result = [Meter_provider [Prom_reader]]"
  "GCollectors (ex_group h r up) = [(''memory'', \<lparr>Kind = Memory_usage, SrcSet = r, Registration = h\<rparr>)]"
  "Callback ex_meter n = Inr (length n)"
  by (simp_all add: ex_program_world_def ex_flags_def ex_otel_result_def ex_group_def ex_meter_def)

theorem program_shutdown_complete_witness:
  "\<exists>startup. program_main ex_program_world ex_flags ''1'' =
    (startup @ [Serving (the_routes True ''/metrics''), Scraper_cancelled, Server_shutdown,
        Unregistered 16, Unregistered 6, Unixctl_closed, Otel_shutdown (Meter_provider [Prom_reader])], Exit 0)"
proof -
  have "plain_path ''/metrics''"
    by (simp add: plain_path_def segment_def ascii_def blank_def)
  then have h: "buildHandler (PromHandler ex_otel_result \<noteq> None) (MetricsPath ex_flags) (LandingW ex_program_world)
      = Mux_ok (the_routes True ''/metrics'')"
    by (simp add: buildHandler_result ex_program_simps)
  have "0 \<le> sint (CacheTTL ex_flags)"
    by (simp add: ex_flags_def)
  from program_shutdown_complete [OF ex_started this h] show ?thesis
    by (simp add: ex_program_simps ovsdb_ready_def eval_nat_numeral)
qed


definition ex_db_client :: "nat ovsdb_client" where
  "ex_db_client = \<lparr>DbConfig = \<lparr>Endpoint = ''unix:db'', ReconnectTimeout = 0, DbLogger = True, DbTracer = True\<rparr>,
     Inner = Some 0\<rparr>"

theorem zero_ttl_never_ready_witness:
  "Status (Ready (buildReadyChecks (\<lambda>_. ''down'') (\<lambda>_. ''stale'') (\<lambda>i. True) 107
      (Some ex_db_client)
      \<lparr>ScConfig = ex_scraper_config, ScSnap = Some empty_snapshot,
       ScOutcome = Some \<lparr>OTime = 100, ODuration = 5, OSuccess = True, OErr = None\<rparr>\<rparr> 0)) = 503"
proof -
  let ?s = "\<lparr>ScConfig = ex_scraper_config, ScSnap = Some empty_snapshot,
       ScOutcome = Some \<lparr>OTime = 100, ODuration = 5, OSuccess = True, OErr = None\<rparr>\<rparr>"
  have "scraper_outcome ?s = \<lparr>OTime = 100, ODuration = 5, OSuccess = True, OErr = None\<rparr>"
    by (simp add: scraper_outcome_def)
  from zero_ttl_never_ready [OF this, where now = 107 and db = "Some ex_db_client" and connected = "\<lambda>i. True"
      and health_text = "\<lambda>_. ''down''" and stale_text = "\<lambda>_. ''stale''"] show ?thesis
    by (simp add: max_duration_def)
qed

end
