(* ===== verification/System.thy ===== *)
theory System
  imports Exporter Series Recovery
begin

text \<open>
  The running program: the goroutine of the scraper, the readiness requests, the collections of
  metrics and the changes of the database cache, interleaved in any order. A refresh is two steps,
  as in the code: the calls with the store of the outcome, then the store of the snapshot.
\<close>

section \<open>State and steps\<close>

record 'i system =
  Clock :: int
  SClient :: client
  SScraper :: "(refresh_error, ovs_snapshot) scraper"
  Storing :: "ovs_snapshot option option" \<comment> \<open>returned by a refresh, not yet stored\<close>
  SDb :: "'i ovsdb_client option"
  SConnected :: "'i \<Rightarrow> bool"
  SCache :: "'i \<Rightarrow> table_cache option"
  SGroup :: group
  STtl :: int64

datatype sys_event =
    Refresh_called "(nat \<Rightarrow> call_env) tick"
  | Snapshot_published
  | Probe_answered http_response
  | Database_changed
  | Time_passed

definition sys_source :: "'i system \<Rightarrow> source" where
  "sys_source S = source_of (SCache S) (NewDataSource (SDb S) (Some (SScraper S)))"

definition db_health_text :: "health_error \<Rightarrow> string" where
  "db_health_text e = (case e of Not_initialised \<Rightarrow> ''ovsdb: client not initialised''
     | Not_connected \<Rightarrow> ''ovsdb: client not connected'')"

definition sys_checks :: "(refresh_error stale_error \<Rightarrow> string) \<Rightarrow> 'i system \<Rightarrow> checks" where
  "sys_checks stale_text S =
     buildReadyChecks db_health_text stale_text (SConnected S) (Clock S) (SDb S) (SScraper S) (STtl S)"

text \<open>
  A collection runs the callback of every collector and the one of the up gauge, in some order. It
  changes nothing, and the system moves on between the callbacks: the callback named \<open>n\<close> finds the system
  in the state \<open>at n r\<close> when it reads the table \<open>r\<close> of the cache, and at \<open>Ports_read\<close> if it reads only once;
  the up gauge asks the check of the collector \<open>n\<close> in the state \<open>up n\<close>. The callbacks range over the maps
  of the snapshot in the orders \<open>ord\<close>.
\<close>

definition collected ::
    "range_order \<Rightarrow> (string \<Rightarrow> table_read \<Rightarrow> 'i system) \<Rightarrow> (string \<Rightarrow> 'i system) \<Rightarrow> group \<Rightarrow> observation list" where
  "collected ord at up g =
     concat (map (\<lambda>(n, c). kind_observe_at ord (Kind c) (\<lambda>r. sys_source (at n r))) (GCollectors g))
     @ observeUp (\<lambda>n. sys_source (up n)) g"

text \<open>
  Events that fall between the start of a refresh and its outcome come before \<open>Refresh_called\<close>, which
  moves the clock to the end of the calls.
\<close>

inductive sys_step :: "(refresh_error stale_error \<Rightarrow> string) \<Rightarrow> 'i system \<Rightarrow> sys_event \<Rightarrow> 'i system \<Rightarrow> bool"
  for stale_text where
  step_refresh: "Storing S = None \<Longrightarrow> 0 < Start t \<Longrightarrow> Start t \<le> Finish t \<Longrightarrow> Clock S \<le> Finish t
     \<Longrightarrow> ovs_refresh_fun (World t) (SClient S) = (c', r)
     \<Longrightarrow> memory_step (SScraper S, None, vs) (Outcome_stored (outcome_of t r) r) (s', p, vs')
     \<Longrightarrow> sys_step stale_text S (Refresh_called t)
           (S\<lparr>SClient := c', SScraper := s', Storing := p, Clock := Finish t\<rparr>)"
| step_publish: "memory_step (SScraper S, Storing S, vs) Snapshot_stored (s', p, vs')
     \<Longrightarrow> sys_step stale_text S Snapshot_published (S\<lparr>SScraper := s', Storing := p\<rparr>)"
| step_probe: "sys_step stale_text S (Probe_answered (Ready (sys_checks stale_text S))) S"
| step_database: "sys_step stale_text S Database_changed (S\<lparr>SConnected := k, SCache := cache\<rparr>)"
| step_time: "Clock S \<le> now \<Longrightarrow> sys_step stale_text S Time_passed (S\<lparr>Clock := now\<rparr>)"

inductive_cases refresh_cases: "sys_step stale_text S (Refresh_called t) S'"
inductive_cases probe_cases: "sys_step stale_text S (Probe_answered r) S'"
inductive_cases outcome_stored_cases: "memory_step (s, None, vs) (Outcome_stored out r) m"
inductive_cases snapshot_stored_cases: "memory_step (s, p, vs) Snapshot_stored m"

inductive sys_run :: "(refresh_error stale_error \<Rightarrow> string) \<Rightarrow> 'i system \<Rightarrow> sys_event list \<Rightarrow> 'i system \<Rightarrow> bool"
  for stale_text where
  sys_done: "sys_run stale_text S [] S"
| sys_more: "sys_step stale_text S ev S' \<Longrightarrow> sys_run stale_text S' evs S'' \<Longrightarrow> sys_run stale_text S (ev # evs) S''"

inductive_simps sys_run_Nil: "sys_run stale_text S [] S'"
inductive_simps sys_run_Cons: "sys_run stale_text S (ev # evs) S''"

text \<open>The system \<^verbatim>\<open>main\<close> has built when it starts to serve.\<close>

definition sys_started :: "'i program_world \<Rightarrow> flags \<Rightarrow> 'i system \<Rightarrow> bool" where
  "sys_started w fl S \<longleftrightarrow>
     client_new (unixctl_config fl) = Inr (SClient S)
     \<and> scraper_new (program_scrape_config fl) = Inr (SScraper S) \<and> Storing S = None
     \<and> SDb S = snd (program_db w fl True)
     \<and> (\<exists>g0. NewGroup [] (flags_parsed (ValW w) (GivenW w) ovs_registry) = Inr g0
          \<and> RegisterAll (MeterW w) g0 = (SGroup S, None))
     \<and> STtl S = CacheTTL fl"

section \<open>Invariant\<close>

definition outcome_ok :: "'i system \<Rightarrow> bool" where
  "outcome_ok S \<longleftrightarrow>
     (case ScOutcome (SScraper S) of
        None \<Rightarrow> ScSnap (SScraper S) = None \<and> Storing S = None
      | Some out \<Rightarrow> 0 < OTime out \<and> OTime out \<le> Clock S
          \<and> (Storing S = None \<and> OSuccess out \<longrightarrow> ScSnap (SScraper S) \<noteq> None)
          \<and> (Storing S \<noteq> None \<longrightarrow> OSuccess out))"

definition sys_ok :: "'i system \<Rightarrow> bool" where
  "sys_ok S \<longleftrightarrow> client_wf (SClient S) \<and> outcome_ok S
     \<and> pred_option snapshot_ok (ScSnap (SScraper S))
     \<and> pred_option (\<lambda>v. v \<noteq> None \<and> pred_option snapshot_ok v) (Storing S)"

text \<open>What no step changes.\<close>

definition sys_fixed :: "'i system \<Rightarrow> 'i ovsdb_client option \<times> group \<times> int64 \<times> scrape_config" where
  "sys_fixed S = (SDb S, SGroup S, STtl S, ScConfig (SScraper S))"

lemma calls_client_wf: "client_wf c \<Longrightarrow> client_wf (calls_client envs i ms c)"
proof (induction ms arbitrary: i c)
  case (Cons m ms)
  obtain c' ios res where "client_call (envs i) m None c = (c', ios, res)"
    by (metis prod_cases3)
  with Cons show ?case
    using client_call_wf by fastforce
qed simp

lemma ovs_refresh_fun_wf: "ovs_refresh_fun envs c = (c', r) \<Longrightarrow> client_wf c \<Longrightarrow> client_wf c'"
  by (auto simp: ovs_refresh_fun_def ovs_refresh_results calls_client_wf)

lemma sys_step_ok:
  assumes "sys_step stale_text S ev S'" and "sys_ok S"
  shows "sys_ok S'"
  using assms
proof (cases rule: sys_step.cases)
  case (step_refresh t c' r vs s' p vs')
  have wf: "client_wf c'"
    using assms(2) ovs_refresh_fun_wf [OF step_refresh(7)] by (simp add: sys_ok_def)
  have good: "\<exists>a. v = Some a \<and> snapshot_ok a" if "r = Inr v" for v
    using ovs_source.refresh_good step_refresh(7) that by blast
  show ?thesis
    using step_refresh(8) assms(2) wf good step_refresh(3-6)
    by (cases rule: outcome_stored_cases)
      (auto simp: step_refresh(2) sys_ok_def outcome_ok_def outcome_of_def)
next
  case (step_publish vs s' p vs')
  show ?thesis
    using step_publish(3) assms(2)
    by (cases rule: snapshot_stored_cases)
      (auto simp: step_publish(2) sys_ok_def outcome_ok_def split: option.splits)
next
  case (step_time now)
  then show ?thesis
    using assms(2) by (auto simp: sys_ok_def outcome_ok_def split: option.splits)
qed (auto simp: sys_ok_def outcome_ok_def split: option.splits)

lemma sys_step_fixed: "sys_step stale_text S ev S' \<Longrightarrow> sys_fixed S' = sys_fixed S"
  by (induction rule: sys_step.induct)
    (auto simp: sys_fixed_def elim: outcome_stored_cases snapshot_stored_cases)

lemma sys_run_ok: "sys_run stale_text S evs S' \<Longrightarrow> sys_ok S \<Longrightarrow> sys_ok S'"
  by (induction rule: sys_run.induct) (auto dest: sys_step_ok)

lemma sys_run_fixed: "sys_run stale_text S evs S' \<Longrightarrow> sys_fixed S' = sys_fixed S"
  by (induction rule: sys_run.induct) (auto dest: sys_step_fixed)

lemma sys_started_ok: "sys_started w fl S \<Longrightarrow> sys_ok S"
  by (auto simp: sys_started_def sys_ok_def outcome_ok_def scraper_new_def dest!: client_new_wf split: if_splits
      dest: sym [of _ "SScraper S"])

section \<open>Collections\<close>

text \<open>The collector of an instrument.\<close>

definition owner :: "string \<Rightarrow> collector_kind option" where
  "owner inst = map_of (map (\<lambda>e. (InstName (snd e), fst e)) all_instruments) inst"

lemma owner_instrument: "i \<in> set (kind_instruments k) \<Longrightarrow> owner (InstName i) = Some k"
  unfolding owner_def using all_instruments_distinct
  by (intro map_of_is_SomeI) (auto simp: comp_def all_instruments_iff intro!: image_eqI [of _ _ "(k, i)"])

lemma owner_observation:
  assumes "x \<in> set (kind_observe_at ord k at)"
  shows "owner (ObsInst x) = Some k"
proof -
  have "ObsInst x \<in> set (map InstName (kind_instruments k))"
    by (rule declared_at [OF assms])
  then show ?thesis
    using owner_instrument by auto
qed

lemma owner_up: "owner up_name = None"
  by (simp add: owner_def map_of_eq_None_iff up_name_def) code_simp

lemma image_apart: "(\<And>x y. x \<in> A \<Longrightarrow> y \<in> B \<Longrightarrow> f x \<noteq> f y) \<Longrightarrow> f ` A \<inter> f ` B = {}"
  by auto

text \<open>
  A group whose kinds occur once, and of which each reports its series once, reports them once,
  whatever each of them finds.
\<close>

lemma group_series:
  assumes "distinct (map (Kind \<circ> snd) cs)" and "distinct (map fst cs)"
    and "\<And>n c. (n, c) \<in> set cs \<Longrightarrow> distinct (map series (kind_observe_at ord (Kind c) (src n)))"
    and "map fst (GCollectors g) = map fst cs"
  shows "distinct (map series (concat (map (\<lambda>(n, c). kind_observe_at ord (Kind c) (src n)) cs) @ observeUp up g))"
proof -
  let ?xs = "concat (map (\<lambda>(n, c). kind_observe_at ord (Kind c) (src n)) cs)"
  have "distinct (map series ?xs)"
  proof (rule distinct_concat_keyed [where key = "Some \<circ> (Kind \<circ> snd)" and tag = "owner \<circ> fst"])
    show "distinct (map (Some \<circ> (Kind \<circ> snd)) cs)"
      using assms(1) by (simp add: distinct_map comp_inj_on)
  qed (use assms(3) owner_observation in \<open>auto simp: series_def\<close>)
  moreover have "distinct (map series (observeUp up g))"
  proof -
    have "map (\<lambda>x. snd (hd (ObsAttrs x))) (observeUp up g) = map fst (GCollectors g)"
      by (simp add: observeUp_def)
    then have "distinct (map (\<lambda>x. snd (hd (ObsAttrs x))) (observeUp up g))"
      using assms(2,4) by simp
    then show ?thesis
      by (auto simp: distinct_map series_def inj_on_def)
  qed
  moreover have "series x \<noteq> series y" if "x \<in> set ?xs" and "y \<in> set (observeUp up g)" for x y
    using that owner_observation owner_up by (fastforce simp: series_def observeUp_def)
  then have "series ` set ?xs \<inter> series ` set (observeUp up g) = {}"
    by (rule image_apart)
  ultimately show ?thesis
    unfolding map_append distinct_append by (simp only: set_map simp_thms)
qed

section \<open>Properties\<close>

lemma started_checks:
  assumes "sys_started w fl S0" and "sys_run stale_text S0 evs S"
  shows "sys_ok S \<and> sys_fixed S = sys_fixed S0 \<and> STtl S = CacheTTL fl"
  using sys_run_ok [OF assms(2) sys_started_ok [OF assms(1)]] sys_run_fixed [OF assms(2)] assms(1)
  by (auto simp: sys_fixed_def sys_started_def)

lemma since_within:
  assumes "t \<le> now" and "k < max_duration" and "sint (since now t) \<le> k"
  shows "now - t \<le> k"
proof (cases "now - t \<le> max_duration")
  case True
  then have "sint (since now t) = now - t"
    using assms(1) by (intro since_exact) simp
  with assms(3) show ?thesis by simp
next
  case False
  then have "since now t = word_of_int max_duration"
    by (simp add: since_def max_duration_def)
  then have "sint (since now t) = max_duration"
    by (simp add: sint_word_of_int max_duration_def)
  with assms(2,3) show ?thesis by simp
qed

text \<open>Property C3. Readiness in every interleaving: whatever the scraper's goroutine, the database
  connection and the clock do, whenever the readiness probe answers 200 the database is connected, the
  last refresh succeeded and started at most three times the TTL ago, and its snapshot is well formed
  and published, or returned and about to be published.\<close>

theorem reachable_readiness:
  assumes "sys_started w fl S0" and "sys_run stale_text S0 evs S"
    and "sys_step stale_text S (Probe_answered answer) S'" and "Status answer = 200"
    and "0 \<le> sint (CacheTTL fl)" and "3 * sint (CacheTTL fl) < max_duration"
  shows "S' = S \<and> (\<exists>cl i. SDb S = Some cl \<and> Inner cl = Some i \<and> SConnected S i)
    \<and> (\<exists>out. ScOutcome (SScraper S) = Some out \<and> OSuccess out
         \<and> OTime out \<le> Clock S \<and> Clock S - OTime out \<le> 3 * sint (CacheTTL fl))
    \<and> (\<exists>snap. snapshot_ok snap \<and> (UnixCtlOVS (sys_source S) = Some snap \<or> Storing S = Some (Some snap)))"
proof -
  have ok: "sys_ok S" and ttl: "STtl S = CacheTTL fl"
    using started_checks [OF assms(1,2)] by simp_all
  have "S' = S" and "answer = Ready (sys_checks stale_text S)"
    using assms(3) by (auto elim: probe_cases)
  then have db: "ovsdb_healthy (SConnected S) (SDb S) = None"
    and fresh: "scraper_stale (Clock S) (3 * CacheTTL fl) (SScraper S) = None"
    using assms(4) by (simp_all add: sys_checks_def ready_checks_iff ttl)
  have three: "sint (3 * CacheTTL fl) = 3 * sint (CacheTTL fl)"
    using assms(5,6) by (intro sint_three) simp_all
  obtain out where out: "ScOutcome (SScraper S) = Some out" "OSuccess out"
      "sint (since (Clock S) (OTime out)) \<le> 3 * sint (CacheTTL fl)"
    using fresh three by (auto simp: scraper_stale_def scraper_outcome_def zero_outcome_def Let_def
        word_sless_alt split: option.splits if_splits)
  have past: "OTime out \<le> Clock S"
    using ok out(1) by (simp add: sys_ok_def outcome_ok_def)
  have "\<exists>snap. snapshot_ok snap \<and> (ScSnap (SScraper S) = Some snap \<or> Storing S = Some (Some snap))"
    using ok out(1,2) by (cases "Storing S") (auto simp: sys_ok_def outcome_ok_def)
  then have "\<exists>snap. snapshot_ok snap \<and> (UnixCtlOVS (sys_source S) = Some snap \<or> Storing S = Some (Some snap))"
    by (simp add: sys_source_def source_of_def ds_UnixCtlOVS_def NewDataSource_def scraper_snapshot_def)
  then show ?thesis
    using db out past since_within [OF past assms(6) out(3)] \<open>S' = S\<close>
    by (auto simp: ovsdb_healthy_def split: option.splits if_splits)
qed

text \<open>Property C6. No collection reports a series twice: even when the callbacks of one collection, and
  the table reads of one callback, find the system at different moments of a run, all the observations of
  the collection differ in instrument or attributes, as long as at each of these moments the names of
  bridges and interfaces in the database are unique, each port is on one bridge and each interface on one
  port, and, when the collector of datapath ports is on, the switch lists each port of a bridge once.\<close>

theorem collections_distinct:
  assumes "sys_started w fl S0" and "\<And>n r. \<exists>evs. sys_run stale_text S0 evs (at n r)"
    and "\<And>n r. schema_ok (cache_seen (sys_source (at n r)))"
    and "\<And>m n r c snap. (m, c) \<in> set (GCollectors (SGroup S0)) \<Longrightarrow> Kind c = Datapath_interfaces
      \<Longrightarrow> UnixCtlOVS (sys_source (at n r)) = Some snap \<Longrightarrow> pred_option ports_once (SnapDPIF snap)"
  shows "distinct (map series (collected ord at up (SGroup S0)))"
proof -
  let ?cs = "GCollectors (SGroup S0)"
  obtain g0 where g: "NewGroup [] (flags_parsed (ValW w) (GivenW w) ovs_registry) = Inr g0"
      "RegisterAll (MeterW w) g0 = (SGroup S0, None)"
    using assms(1) by (auto simp: sys_started_def)
  have wired: "registry_wired (flags_parsed (ValW w) (GivenW w) ovs_registry)"
    by (intro wired_flags ovs_registry_wired)
  have names: "distinct (map fst ?cs)"
    by (rule registered_distinct [OF wired_factories [OF wired] g])
  have "map fst ?cs = map kind_name (map (Kind \<circ> snd) ?cs)"
    using registered_entries [OF g(2) wired_group [OF wired g(1)]] by (auto simp: list_all_iff)
  then have kinds: "distinct (map (Kind \<circ> snd) ?cs)"
    using names distinct_map by metis
  have "pred_option snapshot_ok (UnixCtlOVS (sys_source (at n r)))" for n r
  proof -
    obtain evs where "sys_run stale_text S0 evs (at n r)"
      using assms(2) by blast
    then have "sys_ok (at n r)"
      using started_checks [OF assms(1)] by blast
    then show ?thesis
      by (simp add: sys_ok_def sys_source_def source_of_def ds_UnixCtlOVS_def NewDataSource_def
          scraper_snapshot_def)
  qed
  then have "distinct (map series (kind_observe_at ord (Kind c) (\<lambda>r. sys_source (at n r))))" if "(n, c) \<in> set ?cs" for n c
    using assms(3) assms(4) [OF that] that by (intro collector_series) simp_all
  then show ?thesis
    unfolding collected_def by (intro group_series [OF kinds names]) simp_all
qed

text \<open>Property C7. The window at start-up: the first successful refresh stores its outcome before its
  snapshot, so between the two stores the readiness probe already answers 200 while every collector
  of the appctl reports still has no data; publishing the snapshot, which the scraper can do at once,
  closes the window.\<close>

theorem ready_before_data:
  assumes "sys_started w fl S0" and "sys_step stale_text S0 (Refresh_called t) S1"
    and "switch_back (World t) (Cfg (SClient S0))"
    and "SDb S0 = Some cl" and "Inner cl = Some i" and "SConnected S0 i"
    and "0 \<le> sint (CacheTTL fl)" and "3 * sint (CacheTTL fl) \<le> max_duration"
    and "Finish t - Start t \<le> 3 * sint (CacheTTL fl)"
  shows "(\<exists>answer. sys_step stale_text S1 (Probe_answered answer) S1 \<and> Status answer = 200)
    \<and> list_all (\<lambda>k. \<not> kind_dep k (Some (sys_source S1)))
        [Memory_usage, Coverage_events, Upcalls, Datapath, Datapath_interfaces]
    \<and> (\<exists>S2. sys_step stale_text S1 Snapshot_published S2
         \<and> list_all (\<lambda>k. kind_dep k (Some (sys_source S2)))
             [Memory_usage, Upcalls, Datapath, Datapath_interfaces])"
proof -
  obtain c' snap where call: "ovs_refresh_fun (World t) (SClient S0) = (c', Inr (Some snap))"
      and four: "four_reports snap"
    using switch_back_refresh [OF assms(3)] by blast
  let ?out = "outcome_of t (Inr (Some snap) :: refresh_error + ovs_snapshot option)"
  have S1: "S1 = S0\<lparr>SClient := c', SScraper := (SScraper S0)\<lparr>ScOutcome := Some ?out\<rparr>,
      Storing := Some (Some snap), Clock := Finish t\<rparr>"
      and time: "0 < Start t" "Start t \<le> Finish t"
    using assms(2) by (auto elim!: refresh_cases outcome_stored_cases simp: call)
  have fresh: "ScSnap (SScraper S0) = None" and ttl: "STtl S0 = CacheTTL fl"
    using assms(1) by (auto simp: sys_started_def scraper_new_def split: if_splits dest: sym [of _ "SScraper S0"])
  have "sint (since (Finish t) (Start t)) = Finish t - Start t"
    using time assms(8,9) by (intro since_exact) simp
  then have "scraper_stale (Clock S1) (3 * STtl S1) (SScraper S1) = None"
    using time assms(9) sint_three [OF assms(7,8)]
    by (simp add: S1 ttl scraper_stale_def scraper_outcome_def outcome_of_def Let_def word_sless_alt)
  then have "Status (Ready (sys_checks stale_text S1)) = 200"
    using assms(4-6) by (simp add: sys_checks_def ready_checks_iff ovsdb_healthy_def S1)
  moreover have "memory_step (SScraper S1, Storing S1, []) Snapshot_stored
      ((SScraper S1)\<lparr>ScSnap := Some snap\<rparr>, None, [])"
    using store_snapshot [of "SScraper S1" "Some snap" "[]"] by (simp add: S1)
  then have "sys_step stale_text S1 Snapshot_published
      (S1\<lparr>SScraper := (SScraper S1)\<lparr>ScSnap := Some snap\<rparr>, Storing := None\<rparr>)" (is "sys_step _ _ _ ?S2")
    by (rule step_publish)
  moreover have "list_all (\<lambda>k. kind_dep k (Some (sys_source ?S2))) [Memory_usage, Upcalls, Datapath, Datapath_interfaces]"
    using four by (simp add: sys_source_def source_of_def NewDataSource_def ds_UnixCtlOVS_def UnixctlHas_def
        scraper_snapshot_def four_reports_def)
  moreover have "list_all (\<lambda>k. \<not> kind_dep k (Some (sys_source S1)))
      [Memory_usage, Coverage_events, Upcalls, Datapath, Datapath_interfaces]"
    by (simp add: sys_source_def source_of_def NewDataSource_def ds_UnixCtlOVS_def UnixctlHas_def
        scraper_snapshot_def S1 fresh)
  ultimately show ?thesis
    using step_probe by blast
qed

section \<open>Examples\<close>

text \<open>A program whose database answers, and a switch that answers every call with an empty report.\<close>

definition ex_world :: "nat program_world" where
  "ex_world = ex_program_world\<lparr>DbW := \<lparr>ModelResult = None, NewResult = Inr 0, ConnectResult = None,
     MonitorResult = None\<rparr>\<rparr>"

definition ex_sys_db :: "nat ovsdb_client" where
  "ex_sys_db = \<lparr>DbConfig = \<lparr>Endpoint = ''unix:db'', ReconnectTimeout = 2 * 1000000000, DbLogger = True,
     DbTracer = True\<rparr>, Inner = Some 0\<rparr>"

definition ex_system :: "nat system" where
  "ex_system = \<lparr>Clock = 0,
     SClient = \<lparr>Cfg = (unixctl_config ex_flags)\<lparr>DialTimeout := 2 * second_ns, CallTimeout := 5 * second_ns\<rparr>,
       Conn = None, Dec = None, Enc = None, NextID = 0\<rparr>,
     SScraper = \<lparr>ScConfig = program_scrape_config ex_flags, ScSnap = None, ScOutcome = None\<rparr>,
     Storing = None, SDb = Some ex_sys_db, SConnected = (\<lambda>_. True), SCache = (\<lambda>_. Cache (the ex_view)),
     SGroup = ex_group (Some 6) True (Some 16), STtl = 60\<rparr>"

definition ex_sys_env :: call_env where
  "ex_sys_env = ex_up_env\<lparr>Fs := [''/run/ovs-vswitchd.pid'' \<mapsto> File_node (Some ''7''),
     ''/run/ovs-vswitchd.7.ctl'' \<mapsto> Other_node]\<rparr>"

definition ex_sys_tick :: "(nat \<Rightarrow> call_env) tick" where
  "ex_sys_tick = \<lparr>World = (\<lambda>_. ex_sys_env), Start = 100, Finish = 105\<rparr>"

lemma ex_system_simps:
  "SDb ex_system = Some ex_sys_db" "Inner ex_sys_db = Some 0" "SConnected ex_system 0"
  "0 \<le> sint (CacheTTL ex_flags)" "3 * sint (CacheTTL ex_flags) < max_duration"
  "3 * sint (CacheTTL ex_flags) \<le> max_duration"
  "Finish ex_sys_tick - Start ex_sys_tick \<le> 3 * sint (CacheTTL ex_flags)"
  "Storing ex_system = None" "0 < Start ex_sys_tick" "Start ex_sys_tick \<le> Finish ex_sys_tick"
  "Clock ex_system \<le> Finish ex_sys_tick"
  by (simp_all add: ex_system_def ex_sys_db_def ex_flags_def ex_sys_tick_def max_duration_def)

lemma ex_sys_started: "sys_started ex_world ex_flags ex_system"
proof -
  have "client_new (unixctl_config ex_flags) = Inr (SClient ex_system)"
    by (simp add: client_new_def unixctl_config_def ex_flags_def ex_system_def Let_def)
  moreover have "scraper_new (program_scrape_config ex_flags) = Inr (SScraper ex_system)"
    by (simp add: scraper_new_def program_scrape_config_def ex_flags_def ex_system_def)
  moreover have "SDb ex_system = snd (program_db ex_world ex_flags True)"
    by (simp add: ex_system_def program_db_def ex_world_def ex_sys_db_def ex_flags_def ovsdb_defs)
  moreover have "\<exists>g0. NewGroup [] (flags_parsed (ValW ex_world) (GivenW ex_world) ovs_registry) = Inr g0
      \<and> RegisterAll (MeterW ex_world) g0 = (SGroup ex_system, None)"
    using ex_started by (simp add: started_def ex_world_def ex_system_def)
  ultimately show ?thesis
    by (simp add: sys_started_def ex_system_def ex_flags_def)
qed

lemma ex_sys_socket: "DiscoverSocket (Fs ex_sys_env) ''/run'' ''ovs-vswitchd'' = Inr ''/run/ovs-vswitchd.7.ctl''"
proof -
  have path: "abs_path [''run''] = ''/run''"
    by (simp add: abs_path_def)
  have config: "clean_config [''run''] ''ovs-vswitchd''"
    by (simp add: clean_config_def segment_def abs_path_def has_meta_def meta_def)
  have "trim_space ''7'' = format_int 7" and "format_int 7 = ''7''"
    by code_simp+
  then have "socketFromPIDFile (Fs ex_sys_env) ''/run'' ''ovs-vswitchd'' = Some ''/run/ovs-vswitchd.7.ctl''"
    using pid_file_path [OF config, of "Fs ex_sys_env" "''7''" 7] by (simp add: path ex_sys_env_def)
  then show ?thesis
    by (simp add: DiscoverSocket_def fs_exists_def ex_sys_env_def)
qed

lemma ex_sys_back: "switch_back (World ex_sys_tick) (Cfg (SClient ex_system))"
proof -
  have "Cfg (SClient ex_system) = (unixctl_config ex_flags)\<lparr>DialTimeout := 2 * second_ns, CallTimeout := 5 * second_ns\<rparr>"
    by (simp add: ex_system_def)
  then have "socket_found ex_sys_env (Cfg (SClient ex_system)) = Some ''/run/ovs-vswitchd.7.ctl''"
    using ex_sys_socket by (simp add: socket_found_def unixctl_config_def ex_flags_def)
  then have "answers ex_sys_env (Cfg (SClient ex_system)) (json_quote [])"
    using ex_up_answers [of 0 None]
    by (simp add: answers_def ex_sys_env_def ex_up_env_def ex_env_def split: option.splits)
  then show ?thesis
    unfolding switch_back_def ex_sys_tick_def using empty_reports by auto
qed

definition ex_called :: "client \<Rightarrow> ovs_snapshot \<Rightarrow> nat system" where
  "ex_called c' snap = ex_system\<lparr>SClient := c', SScraper := (SScraper ex_system)\<lparr>ScOutcome :=
      Some (outcome_of ex_sys_tick (Inr (Some snap) :: refresh_error + ovs_snapshot option))\<rparr>,
      Storing := Some (Some snap), Clock := Finish ex_sys_tick\<rparr>"

lemma ex_sys_step:
  "\<exists>c' snap. sys_step (\<lambda>_. ''stale'') ex_system (Refresh_called ex_sys_tick) (ex_called c' snap)"
proof -
  obtain c' snap where call: "ovs_refresh_fun (World ex_sys_tick) (SClient ex_system) = (c', Inr (Some snap))"
    using switch_back_refresh [OF ex_sys_back] by blast
  have "sys_step (\<lambda>_. ''stale'') ex_system (Refresh_called ex_sys_tick) (ex_called c' snap)"
    unfolding ex_called_def by (rule step_refresh [OF ex_system_simps(8-11) call store_outcome])
  then show ?thesis by blast
qed

lemma ex_called_ready: "Status (Ready (sys_checks stale_text (ex_called c' snap))) = 200"
  by (simp add: sys_checks_def ready_checks_iff ovsdb_healthy_def scraper_stale_def scraper_outcome_def
      outcome_of_def Let_def ex_called_def ex_system_def ex_sys_db_def ex_sys_tick_def since_def
      max_duration_def word_sless_alt)

theorem ready_before_data_witness:
  "\<exists>S1. sys_step (\<lambda>_. ''stale'') ex_system (Refresh_called ex_sys_tick) S1
     \<and> (\<exists>answer. sys_step (\<lambda>_. ''stale'') S1 (Probe_answered answer) S1 \<and> Status answer = 200)
     \<and> \<not> kind_dep Memory_usage (Some (sys_source S1))"
proof -
  obtain S1 where step: "sys_step (\<lambda>_. ''stale'') ex_system (Refresh_called ex_sys_tick) S1"
    using ex_sys_step by blast
  from ready_before_data [OF ex_sys_started step ex_sys_back ex_system_simps(1-4,6,7)] step
  show ?thesis by auto
qed

theorem reachable_readiness_witness:
  "\<exists>S1. sys_run (\<lambda>_. ''stale'') ex_system [Refresh_called ex_sys_tick] S1
     \<and> (\<exists>out. ScOutcome (SScraper S1) = Some out \<and> OSuccess out)"
proof -
  obtain c' snap where "sys_step (\<lambda>_. ''stale'') ex_system (Refresh_called ex_sys_tick) (ex_called c' snap)"
    using ex_sys_step by blast
  then have run: "sys_run (\<lambda>_. ''stale'') ex_system [Refresh_called ex_sys_tick] (ex_called c' snap)"
    using sys_more sys_done by metis
  show ?thesis
    using reachable_readiness [OF ex_sys_started run step_probe ex_called_ready ex_system_simps(4,5)] run by blast
qed

theorem collections_distinct_witness:
  "\<exists>S2. sys_run (\<lambda>_. ''stale'') ex_system [Refresh_called ex_sys_tick, Snapshot_published] S2
     \<and> (\<forall>ord. distinct (map series
           (collected ord (\<lambda>n r. if n = ''memory'' then S2 else ex_system) (\<lambda>_. S2) (SGroup ex_system))))"
proof -
  obtain c' snap where step: "sys_step (\<lambda>_. ''stale'') ex_system (Refresh_called ex_sys_tick) (ex_called c' snap)"
    using ex_sys_step by blast
  let ?S1 = "ex_called c' snap"
  let ?S2 = "?S1\<lparr>SScraper := (SScraper ?S1)\<lparr>ScSnap := Some snap\<rparr>, Storing := None\<rparr>"
  let ?at = "\<lambda>n r. if n = ''memory'' then ?S2 else ex_system"
  have "memory_step (SScraper ?S1, Storing ?S1, []) Snapshot_stored
      ((SScraper ?S1)\<lparr>ScSnap := Some snap\<rparr>, None, [])"
    using store_snapshot [of "SScraper ?S1" "Some snap" "[]"] by (simp add: ex_called_def)
  then have "sys_step (\<lambda>_. ''stale'') ?S1 Snapshot_published ?S2"
    by (rule step_publish)
  then have run: "sys_run (\<lambda>_. ''stale'') ex_system [Refresh_called ex_sys_tick, Snapshot_published] ?S2"
    by (rule sys_more [OF step sys_more [OF _ sys_done]])
  have runs: "\<exists>evs. sys_run (\<lambda>_. ''stale'') ex_system evs (?at n r)" for n and r :: table_read
    by (cases "n = ''memory''") (use run sys_done in auto)
  have views: "schema_ok (cache_seen (sys_source (?at n r)))" for n and r :: table_read
  proof -
    have "cache_seen (sys_source (?at n r)) = ex_view"
      by (simp add: cache_seen_def sys_source_def source_of_def ds_OVS_def NewDataSource_def ovsdb_view_def
          ex_called_def ex_system_def ex_sys_db_def ex_view_def)
    then show ?thesis
      using ex_schema by simp
  qed
  have kinds: "pred_option ports_once (SnapDPIF s)"
    if "(m, c) \<in> set (GCollectors (SGroup ex_system))" and "Kind c = Datapath_interfaces" for m c s
    using that by (auto simp: ex_system_def ex_group_def)
  have "distinct (map series (collected ord ?at (\<lambda>_. ?S2) (SGroup ex_system)))" for ord
    by (rule collections_distinct [OF ex_sys_started runs views kinds])
  with run show ?thesis
    by blast
qed

end
