(* ===== verification/Serving.thy ===== *)
theory Serving
  imports System Reports
begin

text \<open>
  What the running program serves: after a refresh, in any interleaving, and for as long as no other
  snapshot is published, the collectors report the metrics of the switch that answered it.
\<close>

section \<open>The published snapshot\<close>

text \<open>Only the second store of a refresh changes the snapshot, and only it ends the wait for that store.\<close>

lemma step_keeps_snapshot:
  assumes "sys_step stale_text S ev S'" and "ev \<noteq> Snapshot_published"
  shows "ScSnap (SScraper S') = ScSnap (SScraper S) \<and> (Storing S \<noteq> None \<longrightarrow> Storing S' = Storing S)"
  using assms by (cases rule: sys_step.cases) (auto elim: outcome_stored_cases)

lemma run_keeps_snapshot:
  assumes "sys_run stale_text S evs S'" and "Snapshot_published \<notin> set evs"
  shows "ScSnap (SScraper S') = ScSnap (SScraper S) \<and> (Storing S \<noteq> None \<longrightarrow> Storing S' = Storing S)"
  using assms
proof (induction rule: sys_run.induct)
  case (sys_more S ev S' evs S'')
  then show ?case
    using step_keeps_snapshot [OF sys_more.hyps(1)] by auto
qed simp

lemma publish_stores:
  assumes "sys_step stale_text S Snapshot_published S'" and "Storing S = Some v"
  shows "ScSnap (SScraper S') = v"
  using assms by (cases rule: sys_step.cases) (auto elim: snapshot_stored_cases)

lemma sys_run_append:
  "sys_run stale_text S (evs @ evs') S'' \<longleftrightarrow> (\<exists>S'. sys_run stale_text S evs S' \<and> sys_run stale_text S' evs' S'')"
  by (induction evs arbitrary: S) (auto simp: sys_run_Nil sys_run_Cons)

lemma answered_refresh:
  assumes "sys_step stale_text S (Refresh_called t) S'"
    and "switch_ok sw" and "switch_answers (World t) (Cfg (SClient S)) sw"
  shows "Storing S' = Some (Some (switch_snapshot sw))"
  using assms(1) switch_refresh [OF assms(2,3)]
  by (auto elim!: refresh_cases elim: outcome_stored_cases)

section \<open>Properties\<close>

text \<open>Property C1. From the switch to the metrics, in the running program: after a refresh in which the switch
  answers its five calls with the reports of its state, and once its snapshot is published, every
  collection reports these collectors as up and makes exactly the observations that state calls for, each
  of them once and in whatever order it visits the maps, whatever the probes, the database and the clock do
  in between, and also while later refreshes run or fail, until another snapshot is published. The label
  \<open>port_no\<close> of a port carries its OpenFlow number and the label \<open>of_port\<close> its number in the datapath.\<close>

theorem switch_served:
  assumes "sys_run stale_text S (Refresh_called t # before @ Snapshot_published # after) S'"
    and "switch_ok sw" and "switch_answers (World t) (Cfg (SClient S)) sw"
    and "Snapshot_published \<notin> set before" and "Snapshot_published \<notin> set after"
  shows "mset (kind_observe ord Coverage_events (sys_source S')) = mset (event_metrics sw)
    \<and> mset (kind_observe ord Memory_usage (sys_source S')) = mset (memory_metrics sw)
    \<and> mset (kind_observe ord Upcalls (sys_source S')) = mset (upcall_metrics sw)
    \<and> mset (kind_observe ord Datapath (sys_source S')) = mset (datapath_metrics sw)
    \<and> mset (kind_observe ord Datapath_interfaces (sys_source S')) = mset (port_metrics sw)
    \<and> list_all (\<lambda>k. kind_dep k (Some (sys_source S')))
        [Coverage_events, Memory_usage, Upcalls, Datapath, Datapath_interfaces]"
proof -
  obtain S1 S2 S3 where step: "sys_step stale_text S (Refresh_called t) S1"
      and pending: "sys_run stale_text S1 before S2"
      and publish: "sys_step stale_text S2 Snapshot_published S3"
      and served: "sys_run stale_text S3 after S'"
    using assms(1) by (auto simp: sys_run_Cons sys_run_append)
  have "Storing S2 = Some (Some (switch_snapshot sw))"
    using answered_refresh [OF step assms(2,3)] run_keeps_snapshot [OF pending assms(4)] by simp
  then have "ScSnap (SScraper S') = Some (switch_snapshot sw)"
    using publish_stores [OF publish] run_keeps_snapshot [OF served assms(5)] by simp
  then have snap: "UnixCtlOVS (sys_source S') = Some (switch_snapshot sw)"
    by (simp add: sys_source_def source_of_def ds_UnixCtlOVS_def NewDataSource_def scraper_snapshot_def)
  then have "list_all (\<lambda>k. kind_dep k (Some (sys_source S')))
      [Coverage_events, Memory_usage, Upcalls, Datapath, Datapath_interfaces]"
    by (simp add: UnixctlHas_def switch_snapshot_def)
  then show ?thesis
    using switch_observed [OF snap] by simp
qed

section \<open>Example\<close>

definition ex_serving_tick :: "(nat \<Rightarrow> call_env) tick" where
  "ex_serving_tick = ex_sys_tick\<lparr>World := (\<lambda>i. ex_sys_env\<lparr>Decoded := Decoded (World ex_switch_tick i)\<rparr>)\<rparr>"

lemma ex_serving_answers: "switch_answers (World ex_serving_tick) (Cfg (SClient ex_system)) ex_switch"
proof -
  have "answers (World ex_serving_tick i) (Cfg (SClient ex_system)) (switch_replies ex_switch ! i)" for i
    using ex_sys_socket
    by (simp add: answers_def socket_found_def ex_serving_tick_def ex_sys_tick_def ex_switch_tick_def ex_system_def
        unixctl_config_def ex_flags_def ex_sys_env_def ex_up_env_def ex_env_def response_failed_def)
  then show ?thesis
    by (simp add: switch_answers_def)
qed

theorem switch_served_witness:
  "\<exists>S'. sys_run (\<lambda>_. ''stale'') ex_system
       [Refresh_called ex_serving_tick, Database_changed, Snapshot_published, Time_passed] S'
     \<and> (\<forall>ord. kind_observe ord Coverage_events (sys_source S')
           = [observe ''ovs.coverage.events'' 11359 [(''event'', ''nln_changed'')]])"
proof -
  let ?st = "\<lambda>_. ''stale''"
  obtain c' where call: "ovs_refresh_fun (World ex_serving_tick) (SClient ex_system) = (c', Inr (Some (switch_snapshot ex_switch)))"
    using switch_refresh [OF ex_switch_ok ex_serving_answers] by blast
  have time: "0 < Start ex_serving_tick" "Start ex_serving_tick \<le> Finish ex_serving_tick"
      "Clock ex_system \<le> Finish ex_serving_tick"
    using ex_system_simps(9-11) by (simp_all add: ex_serving_tick_def)
  obtain S1 where step: "sys_step ?st ex_system (Refresh_called ex_serving_tick) S1"
    using step_refresh [OF ex_system_simps(8) time call store_outcome] by blast
  then have "Storing S1 = Some (Some (switch_snapshot ex_switch))"
    by (rule answered_refresh [OF _ ex_switch_ok ex_serving_answers])
  then obtain S3 where publish: "sys_step ?st (S1\<lparr>SConnected := \<lambda>_. False\<rparr>) Snapshot_published S3"
    using step_publish [of "S1\<lparr>SConnected := \<lambda>_. False\<rparr>"] store_snapshot by fastforce
  have "sys_step ?st S1 Database_changed (S1\<lparr>SConnected := \<lambda>_. False\<rparr>)"
    using step_database [where S = S1 and k = "\<lambda>_. False" and cache = "SCache S1"] by simp
  then have run: "sys_run ?st ex_system (Refresh_called ex_serving_tick # [Database_changed] @ Snapshot_published # [Time_passed])
      (S3\<lparr>Clock := Clock S3\<rparr>)"
    using step publish step_time [of S3 "Clock S3"] by (auto simp: sys_run_Cons sys_run_Nil)
  have "kind_observe ord Coverage_events (sys_source (S3\<lparr>Clock := Clock S3\<rparr>)) = event_metrics ex_switch" for ord
    using switch_served [OF run ex_switch_ok ex_serving_answers, of ord] by (simp add: event_metrics_def ex_switch_def)
  then show ?thesis
    using run by (auto simp: event_metrics_def ex_switch_def)
qed

end
