(* ===== verification/Defaults.thy ===== *)
theory Defaults
  imports System
begin

text \<open>
  The program as it comes: no flag given, none of the \<^verbatim>\<open>OTEL\<close> variables set.
\<close>

section \<open>From start-up to the running system\<close>

text \<open>A program that gets as far as serving is a start state of \<open>System\<close>.\<close>

lemma started_system:
  assumes "started w fl version otel g"
  shows "\<exists>S. sys_started w fl S \<and> SGroup S = g"
proof -
  obtain c where "client_new (unixctl_config fl) = Inr c"
    using assms unixctl_config_new [of fl] by (auto simp: started_def)
  moreover obtain sc :: "(refresh_error, ovs_snapshot) scraper"
    where "scraper_new (program_scrape_config fl) = Inr sc"
    using program_scraper by blast
  ultimately show ?thesis
    using assms
    by (intro exI [of _ "\<lparr>Clock = 0, SClient = c, SScraper = sc, Storing = None, SDb = snd (program_db w fl True),
        SConnected = \<lambda>_. True, SCache = \<lambda>_. None, SGroup = g, STtl = CacheTTL fl\<rparr>"])
      (auto simp: sys_started_def started_def)
qed

section \<open>The defaults\<close>

definition otel_unset :: "env \<Rightarrow> bool" where
  "otel_unset env \<longleftrightarrow> list_all (\<lambda>k. getenv env k = [])
     [''OTEL_SERVICE_NAME'', ''OTEL_METRICS_EXPORTER'', ''OTEL_TRACES_EXPORTER'', ''OTEL_LOGS_EXPORTER'',
      ''OTEL_CONFIG_FILE'']"

definition default_otel :: otel_result where
  "default_otel = \<lparr>TracerProvided = False, PromHandler = Some 40, LoggerTeed = False,
     ShutdownOf = [Meter_provider [Prom_reader]]\<rparr>"

lemma default_flag_values:
  "MetricsPath default_flags = ''/metrics''" "OvsRunDir default_flags = ''/var/run/openvswitch''"
  "WebPrometheus default_flags" "CacheTTL default_flags = 60 * second_ns" "MaxProcs default_flags = 1"
  by (simp_all add: default_flags_def flag_default_def program_flags_def plain_flag_def)

lemma default_setup:
  assumes "otel_unset env" and "NewResource w ''ovs-exporter'' version = None" and "NewProm w = None"
  shows "snd (snd (Setup w (program_otel_config default_flags env version) env)) = Inr default_otel"
proof -
  have "parsePushExporters ''none'' = []"
    by code_simp
  then have "buildMeterProvider w (setup_defaults (program_otel_config default_flags env version)) env
      = (env, Inr ([Prom_reader], Some 40))"
    using assms(1,3)
    by (simp add: buildMeterProvider_def newPromReader_def setup_defaults_def program_otel_config_def otel_unset_def
        str_or_def int_or_def default_flag_values)
  then show ?thesis
    using assms
    by (simp add: Setup_def setup_flags_def Let_def buildResource_def setup_traces_def setup_logs_def
        setup_defaults_def program_otel_config_def otel_unset_def str_or_def default_otel_def)
qed

lemma seven_names:
  assumes "\<And>k. val (flag_name (kind_name k)) = kind_default k"
  shows "\<exists>g. NewGroup [] (flags_parsed val given ovs_registry) = Inr g
    \<and> group_names g = [''bridges'', ''coverage'', ''datapath'', ''interfaces'', ''memory'', ''ports'', ''upcall'']"
proof -
  have "sort (map kind_name (filter kind_default all_kinds))
      = [''bridges'', ''coverage'', ''datapath'', ''interfaces'', ''memory'', ''ports'', ''upcall'']"
    by code_simp
  then show ?thesis
    using startup_names [of val given] assms by simp
qed

section \<open>Properties\<close>

text \<open>Property C33. Out of the box: without flags or variables of its own, as long as the SDK and the meter build
  what they are asked for, and with the declared default of every collector flag, the program registers seven collectors (bridges, coverage, datapath,
  interfaces, memory, ports, upcall), serves the metrics, the two probes and the landing page, with a
  database or without one, refreshes every 60 seconds, counts a refresh as fresh for 180 seconds, and
  ends with status 0 unless serving fails.\<close>

theorem default_program:
  assumes "otel_unset (Getenv w)" and "NewResource (OtelW w) ''ovs-exporter'' version = None"
    and "NewProm (OtelW w) = None" and "meter_works (MeterW w)" and "LandingW w = None"
    and "\<And>k. ValW w (flag_name (kind_name k)) = flag_value ovs_registry (\<lambda>_. None) (flag_name (kind_name k))"
  shows "\<exists>g S. program_main w default_flags version =
      (Procs_set 1 # fst (program_db w default_flags True)
         @ [Registered_names
              [''bridges'', ''coverage'', ''datapath'', ''interfaces'', ''memory'', ''ports'', ''upcall''],
            Scraper_started,
            Serving [(''/metrics'', Prom_route), (''/healthz'', Health_route), (''/readyz'', Ready_route),
              (''/'', Landing_route [(''/metrics'', ''Metrics''), (''/healthz'', ''Health''), (''/readyz'', ''Readiness'')])]]
         @ program_shutdown w g (snd (program_db w default_flags True)) default_otel,
       Exit (if ServeError w = None then 0 else 1))
    \<and> sys_started w default_flags S \<and> SGroup S = g
    \<and> sint (ConfInterval (ScConfig (SScraper S))) = 60 * 10 ^ 9 \<and> sint (3 * STtl S) = 180 * 10 ^ 9"
proof -
  obtain g0 where g0: "NewGroup [] (flags_parsed (ValW w) (GivenW w) ovs_registry) = Inr g0"
      "group_names g0 = [''bridges'', ''coverage'', ''datapath'', ''interfaces'', ''memory'', ''ports'', ''upcall'']"
    using seven_names [of "ValW w" "GivenW w"] assms(6) by (auto simp: declared_default)
  obtain g where g: "RegisterAll (MeterW w) g0 = (g, None)" "group_names g = group_names g0"
    using working_RegisterAll [OF assms(4)] by blast
  have started: "started w default_flags version default_otel g"
    using default_setup [OF assms(1-3)] g0(1) g(1) by (simp add: started_def default_flag_values)
  have "plain_path ''/metrics''"
    by (simp add: plain_path_def segment_def ascii_def blank_def)
  then have "buildHandler (PromHandler default_otel \<noteq> None) (MetricsPath default_flags) (LandingW w)
      = Mux_ok (the_routes True ''/metrics'')"
    by (simp add: buildHandler_result default_flag_values default_otel_def assms(5))
  then have "program_serve w default_flags default_otel db g =
      ([Serving (the_routes True ''/metrics'')] @ program_shutdown w g db default_otel,
       Exit (if ServeError w = None then 0 else 1))" for db
    by (simp add: program_serve_def default_flag_values second_ns_def word_sless_alt)
  moreover obtain S where S: "sys_started w default_flags S" "SGroup S = g"
    using started_system [OF started] by blast
  then have "sint (ConfInterval (ScConfig (SScraper S))) = 60 * 10 ^ 9" and "sint (3 * STtl S) = 180 * 10 ^ 9"
    by (auto simp: sys_started_def scraper_new_def program_scrape_config_def default_flag_values second_ns_def
        dest: sym [of _ "SScraper S"])
  ultimately show ?thesis
    using S program_main_started [OF started] g(2) g0(2)
    by (intro exI [of _ g] exI [of _ S]) (simp add: default_flag_values the_routes_def the_links_def)
qed

section \<open>Example\<close>

definition default_world :: "nat program_world" where
  "default_world = ex_program_world\<lparr>ValW := flag_value ovs_registry (\<lambda>_. None)\<rparr>"

theorem default_program_witness:
  "Serving [(''/metrics'', Prom_route), (''/healthz'', Health_route), (''/readyz'', Ready_route),
     (''/'', Landing_route [(''/metrics'', ''Metrics''), (''/healthz'', ''Health''), (''/readyz'', ''Readiness'')])]
     \<in> set (fst (program_main default_world default_flags ''1''))"
proof -
  have "otel_unset (Getenv default_world)"
    by (simp add: otel_unset_def getenv_def default_world_def ex_program_world_def)
  moreover have "NewResource (OtelW default_world) ''ovs-exporter'' ''1'' = None" "NewProm (OtelW default_world) = None"
      "LandingW default_world = None"
    by (simp_all add: default_world_def ex_program_world_def ex_otel_world_def)
  moreover have "meter_works (MeterW default_world)"
    by (simp add: meter_works_def default_world_def ex_program_world_def ex_meter_def)
  moreover have "ValW default_world (flag_name (kind_name k)) = flag_value ovs_registry (\<lambda>_. None) (flag_name (kind_name k))" for k
    by (simp add: default_world_def)
  ultimately show ?thesis
    using default_program [of default_world "''1''"] by auto
qed

end
