(* ===== verification/Spec2Isabelle.thy ===== *)
theory Spec2Isabelle
  imports Prelude GoStrings GoStrconv GoJson GoRegexp GoPath Appctl Coverage Memory Dpif Dpctl Upcall
    Discover UnixctlClient Connections Scraper Refresh Recovery OvsModel Rows Ovsdb Datasource Collectors Reports
    Series Database Registry Probes Otel Exporter System Serving Defaults
begin

text \<open>
  A verification development of ovs-exporter, a metrics exporter for Open vSwitch.

  \<^bold>\<open>The program.\<close> The exporter reads two sources and reports them as metrics. A client of the switch's
  control socket (\<^verbatim>\<open>internal/unixctl\<close>) asks \<^verbatim>\<open>ovs-vswitchd\<close> for five text reports; a scraper
  (\<^verbatim>\<open>internal/scrape\<close>) does so on a ticker through \<^verbatim>\<open>internal/datasource/refresh.go\<close> and keeps the last
  good snapshot. A client of the switch's database (\<^verbatim>\<open>internal/ovsdb\<close>) keeps a cache of its tables.
  Ten collectors (\<^verbatim>\<open>collector\<close>) read the snapshot and the cache through \<^verbatim>\<open>internal/datasource\<close> whenever
  metrics are collected; \<^verbatim>\<open>internal/otel\<close> builds the metrics, traces and logs pipelines,
  \<^verbatim>\<open>internal/probes\<close> answers the health and readiness requests, and \<^verbatim>\<open>ovs_exporter.go\<close> wires it all.

  \<^bold>\<open>The theories.\<close>
  \<^item> \<open>Prelude\<close>: Go's 64-bit integers and maps (association lists, the entries in the order they were put), with
    the facts about loops that fill a map and about ranges over one in any order.
  \<^item> \<open>GoStrings\<close>, \<open>GoStrconv\<close>, \<open>GoJson\<close>, \<open>GoRegexp\<close>, \<open>GoPath\<close>: what the program uses of the Go standard
    library (\<^verbatim>\<open>strings\<close>, \<^verbatim>\<open>strconv\<close>, \<^verbatim>\<open>encoding/json\<close> for a string, \<^verbatim>\<open>regexp\<close> for its three
    expressions, \<^verbatim>\<open>path/filepath\<close> with a file system), with their round trips; the matcher
    of \<open>GoRegexp\<close> is shown to answer the leftmost-first match among all decompositions.
  \<^item> \<open>Appctl\<close>: the contract of a report parser, a locale; \<open>Coverage\<close>, \<open>Memory\<close>, \<open>Dpif\<close>, \<open>Dpctl\<close>, \<open>Upcall\<close>:
    the five parsers of \<^verbatim>\<open>internal/unixctl\<close>, each with an invariant, an interpretation of the
    contract, and the round trip with a printer of the switch's report format.
  \<^item> \<open>Discover\<close>: \<^verbatim>\<open>discover.go\<close>; \<open>UnixctlClient\<close>: \<^verbatim>\<open>client.go\<close>, a state machine whose calls return
    the socket operations they performed, and a network that answers them (\<open>net_run\<close>, \<open>rpc_run\<close>);
    \<open>Connections\<close>: sequences of calls and closes, and which connections are open after them.
  \<^item> \<open>Scraper\<close>: \<^verbatim>\<open>internal/scrape\<close>, generic in the snapshot; the locale \<open>refresh_source\<close> is what it needs
    of a refresh function; the two stores of a refresh are also modelled apart, with readers between
    them, and refine one atomic register.
  \<^item> \<open>Refresh\<close>: \<^verbatim>\<open>refresh.go\<close> and the interpretation of \<open>refresh_source\<close> on it; \<open>Recovery\<close>: what a refresh
    achieves once the switch answers again.
  \<^item> \<open>VswitchSchema\<close>, \<open>OvsModel\<close>: \<^verbatim>\<open>internal/ovsdb/ovsmodel\<close>, the schema and the structs of its tables.
  \<^item> \<open>Rows\<close>: the rows of \<^verbatim>\<open>ovsmodel\<close> that are read, as records with every field; \<open>Ovsdb\<close>:
    \<^verbatim>\<open>internal/ovsdb\<close>, the connection and the view of the cache; \<open>Datasource\<close>: \<^verbatim>\<open>datasource.go\<close>
    and the dependency checks of \<^verbatim>\<open>collector.go\<close>.
  \<^item> \<open>Collectors\<close>: the ten collectors, the locale \<open>collector\<close> and its ten interpretations; \<open>Reports\<close>: the way
    from the state of a switch through its reports, the socket, the parsers and the scraper to the
    observations; \<open>Series\<close>: which collector owns a metric, and that no series is reported twice;
    \<open>Database\<close>: the databases that conform to the schema, how their rows fit the structs, and what the
    interface collectors report of one; \<open>Registry\<close>: the rest of \<^verbatim>\<open>collector/collector.go\<close> and the \<^verbatim>\<open>init\<close> functions.
  \<^item> \<open>Probes\<close>: \<^verbatim>\<open>internal/probes\<close>; \<open>Otel\<close>: \<^verbatim>\<open>internal/otel\<close>; \<open>Exporter\<close>: \<^verbatim>\<open>ovs_exporter.go\<close>.
  \<^item> \<open>System\<close>: the running program as a step relation: the two stores of a refresh, the readiness requests,
    the database and the clock in any order, and collections whose callbacks, and the table reads of one
    callback, see different moments; its invariant holds in every reachable state. \<open>Serving\<close>: what the
    running program reports of a switch; \<open>Defaults\<close>: the program as it comes, without flags or variables.
  \<^item> This theory: the properties of the program as a whole.

  \<^bold>\<open>Conventions.\<close> A struct is a record, a pointer that may be nil an option, a fallible function returns a
  sum, an \<^verbatim>\<open>int64\<close> is a 64-bit word, a time an integer of nanoseconds (0 is the zero time). What lies
  outside the repository is an argument: \<open>call_env\<close> (file system, clock and socket of one call),
  \<open>ovsdb_world\<close>, \<open>otel_world\<close>, \<open>meter\<close>, the values of the flags. A function that the code runs for its
  effects returns them as a list of actions in order. Pointers into a map that the parsers keep
  while they fill it are the keys of the objects. The observers range over the maps of a snapshot in an order
  that is an argument (\<open>range_order\<close>, which tells for every loop how it permutes the entries), and what they
  report is stated up to order; where the collectors of a group are registered, checked or closed
  entry by entry, the list stands for one of the orders Go may choose.

  \<^bold>\<open>What is shown.\<close> The reports the switch prints are parsed to the values in them, for every 64-bit
  value, and from a switch that answers, the metrics are the values of its state, each once, end to end; every
  published snapshot is well formed; replies belong to their requests, also after time-outs; a call
  that fails at the transport leaves a client that dials again, no connection is leaked, and one refresh
  after the switch is back the program is ready; readiness implies a fresh refresh whose snapshot is
  published or about to be, in every interleaving; no call blocks longer
  than its deadline; the collectors report exactly the attached interfaces, each series once, also while
  the cache changes between their reads, and of a database that conforms to the schema all of them, with
  exact state gauges; the up gauge says which data is there; the flags and their declared
  defaults select the collectors; set-up restores the environment, and what was opened is closed in order; without
  flags the program serves, collects and refreshes as documented.

  \<^bold>\<open>Bounds.\<close> No definition uses fuel: every loop of the program runs over a list (lines, tokens, calls,
  rows) or, in the standard library, over a string that gets shorter, and the ticker loop runs over
  the list of the events that reach it. Durations are 64-bit words; properties that need a product
  or a difference not to wrap say so.

  \<^bold>\<open>Not modelled.\<close> The resource detectors and the other constructors of the OpenTelemetry SDK, which
  are parameters; log lines other than the ones that are results; the
  flag parser, the HTTP server and the landing page; how the library computes its updates of the cache
  (the cache may change in any way at any moment). \<^verbatim>\<open>Schema\<close>, which parses the schema literal, is not
  called by the program.
\<close>

section \<open>Readiness\<close>

text \<open>Property C4. Recovery of the whole program: whatever happened since the start, after one refresh
  in which the switch answers its last four calls, and with a connected database, the readiness probe
  answers 200 for as long as three times the TTL after the start of that refresh, and every collector
  except the coverage collector has its data.\<close>

theorem switch_back_means_ready:
  assumes "scraper_run ovs_refresh_fun t0 (evs @ [Tick t]) c s = (c', s', e)"
    and "0 < sint (ConfInterval (ScConfig s))" and "Cancelled \<notin> set evs"
    and "switch_back (World t) (Cfg c)"
    and "Inner cl = Some i" and "connected i"
    and "0 \<le> sint ttl" and "3 * sint ttl \<le> max_duration"
    and "0 < Start t" and "Start t \<le> now" and "now - Start t \<le> 3 * sint ttl"
  shows "Status (Ready (buildReadyChecks health_text stale_text connected now (Some cl) s' ttl)) = 200
    \<and> (\<forall>k. k = Coverage_events \<or> kind_dep k (Some (source_of cache_of (NewDataSource (Some cl) (Some s')))))"
proof -
  obtain snap where snap: "ScSnap s' = Some snap" "four_reports snap"
      "ScOutcome s' = Some (outcome_of t (Inr (Some snap) :: refresh_error + ovs_snapshot option))"
    using switch_back_run [OF assms(1-4)] by blast
  have "sint (since now (Start t)) = now - Start t"
    using assms(7-11) by (intro since_exact) simp
  then have "scraper_stale now (3 * ttl) s' = None"
    using assms(9-11) sint_three [OF assms(7,8)]
    by (simp add: scraper_stale_def scraper_outcome_def snap(3) outcome_of_def Let_def word_sless_alt)
  moreover have "ovsdb_healthy connected (Some cl) = None"
    using assms(5,6) by (simp add: ovsdb_healthy_def)
  moreover have "k = Coverage_events \<or> kind_dep k (Some (source_of cache_of (NewDataSource (Some cl) (Some s'))))" for k
    using snap(1,2) by (cases k) (simp_all add: source_of_def NewDataSource_def ds_OVS_def ds_UnixCtlOVS_def
        OVSViewAvailable_def UnixctlHas_def scraper_snapshot_def four_reports_def)
  ultimately show ?thesis
    by (simp add: ready_checks_iff)
qed

section \<open>Examples\<close>

definition ex_up_tick :: "(nat \<Rightarrow> call_env) tick" where
  "ex_up_tick = \<lparr>World = (\<lambda>_. ex_up_env), Start = 100, Finish = 105\<rparr>"

definition ex_up_scraper :: "(refresh_error, ovs_snapshot) scraper" where
  "ex_up_scraper = \<lparr>ScConfig = ex_scraper_config\<lparr>ConfInterval := 15 * 1000000000\<rparr>, ScSnap = None,
     ScOutcome = None\<rparr>"

lemma ex_switch_back: "switch_back (\<lambda>_. ex_up_env) (Cfg (ex_client i k))"
  unfolding switch_back_def using ex_up_answers empty_reports by blast

theorem switch_back_means_ready_witness:
  "\<exists>s'. Status (Ready (buildReadyChecks (\<lambda>_. ''down'') (\<lambda>_. ''stale'') (\<lambda>i. True) 107 (Some ex_db_client)
      (s' :: (refresh_error, ovs_snapshot) scraper) 60)) = 200
    \<and> kind_dep Upcalls (Some (source_of (\<lambda>_. None) (NewDataSource (Some ex_db_client) (Some s'))))"
proof -
  let ?down = "ex_up_tick\<lparr>World := (\<lambda>_. ex_env 0 None), Start := 50\<rparr>"
  obtain c' s' e where run: "scraper_run ovs_refresh_fun ?down ([] @ [Tick ex_up_tick]) (ex_client 0 None) ex_up_scraper
      = (c', s', e)"
    by (metis prod_cases3)
  have hyps: "0 < sint (ConfInterval (ScConfig ex_up_scraper))" "Cancelled \<notin> set []"
    "switch_back (World ex_up_tick) (Cfg (ex_client 0 None))" "Inner ex_db_client = Some 0" "True"
    "0 \<le> sint (60 :: int64)" "3 * sint (60 :: int64) \<le> max_duration" "0 < Start ex_up_tick"
    "Start ex_up_tick \<le> 107" "107 - Start ex_up_tick \<le> 3 * sint (60 :: int64)"
    using ex_switch_back
    by (simp_all add: ex_up_scraper_def ex_up_tick_def ex_db_client_def max_duration_def)
  show ?thesis
    using switch_back_means_ready [where connected = "\<lambda>i. True" and cache_of = "\<lambda>_. None"
        and health_text = "\<lambda>_. ''down''" and stale_text = "\<lambda>_. ''stale''", OF run hyps]
    by blast
qed

end
